theory Spec2Isabelle
  imports Main "HOL-Library.Sublist"
begin

section \<open>Python values and exceptions\<close>

text \<open>
  The value \<open>yaml.safe_load\<close> returns: \<open>None\<close>, a bool, an int, a float (a finite
  binary float, mantissa and exponent), a str, a \<open>datetime.date\<close>, a list or a dict (an
  association list in key order; the dict holds a key once). The YAML tags for sets,
  binary data, ordered maps and pairs are not modelled.
\<close>

datatype yaml =
    YNull
  | YBool bool
  | YInt int
  | YFloat int int
  | YStr string
  | YDate nat nat nat
  | YSeq "yaml list"
  | YMap "(yaml \<times> yaml) list"

text \<open>
  The exceptions that can end a run of the importer or of the template helpers.
  \<open>SystemExit n\<close> is what \<open>sys.exit(n)\<close> raises; \<open>ValidationError\<close> and
  \<open>IntegrityError\<close> are Django's (\<open>django.core.exceptions\<close>, \<open>django.db\<close>).
\<close>

datatype exn =
    SystemExit int
  | DryRunRollbackException
  | TypeError
  | AttributeError
  | KeyError
  | EmptyPage
  | ValidationError
  | IntegrityError

text \<open>The status the interpreter ends with: the argument of \<open>sys.exit\<close>, and 1 when an
  exception other than \<open>SystemExit\<close> is not handled (the traceback is printed).\<close>

fun exit_status :: "exn \<Rightarrow> int" where
  "exit_status (SystemExit n) = n"
| "exit_status DryRunRollbackException = 1"
| "exit_status TypeError = 1"
| "exit_status AttributeError = 1"
| "exit_status KeyError = 1"
| "exit_status EmptyPage = 1"
| "exit_status ValidationError = 1"
| "exit_status IntegrityError = 1"

text \<open>\<open>s in c\<close> for a str \<open>s\<close>: a key of a dict, an element of a list, a substring of
  a str; any other right operand is not iterable.\<close>

fun contains_str :: "string \<Rightarrow> yaml \<Rightarrow> exn + bool" where
  "contains_str s (YMap kvs) = Inr (YStr s \<in> set (map fst kvs))"
| "contains_str s (YSeq xs) = Inr (YStr s \<in> set xs)"
| "contains_str s (YStr t) = Inr (sublist s t)"
| "contains_str s YNull = Inl TypeError"
| "contains_str s (YBool b) = Inl TypeError"
| "contains_str s (YInt i) = Inl TypeError"
| "contains_str s (YFloat m e) = Inl TypeError"
| "contains_str s (YDate y m d) = Inl TypeError"

text \<open>\<open>c[s]\<close> for a str \<open>s\<close>: the value under the key in a dict (\<open>KeyError\<close> when
  absent); a list and a str take integer indices only, and nothing else is subscriptable.\<close>

fun getitem :: "yaml \<Rightarrow> string \<Rightarrow> exn + yaml" where
  "getitem (YMap kvs) s = (case map_of kvs (YStr s) of None \<Rightarrow> Inl KeyError | Some v \<Rightarrow> Inr v)"
| "getitem (YSeq xs) s = Inl TypeError"
| "getitem (YStr t) s = Inl TypeError"
| "getitem YNull s = Inl TypeError"
| "getitem (YBool b) s = Inl TypeError"
| "getitem (YInt i) s = Inl TypeError"
| "getitem (YFloat m e) s = Inl TypeError"
| "getitem (YDate y m d) s = Inl TypeError"

text \<open>\<open>c.get(s, default)\<close>: only a dict has the method.\<close>

fun get_default :: "yaml \<Rightarrow> string \<Rightarrow> yaml \<Rightarrow> exn + yaml" where
  "get_default (YMap kvs) s dflt = Inr (case map_of kvs (YStr s) of None \<Rightarrow> dflt | Some v \<Rightarrow> v)"
| "get_default (YSeq xs) s dflt = Inl AttributeError"
| "get_default (YStr t) s dflt = Inl AttributeError"
| "get_default YNull s dflt = Inl AttributeError"
| "get_default (YBool b) s dflt = Inl AttributeError"
| "get_default (YInt i) s dflt = Inl AttributeError"
| "get_default (YFloat m e) s dflt = Inl AttributeError"
| "get_default (YDate y m d) s dflt = Inl AttributeError"

text \<open>The items a \<open>for\<close> loop visits: the elements of a list, the keys of a dict, the
  characters of a str.\<close>

fun py_iter :: "yaml \<Rightarrow> exn + yaml list" where
  "py_iter (YSeq xs) = Inr xs"
| "py_iter (YMap kvs) = Inr (map fst kvs)"
| "py_iter (YStr t) = Inr (map (\<lambda>c. YStr [c]) t)"
| "py_iter YNull = Inl TypeError"
| "py_iter (YBool b) = Inl TypeError"
| "py_iter (YInt i) = Inl TypeError"
| "py_iter (YFloat m e) = Inl TypeError"
| "py_iter (YDate y m d) = Inl TypeError"

text \<open>Decimal text of a number, as \<open>%d\<close> and \<open>f'{page}'\<close> print an int.\<close>

definition digit :: "nat \<Rightarrow> char" where
  "digit d = ''0123456789'' ! d"

fun str_nat :: "nat \<Rightarrow> string" where
  "str_nat n = (if n < 10 then [digit n] else str_nat (n div 10) @ [digit (n mod 10)])"

declare str_nat.simps [simp del]

definition str_int :: "int \<Rightarrow> string" where
  "str_int i = (if i < 0 then CHR ''-'' # str_nat (nat (- i)) else str_nat (nat i))"

definition quoted :: "string \<Rightarrow> string" where
  "quoted s = CHR 0x27 # s @ [CHR 0x27]"

section \<open>The logger\<close>

datatype level = DEBUG | INFO | WARNING | ERROR

fun levelno :: "level \<Rightarrow> nat" where
  "levelno DEBUG = 10"
| "levelno INFO = 20"
| "levelno WARNING = 30"
| "levelno ERROR = 40"

section \<open>The store\<close>

text \<open>
  The three tables of \<open>rrs.models\<close> the importer uses, each row with its primary key;
  a foreign key holds the primary key of the row it points to. A date is the value
  \<open>YDate y m d\<close>; the same records stand for the objects the ORM hands to the
  importer, whose date attributes hold whatever was assigned to them.
\<close>

record maintplan =
  plan_id :: nat
  plan_name :: string

record release =
  rel_id :: nat
  rel_plan :: nat
  rel_name :: string
  rel_start_date :: yaml
  rel_end_date :: yaml

record milestone =
  ms_id :: nat
  ms_release :: nat
  ms_name :: string
  ms_start_date :: yaml
  ms_end_date :: yaml

record store =
  plans :: "maintplan list"
  releases :: "release list"
  milestones :: "milestone list"

text \<open>What a run can change: the store, the logger's level and the records it has
  emitted.\<close>

record state =
  db :: store
  logger_level :: level
  log_out :: "(level \<times> string) list"

definition logger_setLevel :: "level \<Rightarrow> state \<Rightarrow> state" where
  "logger_setLevel l st = st\<lparr>logger_level := l\<rparr>"

definition logger_log :: "level \<Rightarrow> string \<Rightarrow> state \<Rightarrow> state" where
  "logger_log l msg st =
     (if levelno (logger_level st) \<le> levelno l then st\<lparr>log_out := log_out st @ [(l, msg)]\<rparr>
      else st)"

definition logger_error :: "string \<Rightarrow> state \<Rightarrow> state" where
  "logger_error msg st = logger_log ERROR msg st"

definition logger_info :: "string \<Rightarrow> state \<Rightarrow> state" where
  "logger_info msg st = logger_log INFO msg st"

text \<open>\<open>sep.join(xs)\<close>.\<close>

fun join :: "string \<Rightarrow> string list \<Rightarrow> string" where
  "join sep [] = []"
| "join sep [x] = x"
| "join sep (x # y # ys) = x @ sep @ join sep (y # ys)"

section \<open>What the importer takes from outside the two source files\<close>

text \<open>
  Python's \<open>str()\<close> on a parsed value, the \<open>__str__\<close> of \<open>rrs.models.Release\<close> and
  \<open>rrs.models.Milestone\<close> (read against the store, where the row's plan and release
  are), and \<open>django.utils.dateparse.parse_date\<close> on a str: the date it reads, or
  \<open>None\<close> for a str that is not a date in a format the installed Django accepts.
\<close>

record env =
  py_str :: "yaml \<Rightarrow> string"
  Release_str :: "store \<Rightarrow> release \<Rightarrow> string"
  Milestone_str :: "store \<Rightarrow> milestone \<Rightarrow> string"
  parse_date :: "string \<Rightarrow> (nat \<times> nat \<times> nat) option"

section \<open>The ORM calls of the importer\<close>

text \<open>
  \<open>Model.objects.filter(...).first()\<close> is the first matching row in primary key order
  (the tables are kept in that order: \<open>create\<close> appends a row under the next key), or
  \<open>None\<close>.
\<close>

definition MaintenancePlan_filter_first :: "string \<Rightarrow> store \<Rightarrow> maintplan option" where
  "MaintenancePlan_filter_first name s = find (\<lambda>p. plan_name p = name) (plans s)"

definition MaintenancePlan_values_list_name :: "store \<Rightarrow> string list" where
  "MaintenancePlan_values_list_name s = map plan_name (plans s)"

definition next_id :: "nat list \<Rightarrow> nat" where
  "next_id ids = Suc (fold max ids 0)"

definition Release_filter_first :: "maintplan \<Rightarrow> string \<Rightarrow> store \<Rightarrow> release option" where
  "Release_filter_first plan name s =
     find (\<lambda>r. rel_plan r = plan_id plan \<and> rel_name r = name) (releases s)"

definition Milestone_filter_first :: "release \<Rightarrow> string \<Rightarrow> store \<Rightarrow> milestone option" where
  "Milestone_filter_first rel name s =
     find (\<lambda>m. ms_release m = rel_id rel \<and> ms_name m = name) (milestones s)"

text \<open>
  Modelled from the spec: the columns \<open>start_date\<close> and \<open>end_date\<close> of
  \<open>rrs.models.Release\<close> and \<open>rrs.models.Milestone\<close>, declared in \<open>rrs/models.py\<close>,
  which is not among the source files. Section 3 gives a release and a milestone a
  start date and an end date, simple calendar dates: the columns are Django
  \<open>DateField\<close>s that hold a date in every row.

  When a row is written, Django passes the value of a \<open>DateField\<close> through
  \<open>DateField.to_python\<close>: \<open>None\<close> and a date pass as they are, a str is read by
  \<open>parse_date\<close> and is a \<open>ValidationError\<close> when that reads no date, and any other
  value makes \<open>parse_date\<close> raise \<open>TypeError\<close>.
\<close>

definition DateField_to_python :: "env \<Rightarrow> yaml \<Rightarrow> exn + yaml" where
  "DateField_to_python ev v =
     (case v of
        YNull \<Rightarrow> Inr YNull
      | YDate y m d \<Rightarrow> Inr (YDate y m d)
      | YStr t \<Rightarrow>
          (case parse_date ev t of
             None \<Rightarrow> Inl ValidationError
           | Some (y, m, d) \<Rightarrow> Inr (YDate y m d))
      | YBool b \<Rightarrow> Inl TypeError
      | YInt i \<Rightarrow> Inl TypeError
      | YFloat m e \<Rightarrow> Inl TypeError
      | YSeq xs \<Rightarrow> Inl TypeError
      | YMap kvs \<Rightarrow> Inl TypeError)"

text \<open>
  Modelled from the spec: the date columns of \<open>rrs.models.Release\<close> and
  \<open>rrs.models.Milestone\<close> (declared in \<open>rrs/models.py\<close>, not among the source
  files) hold a date in every row, as section 3 has it. The two values of a row that is
  written are converted in the order of the columns, and then the statement fails with
  \<open>IntegrityError\<close> when one of them is \<open>NULL\<close>.
\<close>

definition date_columns :: "env \<Rightarrow> yaml \<Rightarrow> yaml \<Rightarrow> exn + yaml \<times> yaml" where
  "date_columns ev sd ed =
     (case DateField_to_python ev sd of
        Inl e \<Rightarrow> Inl e
      | Inr sd' \<Rightarrow>
          (case DateField_to_python ev ed of
             Inl e \<Rightarrow> Inl e
           | Inr ed' \<Rightarrow>
               if sd' = YNull \<or> ed' = YNull then Inl IntegrityError else Inr (sd', ed')))"

text \<open>
  \<open>Model.objects.create(...)\<close> inserts a row under the next key and returns the
  object: the object keeps the attribute values it was given, the row holds the
  converted dates. \<open>save()\<close> of a fetched object writes its columns back to the row of
  its key. Both raise what the conversion of the dates raises, and then write nothing.
\<close>

definition Release_create ::
  "env \<Rightarrow> maintplan \<Rightarrow> string \<Rightarrow> yaml \<Rightarrow> yaml \<Rightarrow> store \<Rightarrow> exn + release \<times> store" where
  "Release_create ev plan name sd ed s =
     (case date_columns ev sd ed of
        Inl e \<Rightarrow> Inl e
      | Inr (sd', ed') \<Rightarrow>
          (let r = \<lparr>rel_id = next_id (map rel_id (releases s)), rel_plan = plan_id plan,
                     rel_name = name, rel_start_date = sd, rel_end_date = ed\<rparr>
           in Inr (r, s\<lparr>releases := releases s
                          @ [r\<lparr>rel_start_date := sd', rel_end_date := ed'\<rparr>]\<rparr>)))"

definition Release_save :: "env \<Rightarrow> release \<Rightarrow> store \<Rightarrow> exn + store" where
  "Release_save ev r s =
     (case date_columns ev (rel_start_date r) (rel_end_date r) of
        Inl e \<Rightarrow> Inl e
      | Inr (sd', ed') \<Rightarrow>
          (let row = r\<lparr>rel_start_date := sd', rel_end_date := ed'\<rparr>
           in Inr (if rel_id r \<in> set (map rel_id (releases s))
                   then s\<lparr>releases := map (\<lambda>x. if rel_id x = rel_id r then row else x) (releases s)\<rparr>
                   else s\<lparr>releases := releases s @ [row]\<rparr>)))"

definition Milestone_create ::
  "env \<Rightarrow> release \<Rightarrow> string \<Rightarrow> yaml \<Rightarrow> yaml \<Rightarrow> store \<Rightarrow> exn + milestone \<times> store" where
  "Milestone_create ev rel name sd ed s =
     (case date_columns ev sd ed of
        Inl e \<Rightarrow> Inl e
      | Inr (sd', ed') \<Rightarrow>
          (let m = \<lparr>ms_id = next_id (map ms_id (milestones s)), ms_release = rel_id rel,
                     ms_name = name, ms_start_date = sd, ms_end_date = ed\<rparr>
           in Inr (m, s\<lparr>milestones := milestones s
                          @ [m\<lparr>ms_start_date := sd', ms_end_date := ed'\<rparr>]\<rparr>)))"

definition Milestone_save :: "env \<Rightarrow> milestone \<Rightarrow> store \<Rightarrow> exn + store" where
  "Milestone_save ev m s =
     (case date_columns ev (ms_start_date m) (ms_end_date m) of
        Inl e \<Rightarrow> Inl e
      | Inr (sd', ed') \<Rightarrow>
          (let row = m\<lparr>ms_start_date := sd', ms_end_date := ed'\<rparr>
           in Inr (if ms_id m \<in> set (map ms_id (milestones s))
                   then s\<lparr>milestones := map (\<lambda>x. if ms_id x = ms_id m then row else x) (milestones s)\<rparr>
                   else s\<lparr>milestones := milestones s @ [row]\<rparr>)))"

text \<open>\<open>with transaction.atomic():\<close> commits what the block wrote when the block ends
  normally and rolls it back when an exception leaves the block (a \<open>SystemExit\<close>
  too); the exception goes on. Log records are not part of the transaction.\<close>

definition atomic :: "(state \<Rightarrow> (exn + 'a) \<times> state) \<Rightarrow> state \<Rightarrow> (exn + 'a) \<times> state" where
  "atomic body st =
     (case body st of
        (Inl e, st') \<Rightarrow> (Inl e, st'\<lparr>db := db st\<rparr>)
      | (Inr v, st') \<Rightarrow> (Inr v, st'))"

section \<open>create\_release.py\<close>

text \<open>The command line flags (the YAML file is given to \<open>main\<close> parsed).\<close>

record args =
  debug :: bool
  quiet :: bool
  dry_run :: bool
  update :: bool

definition loglevel :: "args \<Rightarrow> level" where
  "loglevel a = (if debug a then DEBUG else if quiet a then WARNING else INFO)"

text \<open>Lines 74-77: the required fields of the release, in the order of the tuple.\<close>

fun check_release_fields :: "string list \<Rightarrow> yaml \<Rightarrow> state \<Rightarrow> (exn + unit) \<times> state" where
  "check_release_fields [] reldata st = (Inr (), st)"
| "check_release_fields (field # fs) reldata st =
     (case contains_str field reldata of
        Inl e \<Rightarrow> (Inl e, st)
      | Inr present \<Rightarrow>
          if \<not> present
          then (Inl (SystemExit 1),
                logger_error (''Release is missing required field '' @ quoted field) st)
          else check_release_fields fs reldata st)"

text \<open>Lines 81-85: the required fields of the milestone \<open>enumerate\<close> numbers \<open>i\<close>.\<close>

fun check_milestone_fields :: "nat \<Rightarrow> string list \<Rightarrow> yaml \<Rightarrow> state \<Rightarrow> (exn + unit) \<times> state" where
  "check_milestone_fields i [] ms st = (Inr (), st)"
| "check_milestone_fields i (field # fs) ms st =
     (case contains_str field ms of
        Inl e \<Rightarrow> (Inl e, st)
      | Inr present \<Rightarrow>
          if \<not> present
          then (Inl (SystemExit 1),
                logger_error (''Milestone '' @ str_nat (i + 1) @ '' is missing required field ''
                              @ quoted field) st)
          else check_milestone_fields i fs ms st)"

text \<open>Lines 80-85: the loop over \<open>enumerate(milestones)\<close>.\<close>

fun check_milestones :: "nat \<Rightarrow> yaml list \<Rightarrow> state \<Rightarrow> (exn + unit) \<times> state" where
  "check_milestones i [] st = (Inr (), st)"
| "check_milestones i (ms # rest) st =
     (case check_milestone_fields i [''name'', ''start_date'', ''end_date''] ms st of
        (Inl e, st') \<Rightarrow> (Inl e, st')
      | (Inr u, st') \<Rightarrow> check_milestones (Suc i) rest st')"

text \<open>Lines 103-122: the release is updated or created; the result is the
  \<open>release\<close> object the milestones are attached to.\<close>

definition upsert_release ::
  "env \<Rightarrow> args \<Rightarrow> maintplan \<Rightarrow> string \<Rightarrow> string \<Rightarrow> yaml \<Rightarrow> state \<Rightarrow> (exn + release) \<times> state" where
  "upsert_release ev a maintplan plan_name' release_name reldata st =
     (case Release_filter_first maintplan release_name (db st) of
        Some existing \<Rightarrow>
          if \<not> update a
          then (Inl (SystemExit 1),
                logger_error (''Release '' @ quoted release_name @ '' already exists for plan ''
                              @ quoted plan_name' @ '' (use --update to update it)'') st)
          else (case getitem reldata ''start_date'' of
                  Inl e \<Rightarrow> (Inl e, st)
                | Inr sd \<Rightarrow>
                   (case getitem reldata ''end_date'' of
                      Inl e \<Rightarrow> (Inl e, st)
                    | Inr ed \<Rightarrow>
                       (let release = existing\<lparr>rel_start_date := sd, rel_end_date := ed\<rparr> in
                        case Release_save ev release (db st) of
                          Inl e \<Rightarrow> (Inl e, st)
                        | Inr s1 \<Rightarrow>
                           (let st1 = st\<lparr>db := s1\<rparr>
                            in (Inr release,
                                logger_info (''Updated release ''
                                             @ quoted (Release_str ev (db st1) release)) st1)))))
      | None \<Rightarrow>
          (case getitem reldata ''start_date'' of
             Inl e \<Rightarrow> (Inl e, st)
           | Inr sd \<Rightarrow>
              (case getitem reldata ''end_date'' of
                 Inl e \<Rightarrow> (Inl e, st)
               | Inr ed \<Rightarrow>
                  (case Release_create ev maintplan release_name sd ed (db st) of
                     Inl e \<Rightarrow> (Inl e, st)
                   | Inr (release, s1) \<Rightarrow>
                      (let st1 = st\<lparr>db := s1\<rparr>
                       in (Inr release,
                           logger_info (''Created release ''
                                        @ quoted (Release_str ev (db st1) release)) st1))))))"

text \<open>Lines 124-145: the loop over the milestones.\<close>

fun upsert_milestones ::
  "env \<Rightarrow> args \<Rightarrow> release \<Rightarrow> yaml list \<Rightarrow> state \<Rightarrow> (exn + unit) \<times> state" where
  "upsert_milestones ev a release [] st = (Inr (), st)"
| "upsert_milestones ev a release (ms # rest) st =
     (case getitem ms ''name'' of
        Inl e \<Rightarrow> (Inl e, st)
      | Inr n \<Rightarrow>
         (let ms_name' = py_str ev n in
          case Milestone_filter_first release ms_name' (db st) of
            Some existing_ms \<Rightarrow>
              if \<not> update a
              then (Inl (SystemExit 1),
                    logger_error (''Milestone '' @ quoted ms_name' @ '' already exists for release ''
                                  @ quoted (Release_str ev (db st) release)
                                  @ '' (use --update to update it)'') st)
              else (case getitem ms ''start_date'' of
                      Inl e \<Rightarrow> (Inl e, st)
                    | Inr sd \<Rightarrow>
                       (case getitem ms ''end_date'' of
                          Inl e \<Rightarrow> (Inl e, st)
                        | Inr ed \<Rightarrow>
                           (let m = existing_ms\<lparr>ms_start_date := sd, ms_end_date := ed\<rparr> in
                            case Milestone_save ev m (db st) of
                              Inl e \<Rightarrow> (Inl e, st)
                            | Inr s1 \<Rightarrow>
                               (let st1 = st\<lparr>db := s1\<rparr>;
                                    st2 = logger_info (''Updated milestone ''
                                                       @ quoted (Milestone_str ev (db st1) m)) st1
                                in upsert_milestones ev a release rest st2))))
          | None \<Rightarrow>
              (case getitem ms ''start_date'' of
                 Inl e \<Rightarrow> (Inl e, st)
               | Inr sd \<Rightarrow>
                  (case getitem ms ''end_date'' of
                     Inl e \<Rightarrow> (Inl e, st)
                   | Inr ed \<Rightarrow>
                      (case Milestone_create ev release ms_name' sd ed (db st) of
                         Inl e \<Rightarrow> (Inl e, st)
                       | Inr (m, s1) \<Rightarrow>
                          (let st1 = st\<lparr>db := s1\<rparr>;
                               st2 = logger_info (''Created milestone ''
                                                  @ quoted (Milestone_str ev (db st1) m)) st1
                           in upsert_milestones ev a release rest st2))))))"

text \<open>Lines 103-148: the block under \<open>with transaction.atomic():\<close>.\<close>

definition transaction_body ::
  "env \<Rightarrow> args \<Rightarrow> maintplan \<Rightarrow> string \<Rightarrow> string \<Rightarrow> yaml \<Rightarrow> yaml list \<Rightarrow> state
     \<Rightarrow> (exn + unit) \<times> state" where
  "transaction_body ev a maintplan plan_name' release_name reldata mss st =
     (case upsert_release ev a maintplan plan_name' release_name reldata st of
        (Inl e, st1) \<Rightarrow> (Inl e, st1)
      | (Inr release, st1) \<Rightarrow>
         (case upsert_milestones ev a release mss st1 of
            (Inl e, st2) \<Rightarrow> (Inl e, st2)
          | (Inr u, st2) \<Rightarrow>
              if dry_run a then (Inl DryRunRollbackException, st2) else (Inr (), st2)))"

text \<open>Lines 87-152: the plan is looked up, the transaction runs, and the one exception
  the \<open>try\<close> catches is \<open>DryRunRollbackException\<close>. \<open>utils.setup_django()\<close> opens
  the store and changes nothing in it.\<close>

definition import_release :: "env \<Rightarrow> args \<Rightarrow> yaml \<Rightarrow> yaml list \<Rightarrow> state \<Rightarrow> exn \<times> state" where
  "import_release ev a reldata mss st =
     (case getitem reldata ''plan'' of
        Inl e \<Rightarrow> (e, st)
      | Inr p \<Rightarrow>
         (let plan_name' = py_str ev p in
          case MaintenancePlan_filter_first plan_name' (db st) of
            None \<Rightarrow>
              (SystemExit 1,
               logger_error (''Maintenance plan '' @ quoted plan_name'
                             @ '' does not exist. Available plans: ''
                             @ join '', '' (MaintenancePlan_values_list_name (db st))) st)
          | Some maintplan \<Rightarrow>
             (case getitem reldata ''name'' of
                Inl e \<Rightarrow> (e, st)
              | Inr n \<Rightarrow>
                 (let release_name = py_str ev n in
                  case atomic (transaction_body ev a maintplan plan_name' release_name reldata mss) st of
                    (Inl e, st') \<Rightarrow>
                      if e = DryRunRollbackException
                      then (SystemExit 0, logger_info ''Dry run; changes not saved'' st')
                      else (e, st')
                  | (Inr u, st') \<Rightarrow> (SystemExit 0, st')))))"

text \<open>
  \<open>main\<close>, from the parsed YAML document on (lines 56-152). Its result is the exception
  that ends the process: \<open>SystemExit n\<close> for exit code \<open>n\<close>, any other for an
  unhandled failure.
\<close>

definition main :: "env \<Rightarrow> args \<Rightarrow> yaml \<Rightarrow> state \<Rightarrow> exn \<times> state" where
  "main ev a data st0 =
     (let st = logger_setLevel (loglevel a) st0 in
      case contains_str ''release'' data of
        Inl e \<Rightarrow> (e, st)
      | Inr present \<Rightarrow>
          if \<not> present
          then (SystemExit 1,
                logger_error (''YAML file must contain a top-level '' @ quoted ''release'' @ '' key'') st)
          else
           (case getitem data ''release'' of
              Inl e \<Rightarrow> (e, st)
            | Inr reldata \<Rightarrow>
               (case check_release_fields [''plan'', ''name'', ''start_date'', ''end_date''] reldata st of
                  (Inl e, st1) \<Rightarrow> (e, st1)
                | (Inr u, st1) \<Rightarrow>
                   (case get_default reldata ''milestones'' (YSeq []) of
                      Inl e \<Rightarrow> (e, st1)
                    | Inr milestones' \<Rightarrow>
                       (case py_iter milestones' of
                          Inl e \<Rightarrow> (e, st1)
                        | Inr mss \<Rightarrow>
                           (case check_milestones 0 mss st1 of
                              (Inl e, st2) \<Rightarrow> (e, st2)
                            | (Inr u, st2) \<Rightarrow> import_release ev a reldata mss st2))))))"

section \<open>paginator.py: page\_url\<close>

text \<open>
  \<open>request.GET\<close> is a Django \<open>QueryDict\<close>: keys in insertion order, each with the
  list of its values. Keys and values are the bytes of their UTF-8 encoding, which is
  what \<open>urlencode\<close> quotes. The objects live in a heap, so that a write through one
  reference is seen through every other: an address is an index into the list.
\<close>

type_synonym querydict = "(string \<times> string list) list"

type_synonym heap = "querydict list"

record HttpRequest =
  GET :: nat

text \<open>\<open>q.copy()\<close>: a new object with the same content.\<close>

definition QueryDict_copy :: "nat \<Rightarrow> heap \<Rightarrow> nat \<times> heap" where
  "QueryDict_copy a h = (length h, h @ [h ! a])"

text \<open>\<open>q[key] = value\<close>: the key's list becomes \<open>[value]\<close>; a new key goes last.\<close>

definition setitem :: "string \<Rightarrow> string \<Rightarrow> querydict \<Rightarrow> querydict" where
  "setitem k v q =
     (if k \<in> set (map fst q) then map (\<lambda>(k', vs). if k' = k then (k', [v]) else (k', vs)) q
      else q @ [(k, [v])])"

definition QueryDict_setitem :: "nat \<Rightarrow> string \<Rightarrow> string \<Rightarrow> heap \<Rightarrow> heap" where
  "QueryDict_setitem a k v h = h[a := setitem k v (h ! a)]"

text \<open>\<open>urllib.parse.quote_plus\<close> with no extra safe characters: letters, digits and
  \<open>_.-~\<close> stay, a space becomes \<open>+\<close>, any other byte becomes \<open>%XX\<close> in upper case
  hexadecimal.\<close>

definition always_safe :: "char \<Rightarrow> bool" where
  "always_safe c \<longleftrightarrow>
     c \<in> set ''ABCDEFGHIJKLMNOPQRSTUVWXYZabcdefghijklmnopqrstuvwxyz0123456789_.-~''"

definition hexdigit :: "nat \<Rightarrow> char" where
  "hexdigit d = ''0123456789ABCDEF'' ! d"

definition quote_char :: "char \<Rightarrow> string" where
  "quote_char c =
     (if always_safe c then [c]
      else if c = CHR '' '' then ''+''
      else [CHR ''%'', hexdigit (of_char c div 16), hexdigit (of_char c mod 16)])"

definition quote_plus :: "string \<Rightarrow> string" where
  "quote_plus s = concat (map quote_char s)"

text \<open>\<open>QueryDict.urlencode()\<close>: \<open>key=value\<close> for every value of every key, joined
  by \<open>&\<close>.\<close>

definition lists_items :: "querydict \<Rightarrow> (string \<times> string) list" where
  "lists_items q = concat (map (\<lambda>(k, vs). map (\<lambda>v. (k, v)) vs) q)"

definition urlencode :: "querydict \<Rightarrow> string" where
  "urlencode q = join ''&'' (map (\<lambda>(k, v). quote_plus k @ ''='' @ quote_plus v) (lists_items q))"

definition QueryDict_urlencode :: "nat \<Rightarrow> heap \<Rightarrow> string" where
  "QueryDict_urlencode a h = urlencode (h ! a)"

text \<open>Lines 11-14. The result is the string and the heap after the call.\<close>

definition page_url :: "heap \<Rightarrow> HttpRequest \<Rightarrow> int \<Rightarrow> string \<times> heap" where
  "page_url h request page =
     (let (new_query, h1) = QueryDict_copy (GET request) h;
          h2 = QueryDict_setitem new_query ''page'' (str_int page) h1
      in (CHR ''?'' # QueryDict_urlencode new_query h2, h2))"

text \<open>
  Reading a query string back, as Django builds \<open>request.GET\<close>:
  \<open>urllib.parse.parse_qsl\<close> with \<open>keep_blank_values=True\<close>. The string is split at
  \<open>&\<close>, empty fields are skipped, a field is split at its first \<open>=\<close>, and in name and
  value \<open>+\<close> becomes a space and \<open>%XX\<close> the byte.
\<close>

fun split_on :: "char \<Rightarrow> string \<Rightarrow> string list" where
  "split_on sep [] = [[]]"
| "split_on sep (c # cs) =
     (if c = sep then [] # split_on sep cs
      else (c # hd (split_on sep cs)) # tl (split_on sep cs))"

definition is_hex :: "char \<Rightarrow> bool" where
  "is_hex c \<longleftrightarrow> c \<in> set ''0123456789ABCDEFabcdef''"

definition hexval :: "char \<Rightarrow> nat" where
  "hexval c =
     (case map_of (zip ''0123456789ABCDEFabcdef''
                       [0, 1, 2, 3, 4, 5, 6, 7, 8, 9, 10, 11, 12, 13, 14, 15, 10, 11, 12, 13, 14, 15]) c of
        Some d \<Rightarrow> d
      | None \<Rightarrow> 0)"

fun unquote :: "string \<Rightarrow> string" where
  "unquote (c # a # b # rest) =
     (if c = CHR ''%'' \<and> is_hex a \<and> is_hex b then char_of (16 * hexval a + hexval b) # unquote rest
      else c # unquote (a # b # rest))"
| "unquote [c, a] = [c, a]"
| "unquote [c] = [c]"
| "unquote [] = []"

definition unquote_plus :: "string \<Rightarrow> string" where
  "unquote_plus s = unquote (map (\<lambda>c. if c = CHR ''+'' then CHR '' '' else c) s)"

definition parse_field :: "string \<Rightarrow> string \<times> string" where
  "parse_field f =
     (unquote_plus (takeWhile (\<lambda>c. c \<noteq> CHR ''='') f),
      unquote_plus (drop 1 (dropWhile (\<lambda>c. c \<noteq> CHR ''='') f)))"

definition parse_qsl :: "string \<Rightarrow> (string \<times> string) list" where
  "parse_qsl qs = map parse_field (filter (\<lambda>f. f \<noteq> []) (split_on CHR ''&'' qs))"

text \<open>\<open>getlist(key)\<close> of the parsed pairs and of a \<open>QueryDict\<close>.\<close>

definition getlist :: "string \<Rightarrow> (string \<times> string) list \<Rightarrow> string list" where
  "getlist k kvs = map snd (filter (\<lambda>kv. fst kv = k) kvs)"

section \<open>paginator.py: elided\_page\_range\<close>

text \<open>
  A Django \<open>Paginator\<close> with its page count (\<open>num_pages\<close>), and what a page sequence
  holds: a page number or \<open>Paginator.ELLIPSIS\<close>.
\<close>

record Paginator =
  num_pages :: int

datatype page_item = PageNumber int | ELLIPSIS

text \<open>\<open>Paginator.validate_number\<close> on an int.\<close>

definition validate_number :: "Paginator \<Rightarrow> int \<Rightarrow> exn + int" where
  "validate_number pg number =
     (if number < 1 then Inl EmptyPage
      else if number > num_pages pg then Inl EmptyPage
      else Inr number)"

text \<open>\<open>range(a, b)\<close> as page numbers.\<close>

definition page_numbers :: "int \<Rightarrow> int \<Rightarrow> page_item list" where
  "page_numbers a b = map PageNumber [a..b - 1]"

text \<open>
  \<open>Paginator.get_elided_page_range\<close> of Django (django/core/paginator.py), the method
  the filter calls. It is a generator: the result is what iterating it yields, or the
  exception the iteration raises.
\<close>

definition get_elided_page_range :: "Paginator \<Rightarrow> int \<Rightarrow> int \<Rightarrow> int \<Rightarrow> exn + page_item list" where
  "get_elided_page_range pg number0 on_each_side on_ends =
     (case validate_number pg number0 of
        Inl e \<Rightarrow> Inl e
      | Inr number \<Rightarrow>
          if num_pages pg \<le> (on_each_side + on_ends) * 2
          then Inr (page_numbers 1 (num_pages pg + 1))
          else Inr
            ((if number > (1 + on_each_side + on_ends) + 1
              then page_numbers 1 (on_ends + 1) @ [ELLIPSIS]
                   @ page_numbers (number - on_each_side) (number + 1)
              else page_numbers 1 (number + 1))
             @
             (if number < (num_pages pg - on_each_side - on_ends) - 1
              then page_numbers (number + 1) (number + on_each_side + 1) @ [ELLIPSIS]
                   @ page_numbers (num_pages pg - on_ends + 1) (num_pages pg + 1)
              else page_numbers (number + 1) (num_pages pg + 1))))"

text \<open>
  The object the filter is applied to, by the two attributes the filter reads; an
  attribute the object does not have is \<open>None\<close> here, and reading it raises
  \<open>AttributeError\<close>. The \<open>paginator\<close> attribute holds a \<open>Paginator\<close> instance or an
  instance of another class.
\<close>

datatype pyobject = PaginatorInstance Paginator | OtherInstance

record page_object =
  attr_paginator :: "pyobject option"
  attr_number :: "int option"

text \<open>Lines 20-28.\<close>

definition elided_page_range :: "page_object \<Rightarrow> exn + page_item list" where
  "elided_page_range page_obj =
     (case attr_paginator page_obj of
        None \<Rightarrow> Inl AttributeError
      | Some p \<Rightarrow>
         (case p of
            OtherInstance \<Rightarrow> Inr []
          | PaginatorInstance pg \<Rightarrow>
             (case attr_number page_obj of
                None \<Rightarrow> Inl AttributeError
              | Some n \<Rightarrow> get_elided_page_range pg n 3 1)))"

text \<open>Counting the markers of a sequence, and two markers side by side.\<close>

definition ellipsis_count :: "page_item list \<Rightarrow> nat" where
  "ellipsis_count xs = length (filter (\<lambda>x. x = ELLIPSIS) xs)"

fun adjacent_ellipsis :: "page_item list \<Rightarrow> bool" where
  "adjacent_ellipsis (x # y # ys) = ((x = ELLIPSIS \<and> y = ELLIPSIS) \<or> adjacent_ellipsis (y # ys))"
| "adjacent_ellipsis [x] = False"
| "adjacent_ellipsis [] = False"

section \<open>Shapes of documents and stores, for stating the properties\<close>

text \<open>The value under a key of a mapping; \<open>None\<close> when the key is absent or the value
  is not a mapping.\<close>

definition doc_field :: "string \<Rightarrow> yaml \<Rightarrow> yaml option" where
  "doc_field f v = (case v of YMap kvs \<Rightarrow> map_of kvs (YStr f) | _ \<Rightarrow> None)"

fun is_mapping :: "yaml \<Rightarrow> bool" where
  "is_mapping (YMap kvs) = True"
| "is_mapping (YSeq xs) = False"
| "is_mapping (YStr t) = False"
| "is_mapping YNull = False"
| "is_mapping (YBool b) = False"
| "is_mapping (YInt i) = False"
| "is_mapping (YFloat m e) = False"
| "is_mapping (YDate y m d) = False"

definition has_fields :: "string list \<Rightarrow> yaml \<Rightarrow> bool" where
  "has_fields fs v \<longleftrightarrow> is_mapping v \<and> list_all (\<lambda>f. doc_field f v \<noteq> None) fs"

text \<open>The milestone entries of a release object: none when the key is absent, the
  elements when the value is a sequence.\<close>

definition doc_milestones :: "yaml \<Rightarrow> yaml list option" where
  "doc_milestones reldata =
     (case doc_field ''milestones'' reldata of
        None \<Rightarrow> Some []
      | Some v \<Rightarrow> (case v of YSeq mss \<Rightarrow> Some mss | _ \<Rightarrow> None))"

text \<open>A well-formed document, after the schema of section 6 of the specification: a
  mapping with a \<open>release\<close> mapping that has the four required fields and, when it has
  \<open>milestones\<close>, a sequence of mappings with the three required fields each.\<close>

definition well_formed :: "yaml \<Rightarrow> bool" where
  "well_formed data \<longleftrightarrow>
     (case doc_field ''release'' data of
        None \<Rightarrow> False
      | Some reldata \<Rightarrow>
          has_fields [''plan'', ''name'', ''start_date'', ''end_date''] reldata \<and>
          (case doc_milestones reldata of
             None \<Rightarrow> False
           | Some mss \<Rightarrow> list_all (has_fields [''name'', ''start_date'', ''end_date'']) mss))"

text \<open>The text of a field, as the importer reads names: \<open>str()\<close> of the value.\<close>

definition field_str :: "env \<Rightarrow> string \<Rightarrow> yaml \<Rightarrow> string" where
  "field_str ev f v = (case doc_field f v of None \<Rightarrow> [] | Some x \<Rightarrow> py_str ev x)"

text \<open>The value of a field that is there.\<close>

definition field_val :: "string \<Rightarrow> yaml \<Rightarrow> yaml" where
  "field_val f v = (case doc_field f v of None \<Rightarrow> YNull | Some x \<Rightarrow> x)"

text \<open>The names of the milestone entries, in input order.\<close>

definition ms_names :: "env \<Rightarrow> yaml list \<Rightarrow> string list" where
  "ms_names ev mss = map (field_str ev ''name'') mss"

text \<open>The date a date column holds once a value has been written to it, and the
  values that can be written: those the conversion turns into a date. An object with
  \<open>start_date\<close> and \<open>end_date\<close> has valid dates when both values are such.\<close>

definition stored_date :: "env \<Rightarrow> yaml \<Rightarrow> yaml" where
  "stored_date ev v = (case DateField_to_python ev v of Inl e \<Rightarrow> YNull | Inr d \<Rightarrow> d)"

definition date_ok :: "env \<Rightarrow> yaml \<Rightarrow> bool" where
  "date_ok ev v \<longleftrightarrow> (case DateField_to_python ev v of Inl e \<Rightarrow> False | Inr d \<Rightarrow> d \<noteq> YNull)"

definition dates_ok :: "env \<Rightarrow> yaml \<Rightarrow> bool" where
  "dates_ok ev v \<longleftrightarrow> date_ok ev (field_val ''start_date'' v) \<and> date_ok ev (field_val ''end_date'' v)"

text \<open>The object \<open>create\<close> returns for a new release or milestone, and the row that
  is written for an object.\<close>

definition new_release :: "maintplan \<Rightarrow> string \<Rightarrow> yaml \<Rightarrow> yaml \<Rightarrow> store \<Rightarrow> release" where
  "new_release mp n sd ed s =
     \<lparr>rel_id = next_id (map rel_id (releases s)), rel_plan = plan_id mp, rel_name = n,
      rel_start_date = sd, rel_end_date = ed\<rparr>"

definition new_milestone :: "release \<Rightarrow> string \<Rightarrow> yaml \<Rightarrow> yaml \<Rightarrow> store \<Rightarrow> milestone" where
  "new_milestone rel n sd ed s =
     \<lparr>ms_id = next_id (map ms_id (milestones s)), ms_release = rel_id rel, ms_name = n,
      ms_start_date = sd, ms_end_date = ed\<rparr>"

definition release_row :: "env \<Rightarrow> release \<Rightarrow> release" where
  "release_row ev r =
     r\<lparr>rel_start_date := stored_date ev (rel_start_date r),
       rel_end_date := stored_date ev (rel_end_date r)\<rparr>"

definition milestone_row :: "env \<Rightarrow> milestone \<Rightarrow> milestone" where
  "milestone_row ev m =
     m\<lparr>ms_start_date := stored_date ev (ms_start_date m),
       ms_end_date := stored_date ev (ms_end_date m)\<rparr>"

text \<open>The entry that gives a milestone name its dates when the name occurs more than
  once: the last one of that name. A milestone row with the dates of an entry.\<close>

definition last_entry :: "env \<Rightarrow> string \<Rightarrow> yaml list \<Rightarrow> yaml option" where
  "last_entry ev n mss = find (\<lambda>ms. field_str ev ''name'' ms = n) (rev mss)"

definition with_dates :: "env \<Rightarrow> yaml \<Rightarrow> milestone \<Rightarrow> milestone" where
  "with_dates ev ms x =
     x\<lparr>ms_start_date := stored_date ev (field_val ''start_date'' ms),
       ms_end_date := stored_date ev (field_val ''end_date'' ms)\<rparr>"

text \<open>What one turn of the loop of lines 124-145 leaves in the store when its write
  succeeds: the milestone found under the name has the dates of the entry, or a new row
  has them.\<close>

definition upsert_row :: "env \<Rightarrow> release \<Rightarrow> yaml \<Rightarrow> store \<Rightarrow> store" where
  "upsert_row ev rel ms s =
     (case Milestone_filter_first rel (field_str ev ''name'' ms) s of
        None \<Rightarrow>
          s\<lparr>milestones := milestones s @
               [with_dates ev ms (new_milestone rel (field_str ev ''name'' ms)
                  (field_val ''start_date'' ms) (field_val ''end_date'' ms) s)]\<rparr>
      | Some ex \<Rightarrow>
          s\<lparr>milestones := map (\<lambda>x. if ms_id x = ms_id ex then with_dates ev ms ex else x)
                              (milestones s)\<rparr>)"

text \<open>The integrity constraints of the store: primary keys are unique and every
  milestone belongs to a release of the store.\<close>

definition store_ok :: "store \<Rightarrow> bool" where
  "store_ok s \<longleftrightarrow>
     distinct (map rel_id (releases s)) \<and> distinct (map ms_id (milestones s)) \<and>
     list_all (\<lambda>m. ms_release m \<in> set (map rel_id (releases s))) (milestones s)"

section \<open>Example inputs\<close>

text \<open>The example of the importer's help text (the release name as a string), an
  environment whose \<open>str()\<close> is the identity on strings, and a store that has the
  plan.\<close>

text \<open>A date parser for the example environment: it reads the ISO form
  \<open>YYYY-MM-DD\<close> of a date of the calendar and nothing else.\<close>

fun read_nat :: "nat \<Rightarrow> string \<Rightarrow> nat option" where
  "read_nat acc [] = Some acc"
| "read_nat acc (c # cs) =
     (if 48 \<le> (of_char c :: nat) \<and> (of_char c :: nat) \<le> 57
      then read_nat (10 * acc + (of_char c - 48)) cs else None)"

definition days_in_month :: "nat \<Rightarrow> nat \<Rightarrow> nat" where
  "days_in_month y m =
     (if m = 2 then (if y mod 4 = 0 \<and> (y mod 100 \<noteq> 0 \<or> y mod 400 = 0) then 29 else 28)
      else if m = 4 \<or> m = 6 \<or> m = 9 \<or> m = 11 then 30 else 31)"

definition iso_date :: "string \<Rightarrow> (nat \<times> nat \<times> nat) option" where
  "iso_date t =
     (if length t = 10 \<and> t ! 4 = CHR ''-'' \<and> t ! 7 = CHR ''-''
      then (case read_nat 0 (take 4 t) of
              None \<Rightarrow> None
            | Some y \<Rightarrow>
               (case read_nat 0 (take 2 (drop 5 t)) of
                  None \<Rightarrow> None
                | Some m \<Rightarrow>
                   (case read_nat 0 (drop 8 t) of
                      None \<Rightarrow> None
                    | Some d \<Rightarrow>
                       if 1 \<le> y \<and> 1 \<le> m \<and> m \<le> 12 \<and> 1 \<le> d \<and> d \<le> days_in_month y m
                       then Some (y, m, d) else None)))
      else None)"

definition example_env :: env where
  "example_env =
     \<lparr>py_str = (\<lambda>v. case v of YStr s \<Rightarrow> s | _ \<Rightarrow> ''?''),
      Release_str = (\<lambda>s r. rel_name r),
      Milestone_str = (\<lambda>s m. ms_name m),
      parse_date = iso_date\<rparr>"

definition example_args :: args where
  "example_args = \<lparr>debug = False, quiet = False, dry_run = False, update = False\<rparr>"

definition example_milestone :: "string \<Rightarrow> yaml \<Rightarrow> yaml \<Rightarrow> yaml" where
  "example_milestone n sd ed =
     YMap [(YStr ''name'', YStr n), (YStr ''start_date'', sd), (YStr ''end_date'', ed)]"

definition example_release :: yaml where
  "example_release =
     YMap [(YStr ''plan'', YStr ''OE-Core''), (YStr ''name'', YStr ''5.1''),
           (YStr ''start_date'', YDate 2024 4 30), (YStr ''end_date'', YDate 2024 10 25),
           (YStr ''milestones'',
            YSeq [example_milestone ''M1'' (YDate 2024 4 30) (YDate 2024 5 31),
                  example_milestone ''M2'' (YDate 2024 6 3) (YDate 2024 7 19)])]"

definition example_doc :: yaml where
  "example_doc = YMap [(YStr ''release'', example_release)]"

definition example_state :: state where
  "example_state =
     \<lparr>db = \<lparr>plans = [\<lparr>plan_id = 1, plan_name = ''OE-Core''\<rparr>], releases = [], milestones = []\<rparr>,
      logger_level = WARNING, log_out = []\<rparr>"

text \<open>The store after the example document has been imported into it.\<close>

definition example_store_imported :: store where
  "example_store_imported =
     \<lparr>plans = [\<lparr>plan_id = 1, plan_name = ''OE-Core''\<rparr>],
      releases = [\<lparr>rel_id = 1, rel_plan = 1, rel_name = ''5.1'',
                   rel_start_date = YDate 2024 4 30, rel_end_date = YDate 2024 10 25\<rparr>],
      milestones = [\<lparr>ms_id = 1, ms_release = 1, ms_name = ''M1'',
                     ms_start_date = YDate 2024 4 30, ms_end_date = YDate 2024 5 31\<rparr>,
                    \<lparr>ms_id = 2, ms_release = 1, ms_name = ''M2'',
                     ms_start_date = YDate 2024 6 3, ms_end_date = YDate 2024 7 19\<rparr>]\<rparr>"

text \<open>The milestone entries of the example, and a document whose one milestone entry
  is a list of the three field names: it passes the membership tests of the validation
  and cannot be subscripted by a name.\<close>

definition example_milestones :: "yaml list" where
  "example_milestones =
     [example_milestone ''M1'' (YDate 2024 4 30) (YDate 2024 5 31),
      example_milestone ''M2'' (YDate 2024 6 3) (YDate 2024 7 19)]"

definition example_doc_list_entry :: yaml where
  "example_doc_list_entry =
     YMap [(YStr ''release'',
            YMap [(YStr ''plan'', YStr ''OE-Core''), (YStr ''name'', YStr ''5.1''),
                  (YStr ''start_date'', YDate 2024 4 30), (YStr ''end_date'', YDate 2024 10 25),
                  (YStr ''milestones'',
                   YSeq [YSeq [YStr ''name'', YStr ''start_date'', YStr ''end_date'']])])]"

text \<open>The example with a third milestone entry that repeats the name of the first,
  the example with the text \<open>soon\<close> for the start date of the release (a str that
  is no date), and two documents with a milestone entry that lacks a field: in the
  first every entry is a mapping, in the second the first entry is a str in which the
  three field names occur.\<close>

definition example_doc_repeated :: yaml where
  "example_doc_repeated =
     YMap [(YStr ''release'',
            YMap [(YStr ''plan'', YStr ''OE-Core''), (YStr ''name'', YStr ''5.1''),
                  (YStr ''start_date'', YDate 2024 4 30), (YStr ''end_date'', YDate 2024 10 25),
                  (YStr ''milestones'',
                   YSeq [example_milestone ''M1'' (YDate 2024 4 30) (YDate 2024 5 31),
                         example_milestone ''M2'' (YDate 2024 6 3) (YDate 2024 7 19),
                         example_milestone ''M1'' (YDate 2024 7 22) (YDate 2024 8 30)])])]"

definition example_doc_bad_date :: yaml where
  "example_doc_bad_date =
     YMap [(YStr ''release'',
            YMap [(YStr ''plan'', YStr ''OE-Core''), (YStr ''name'', YStr ''5.1''),
                  (YStr ''start_date'', YStr ''soon''), (YStr ''end_date'', YDate 2024 10 25)])]"

definition example_doc_incomplete :: yaml where
  "example_doc_incomplete =
     YMap [(YStr ''release'',
            YMap [(YStr ''plan'', YStr ''OE-Core''), (YStr ''name'', YStr ''5.1''),
                  (YStr ''start_date'', YDate 2024 4 30), (YStr ''end_date'', YDate 2024 10 25),
                  (YStr ''milestones'',
                   YSeq [example_milestone ''M1'' (YDate 2024 4 30) (YDate 2024 5 31),
                         YMap [(YStr ''name'', YStr ''M2''),
                               (YStr ''start_date'', YDate 2024 6 3)]])])]"

definition example_doc_str_entry :: yaml where
  "example_doc_str_entry =
     YMap [(YStr ''release'',
            YMap [(YStr ''plan'', YStr ''OE-Core''), (YStr ''name'', YStr ''5.1''),
                  (YStr ''start_date'', YDate 2024 4 30), (YStr ''end_date'', YDate 2024 10 25),
                  (YStr ''milestones'',
                   YSeq [YStr ''name start_date end_date'',
                         YMap [(YStr ''name'', YStr ''M2''),
                               (YStr ''start_date'', YDate 2024 6 3)]])])]"

text \<open>The state after the example document has been imported into the example
  state, and a document for the same release that moves the end of the release (given
  as a str in ISO form) and the milestone M2.\<close>

definition example_state_imported :: state where
  "example_state_imported =
     \<lparr>db = example_store_imported, logger_level = INFO,
      log_out = [(INFO, ''Created release '' @ quoted ''5.1''),
                 (INFO, ''Created milestone '' @ quoted ''M1''),
                 (INFO, ''Created milestone '' @ quoted ''M2'')]\<rparr>"

definition example_release_moved :: yaml where
  "example_release_moved =
     YMap [(YStr ''plan'', YStr ''OE-Core''), (YStr ''name'', YStr ''5.1''),
           (YStr ''start_date'', YDate 2024 4 30), (YStr ''end_date'', YStr ''2024-11-08''),
           (YStr ''milestones'',
            YSeq [example_milestone ''M2'' (YDate 2024 6 10) (YDate 2024 7 26)])]"

definition example_doc_moved :: yaml where
  "example_doc_moved = YMap [(YStr ''release'', example_release_moved)]"

section \<open>Properties of the importer: validation and plan lookup\<close>

lemma db_logger_log [simp]: "db (logger_log l m st) = db st"
  by (simp add: logger_log_def)

lemma db_logger_error [simp]: "db (logger_error m st) = db st"
  by (simp add: logger_error_def)

lemma db_logger_info [simp]: "db (logger_info m st) = db st"
  by (simp add: logger_info_def)

lemma db_logger_setLevel [simp]: "db (logger_setLevel l st) = db st"
  by (simp add: logger_setLevel_def)

lemma logger_error_emits:
  "logger_error m st = st\<lparr>log_out := log_out st @ [(ERROR, m)]\<rparr>"
  by (cases "logger_level st") (simp_all add: logger_error_def logger_log_def)

lemma contains_str_YMap: "contains_str f (YMap kvs) = Inr (doc_field f (YMap kvs) \<noteq> None)"
  by (simp add: doc_field_def map_of_eq_None_iff)

lemma getitem_YMap:
  "getitem (YMap kvs) f = (case doc_field f (YMap kvs) of None \<Rightarrow> Inl KeyError | Some v \<Rightarrow> Inr v)"
  by (simp add: doc_field_def)

lemma doc_field_Some_mapping: "doc_field f v = Some x \<Longrightarrow> is_mapping v"
  by (cases v) (simp_all add: doc_field_def)

lemma is_mapping_iff: "is_mapping v \<longleftrightarrow> (\<exists>kvs. v = YMap kvs)"
  by (cases v) simp_all

lemma check_release_fields_mapping:
  "is_mapping reldata \<Longrightarrow>
   check_release_fields fs reldata st =
     (case find (\<lambda>f. doc_field f reldata = None) fs of
        None \<Rightarrow> (Inr (), st)
      | Some f \<Rightarrow> (Inl (SystemExit 1),
                  logger_error (''Release is missing required field '' @ quoted f) st))"
  by (induction fs) (auto simp: is_mapping_iff contains_str_YMap simp del: contains_str.simps)

lemma check_milestone_fields_mapping:
  "is_mapping ms \<Longrightarrow>
   check_milestone_fields i fs ms st =
     (case find (\<lambda>f. doc_field f ms = None) fs of
        None \<Rightarrow> (Inr (), st)
      | Some f \<Rightarrow> (Inl (SystemExit 1),
                  logger_error (''Milestone '' @ str_nat (i + 1) @ '' is missing required field ''
                                @ quoted f) st))"
  by (induction fs) (auto simp: is_mapping_iff contains_str_YMap simp del: contains_str.simps)

lemma find_None_has_fields:
  "is_mapping v \<Longrightarrow> find (\<lambda>f. doc_field f v = None) fs = None \<longleftrightarrow> has_fields fs v"
  by (induction fs) (simp_all add: has_fields_def)

lemma check_milestones_ok:
  "list_all (has_fields [''name'', ''start_date'', ''end_date'']) mss \<Longrightarrow>
   check_milestones i mss st = (Inr (), st)"
proof (induction mss arbitrary: i)
  case Nil
  then show ?case by simp
next
  case (Cons ms mss)
  then have m: "is_mapping ms" and h: "has_fields [''name'', ''start_date'', ''end_date''] ms"
    by (simp_all add: has_fields_def)
  from h have "find (\<lambda>f. doc_field f ms = None) [''name'', ''start_date'', ''end_date''] = None"
    using find_None_has_fields [OF m] by blast
  with Cons m show ?case
    by (simp add: check_milestone_fields_mapping del: check_milestone_fields.simps)
qed

lemma check_milestones_first_bad:
  assumes "list_all (has_fields [''name'', ''start_date'', ''end_date'']) pre"
    and "is_mapping ms"
    and "find (\<lambda>f. doc_field f ms = None) [''name'', ''start_date'', ''end_date''] = Some f"
  shows "check_milestones i (pre @ ms # post) st =
           (Inl (SystemExit 1),
            logger_error (''Milestone '' @ str_nat (i + length pre + 1)
                          @ '' is missing required field '' @ quoted f) st)"
  using assms
proof (induction pre arbitrary: i)
  case Nil
  then show ?case
    by (simp add: check_milestone_fields_mapping del: check_milestone_fields.simps)
next
  case (Cons p pre)
  then have m: "is_mapping p" and h: "has_fields [''name'', ''start_date'', ''end_date''] p"
    by (simp_all add: has_fields_def)
  from h have "find (\<lambda>f. doc_field f p = None) [''name'', ''start_date'', ''end_date''] = None"
    using find_None_has_fields [OF m] by blast
  with Cons m show ?case
    by (simp add: check_milestone_fields_mapping del: check_milestone_fields.simps)
qed


lemma get_default_mapping:
  "is_mapping reldata \<Longrightarrow> doc_milestones reldata = Some mss \<Longrightarrow>
   \<exists>v. get_default reldata ''milestones'' (YSeq []) = Inr v \<and> py_iter v = Inr mss"
  by (auto simp: is_mapping_iff doc_milestones_def doc_field_def split: option.splits yaml.splits)


lemma main_after_release:
  assumes "doc_field ''release'' data = Some reldata"
  shows "main ev a data st =
     (case check_release_fields [''plan'', ''name'', ''start_date'', ''end_date''] reldata
             (logger_setLevel (loglevel a) st) of
        (Inl e, st1) \<Rightarrow> (e, st1)
      | (Inr u, st1) \<Rightarrow>
          (case get_default reldata ''milestones'' (YSeq []) of
             Inl e \<Rightarrow> (e, st1)
           | Inr milestones' \<Rightarrow>
              (case py_iter milestones' of
                 Inl e \<Rightarrow> (e, st1)
               | Inr mss \<Rightarrow>
                  (case check_milestones 0 mss st1 of
                     (Inl e, st2) \<Rightarrow> (e, st2)
                   | (Inr u, st2) \<Rightarrow> import_release ev a reldata mss st2))))"
proof -
  from assms obtain top where top: "data = YMap top"
    using doc_field_Some_mapping is_mapping_iff by blast
  with assms show ?thesis
    by (simp add: main_def contains_str_YMap getitem_YMap Let_def
        del: contains_str.simps getitem.simps check_release_fields.simps)
qed

lemma main_release_field_missing:
  assumes "doc_field ''release'' data = Some reldata" and "is_mapping reldata"
    and "find (\<lambda>f. doc_field f reldata = None) [''plan'', ''name'', ''start_date'', ''end_date''] = Some f"
  shows "main ev a data st =
           (SystemExit 1,
            st\<lparr>logger_level := loglevel a,
               log_out := log_out st @ [(ERROR, ''Release is missing required field '' @ quoted f)]\<rparr>)"
  using assms(3)
  by (simp add: main_after_release [OF assms(1)] check_release_fields_mapping [OF assms(2)]
      logger_error_emits logger_setLevel_def del: check_release_fields.simps find.simps)

lemma main_milestone_field_missing:
  assumes "doc_field ''release'' data = Some reldata"
    and "has_fields [''plan'', ''name'', ''start_date'', ''end_date''] reldata"
    and "doc_milestones reldata = Some (pre @ ms # post)"
    and "list_all (has_fields [''name'', ''start_date'', ''end_date'']) pre"
    and "is_mapping ms"
    and "find (\<lambda>f. doc_field f ms = None) [''name'', ''start_date'', ''end_date''] = Some f"
  shows "main ev a data st =
           (SystemExit 1,
            st\<lparr>logger_level := loglevel a,
               log_out := log_out st @ [(ERROR, ''Milestone '' @ str_nat (length pre + 1)
                                                @ '' is missing required field '' @ quoted f)]\<rparr>)"
proof -
  have m: "is_mapping reldata" using assms(2) by (simp add: has_fields_def)
  have none: "find (\<lambda>f. doc_field f reldata = None) [''plan'', ''name'', ''start_date'', ''end_date''] = None"
    using find_None_has_fields [OF m] assms(2) by blast
  obtain v where v: "get_default reldata ''milestones'' (YSeq []) = Inr v"
      "py_iter v = Inr (pre @ ms # post)"
    using get_default_mapping [OF m assms(3)] by blast
  show ?thesis
    using none v
    by (simp add: main_after_release [OF assms(1)] check_release_fields_mapping [OF m]
        check_milestones_first_bad [OF assms(4,5,6)]
        logger_error_emits logger_setLevel_def
        del: check_release_fields.simps find.simps check_milestones.simps)
qed

lemma main_well_formed:
  assumes "well_formed data" and "doc_field ''release'' data = Some reldata"
    and "doc_milestones reldata = Some mss"
  shows "main ev a data st = import_release ev a reldata mss (logger_setLevel (loglevel a) st)"
proof -
  have h: "has_fields [''plan'', ''name'', ''start_date'', ''end_date''] reldata"
    and ms: "list_all (has_fields [''name'', ''start_date'', ''end_date'']) mss"
    using assms by (simp_all add: well_formed_def)
  have m: "is_mapping reldata" using h by (simp add: has_fields_def)
  have none: "find (\<lambda>f. doc_field f reldata = None) [''plan'', ''name'', ''start_date'', ''end_date''] = None"
    using find_None_has_fields [OF m] h by blast
  obtain v where v: "get_default reldata ''milestones'' (YSeq []) = Inr v" "py_iter v = Inr mss"
    using get_default_mapping [OF m assms(3)] by blast
  show ?thesis
    using none v
    by (simp add: main_after_release [OF assms(2)] check_release_fields_mapping [OF m]
        check_milestones_ok [OF ms]
        del: check_release_fields.simps find.simps check_milestones.simps)
qed

lemma doc_field_getitem:
  "doc_field f v = Some x \<Longrightarrow> getitem v f = Inr x"
  by (cases v) (simp_all add: doc_field_def)

lemma has_fields_field:
  "has_fields fs v \<Longrightarrow> f \<in> set fs \<Longrightarrow> \<exists>x. doc_field f v = Some x"
  by (auto simp: has_fields_def list_all_iff)

lemma find_plan_None:
  "MaintenancePlan_filter_first n s = None \<longleftrightarrow> n \<notin> set (map plan_name (plans s))"
  by (auto simp: MaintenancePlan_filter_first_def find_None_iff)

text \<open>
  Claim C4. For every well-formed document whose plan matches the name of no
  maintenance plan of the store, the importer exits with code 1, the one error record
  lists the names of all plans, and the store is unchanged.
\<close>

theorem main_unknown_plan:
  assumes "well_formed data" and "doc_field ''release'' data = Some reldata"
    and "field_str ev ''plan'' reldata \<notin> set (map plan_name (plans (db st)))"
  shows "main ev a data st =
           (SystemExit 1,
            st\<lparr>logger_level := loglevel a,
               log_out := log_out st @
                 [(ERROR, ''Maintenance plan '' @ quoted (field_str ev ''plan'' reldata)
                          @ '' does not exist. Available plans: ''
                          @ join '', '' (map plan_name (plans (db st))))]\<rparr>)"
proof -
  have h: "has_fields [''plan'', ''name'', ''start_date'', ''end_date''] reldata"
    using assms(1,2) by (simp add: well_formed_def)
  obtain mss where mss: "doc_milestones reldata = Some mss"
    using assms(1,2) by (auto simp: well_formed_def split: option.splits)
  obtain p where p: "doc_field ''plan'' reldata = Some p"
    using has_fields_field [OF h, of "''plan''"] by auto
  have nf: "MaintenancePlan_filter_first (py_str ev p) (db st) = None"
    using assms(3) p by (simp add: find_plan_None field_str_def)
  show ?thesis
    using nf p
    by (simp add: main_well_formed [OF assms(1,2) mss] import_release_def doc_field_getitem [OF p]
        field_str_def logger_error_emits logger_setLevel_def MaintenancePlan_values_list_name_def)
qed


lemmas example_defs = example_env_def example_args_def example_milestone_def example_release_def
  example_doc_def example_state_def example_store_imported_def example_milestones_def
  example_doc_list_entry_def example_doc_repeated_def example_doc_bad_date_def
  example_doc_incomplete_def example_doc_str_entry_def example_state_imported_def
  example_release_moved_def example_doc_moved_def

lemmas eval_defs = example_defs well_formed_def has_fields_def doc_field_def doc_milestones_def
  field_str_def field_val_def ms_names_def store_ok_def
  date_ok_def dates_ok_def stored_date_def DateField_to_python_def date_columns_def
  iso_date_def days_in_month_def last_entry_def with_dates_def
  MaintenancePlan_filter_first_def Release_filter_first_def Milestone_filter_first_def
  Release_create_def Milestone_create_def Release_save_def Milestone_save_def next_id_def
  main_def import_release_def atomic_def transaction_body_def upsert_release_def
  logger_setLevel_def loglevel_def logger_info_def logger_error_def logger_log_def Let_def




text \<open>
  Claim C5, as the code has it. The required fields of a release that is a mapping are
  checked in the order plan, name, start\_date, end\_date, and the first one missing is
  the one the error record names; when the release is complete, the milestones are
  checked in input order, each for name, start\_date, end\_date, and when the entries
  before the first incomplete one are mappings with the three fields and that one is a
  mapping, the record names its 1-based position and the first field it lacks. The exit
  code is 1.
\<close>

theorem main_reports_first_missing_field:
  assumes "doc_field ''release'' data = Some reldata" and "is_mapping reldata"
  shows "(find (\<lambda>f. doc_field f reldata = None) [''plan'', ''name'', ''start_date'', ''end_date''] = Some f
          \<longrightarrow> main ev a data st =
                (SystemExit 1,
                 st\<lparr>logger_level := loglevel a,
                    log_out := log_out st @
                      [(ERROR, ''Release is missing required field '' @ quoted f)]\<rparr>)) \<and>
         (has_fields [''plan'', ''name'', ''start_date'', ''end_date''] reldata \<and>
          doc_milestones reldata = Some (pre @ ms # post) \<and>
          list_all (has_fields [''name'', ''start_date'', ''end_date'']) pre \<and>
          is_mapping ms \<and>
          find (\<lambda>f. doc_field f ms = None) [''name'', ''start_date'', ''end_date''] = Some g
          \<longrightarrow> main ev a data st =
                (SystemExit 1,
                 st\<lparr>logger_level := loglevel a,
                    log_out := log_out st @
                      [(ERROR, ''Milestone '' @ str_nat (length pre + 1)
                               @ '' is missing required field '' @ quoted g)]\<rparr>))"
  using main_release_field_missing [OF assms] main_milestone_field_missing [OF assms(1)]
  by blast


text \<open>
  A release with a plan only: \<open>name\<close> is reported, not the dates. A complete release
  whose second milestone has no end date: position 2 and \<open>end_date\<close> are reported.
\<close>

theorem main_reports_first_missing_field_witness:
  "doc_field ''release'' (YMap [(YStr ''release'', YMap [(YStr ''plan'', YStr ''OE-Core'')])])
     = Some (YMap [(YStr ''plan'', YStr ''OE-Core'')]) \<and>
   is_mapping (YMap [(YStr ''plan'', YStr ''OE-Core'')]) \<and>
   find (\<lambda>f. doc_field f (YMap [(YStr ''plan'', YStr ''OE-Core'')]) = None)
        [''plan'', ''name'', ''start_date'', ''end_date''] = Some ''name'' \<and>
   main example_env example_args
        (YMap [(YStr ''release'', YMap [(YStr ''plan'', YStr ''OE-Core'')])]) example_state =
     (SystemExit 1,
      example_state\<lparr>logger_level := INFO,
         log_out := [(ERROR, ''Release is missing required field '' @ quoted ''name'')]\<rparr>) \<and>
   list_all (has_fields [''name'', ''start_date'', ''end_date''])
     [example_milestone ''M1'' (YDate 2024 4 30) (YDate 2024 5 31)] \<and>
   is_mapping (YMap [(YStr ''name'', YStr ''M2''), (YStr ''start_date'', YDate 2024 6 3)]) \<and>
   find (\<lambda>f. doc_field f (YMap [(YStr ''name'', YStr ''M2''), (YStr ''start_date'', YDate 2024 6 3)])
              = None) [''name'', ''start_date'', ''end_date''] = Some ''end_date'' \<and>
   main example_env example_args example_doc_incomplete example_state =
     (SystemExit 1,
      example_state\<lparr>logger_level := INFO,
         log_out := [(ERROR, ''Milestone 2 is missing required field '' @ quoted ''end_date'')]\<rparr>)"
proof -
  let ?rd1 = "YMap [(YStr ''plan'', YStr ''OE-Core'')]"
  let ?m1 = "example_milestone ''M1'' (YDate 2024 4 30) (YDate 2024 5 31)"
  let ?m2 = "YMap [(YStr ''name'', YStr ''M2''), (YStr ''start_date'', YDate 2024 6 3)]"
  let ?rd2 = "YMap [(YStr ''plan'', YStr ''OE-Core''), (YStr ''name'', YStr ''5.1''),
                  (YStr ''start_date'', YDate 2024 4 30), (YStr ''end_date'', YDate 2024 10 25),
                  (YStr ''milestones'', YSeq [?m1, ?m2])]"
  have h1: "doc_field ''release'' (YMap [(YStr ''release'', ?rd1)]) = Some ?rd1"
    "is_mapping ?rd1"
    "find (\<lambda>f. doc_field f ?rd1 = None) [''plan'', ''name'', ''start_date'', ''end_date'']
       = Some ''name''"
    by (simp_all add: doc_field_def)
  have 1: "main example_env example_args (YMap [(YStr ''release'', ?rd1)]) example_state =
     (SystemExit 1,
      example_state\<lparr>logger_level := INFO,
         log_out := [(ERROR, ''Release is missing required field '' @ quoted ''name'')]\<rparr>)"
    using main_reports_first_missing_field [OF h1(1,2), of "''name''" example_env example_args
        example_state] h1(3)
    by (simp add: example_defs loglevel_def)
  have h2: "doc_field ''release'' example_doc_incomplete = Some ?rd2" "is_mapping ?rd2"
    "has_fields [''plan'', ''name'', ''start_date'', ''end_date''] ?rd2"
    "doc_milestones ?rd2 = Some ([?m1] @ ?m2 # [])"
    "list_all (has_fields [''name'', ''start_date'', ''end_date'']) [?m1]"
    "is_mapping ?m2"
    "find (\<lambda>f. doc_field f ?m2 = None) [''name'', ''start_date'', ''end_date''] = Some ''end_date''"
    by (simp_all add: example_defs has_fields_def doc_field_def doc_milestones_def)
  have 2: "main example_env example_args example_doc_incomplete example_state =
     (SystemExit 1,
      example_state\<lparr>logger_level := INFO,
         log_out := [(ERROR, ''Milestone 2 is missing required field '' @ quoted ''end_date'')]\<rparr>)"
    using main_reports_first_missing_field [OF h2(1,2), of _ example_env example_args
        example_state "[?m1]" ?m2 "[]" "''end_date''"] h2(3-7)
    by (simp add: example_defs loglevel_def str_nat.simps digit_def)
  from h1 1 h2(5-7) 2 show ?thesis by blast
qed

text \<open>
  A milestone entry that is a str passes the tests of lines 81-85 when the three field
  names occur in it, although it has no field. In this document the first entry is such a
  str and the second is a mapping without an end date: the first milestone that is not
  valid is the first, and the position reported is 2.
\<close>

theorem main_str_entry_counterexample:
  "doc_field ''release'' example_doc_str_entry =
     Some (YMap [(YStr ''plan'', YStr ''OE-Core''), (YStr ''name'', YStr ''5.1''),
                 (YStr ''start_date'', YDate 2024 4 30), (YStr ''end_date'', YDate 2024 10 25),
                 (YStr ''milestones'',
                  YSeq [YStr ''name start_date end_date'',
                        YMap [(YStr ''name'', YStr ''M2''),
                              (YStr ''start_date'', YDate 2024 6 3)]])]) \<and>
   \<not> has_fields [''name'', ''start_date'', ''end_date''] (YStr ''name start_date end_date'') \<and>
   main example_env example_args example_doc_str_entry example_state =
     (SystemExit 1,
      example_state\<lparr>logger_level := INFO,
         log_out := [(ERROR, ''Milestone 2 is missing required field '' @ quoted ''end_date'')]\<rparr>)"
proof -
  have s: "sublist ''name'' ''name start_date end_date''"
    "sublist ''start_date'' ''name start_date end_date''"
    "sublist ''end_date'' ''name start_date end_date''"
    using sublist_appendI [of "''name''" "[]" "'' start_date end_date''"]
      sublist_appendI [of "''start_date''" "''name ''" "'' end_date''"]
      sublist_appendI [of "''end_date''" "''name start_date ''" "[]"]
    by simp_all
  show ?thesis
    by (simp add: eval_defs s str_nat.simps digit_def)
qed

text \<open>
  The example document against a store that has the plans meta-oe and bitbake.
\<close>

theorem main_unknown_plan_witness:
  "well_formed example_doc \<and> doc_field ''release'' example_doc = Some example_release \<and>
   field_str example_env ''plan'' example_release
     \<notin> set (map plan_name (plans (db (example_state\<lparr>db := \<lparr>plans = [\<lparr>plan_id = 1, plan_name = ''meta-oe''\<rparr>, \<lparr>plan_id = 2, plan_name = ''bitbake''\<rparr>], releases = [], milestones = []\<rparr>\<rparr>)))) \<and>
   main example_env example_args example_doc
     (example_state\<lparr>db := \<lparr>plans = [\<lparr>plan_id = 1, plan_name = ''meta-oe''\<rparr>, \<lparr>plan_id = 2, plan_name = ''bitbake''\<rparr>], releases = [], milestones = []\<rparr>\<rparr>) =
     (SystemExit 1,
      example_state\<lparr>db := \<lparr>plans = [\<lparr>plan_id = 1, plan_name = ''meta-oe''\<rparr>, \<lparr>plan_id = 2, plan_name = ''bitbake''\<rparr>], releases = [], milestones = []\<rparr>,
         logger_level := INFO,
         log_out := [(ERROR, ''Maintenance plan '' @ quoted ''OE-Core''
                             @ '' does not exist. Available plans: meta-oe, bitbake'')]\<rparr>)"
  using main_unknown_plan
    [of example_doc example_release example_env
        "example_state\<lparr>db := \<lparr>plans = [\<lparr>plan_id = 1, plan_name = ''meta-oe''\<rparr>, \<lparr>plan_id = 2, plan_name = ''bitbake''\<rparr>], releases = [], milestones = []\<rparr>\<rparr>"
        example_args]
  by (simp add: example_defs well_formed_def has_fields_def doc_field_def doc_milestones_def
      field_str_def loglevel_def)

section \<open>Properties of the importer: the transaction\<close>

lemma atomic_Inl_db: "atomic body st = (Inl e, st') \<Longrightarrow> db st' = db st"
  by (auto simp: atomic_def split: prod.splits sum.splits)

lemma atomic_cases:
  "body st = (Inl e, st1) \<Longrightarrow> atomic body st = (Inl e, st1\<lparr>db := db st\<rparr>)"
  "body st = (Inr v, st1) \<Longrightarrow> atomic body st = (Inr v, st1)"
  by (simp_all add: atomic_def)

lemma check_release_fields_db: "db (snd (check_release_fields fs reldata st)) = db st"
  by (induction fs) (auto split: sum.splits)

lemma check_milestone_fields_db: "db (snd (check_milestone_fields i fs ms st)) = db st"
  by (induction fs) (auto split: sum.splits)

lemma check_milestones_db: "db (snd (check_milestones i mss st)) = db st"
proof (induction mss arbitrary: i st)
  case Nil
  then show ?case by simp
next
  case (Cons ms mss)
  show ?case
  proof (cases "check_milestone_fields i [''name'', ''start_date'', ''end_date''] ms st")
    case (Pair r st')
    then have "db st' = db st"
      using check_milestone_fields_db [of i "[''name'', ''start_date'', ''end_date'']" ms st] by simp
    with Pair Cons show ?thesis
      by (cases r) (simp_all del: check_milestone_fields.simps)
  qed
qed

lemma transaction_body_dry_run:
  "dry_run a \<Longrightarrow> \<exists>e st'. transaction_body ev a mp pn rn reldata mss st = (Inl e, st')"
  by (auto simp: transaction_body_def split: prod.splits sum.splits)

lemma import_release_db:
  "db (snd (import_release ev a reldata mss st)) \<noteq> db st \<Longrightarrow>
     fst (import_release ev a reldata mss st) = SystemExit 0 \<and> \<not> dry_run a"
proof -
  assume ch: "db (snd (import_release ev a reldata mss st)) \<noteq> db st"
  show ?thesis
  proof (cases "getitem reldata ''plan''")
    case (Inl e)
    with ch show ?thesis by (simp add: import_release_def)
  next
    case (Inr p)
    note p = this
    show ?thesis
    proof (cases "MaintenancePlan_filter_first (py_str ev p) (db st)")
      case None
      with ch p show ?thesis by (simp add: import_release_def)
    next
      case (Some mp)
      note mp = this
      show ?thesis
      proof (cases "getitem reldata ''name''")
        case (Inl e)
        with ch p mp show ?thesis by (simp add: import_release_def)
      next
        case (Inr n)
        let ?body = "transaction_body ev a mp (py_str ev p) (py_str ev n) reldata mss"
        obtain r st' where at: "atomic ?body st = (r, st')" by (cases "atomic ?body st")
        show ?thesis
        proof (cases r)
          case (Inl e)
          with at have "db st' = db st" using atomic_Inl_db by blast
          with ch p mp Inr at Inl show ?thesis
            by (simp add: import_release_def Let_def split: if_splits)
        next
          case r: (Inr u)
          have "\<not> dry_run a"
          proof
            assume "dry_run a"
            then obtain e s1 where "?body st = (Inl e, s1)"
              using transaction_body_dry_run by blast
            then have "atomic ?body st = (Inl e, s1\<lparr>db := db st\<rparr>)" by (rule atomic_cases)
            with at r show False by simp
          qed
          with p mp Inr at r show ?thesis
            by (simp add: import_release_def Let_def)
        qed
      qed
    qed
  qed
qed

lemma main_db:
  "db (snd (main ev a data st)) \<noteq> db st \<Longrightarrow>
     fst (main ev a data st) = SystemExit 0 \<and> \<not> dry_run a"
proof -
  assume ch: "db (snd (main ev a data st)) \<noteq> db st"
  let ?st = "logger_setLevel (loglevel a) st"
  have d0: "db ?st = db st" by (simp add: logger_setLevel_def)
  show ?thesis
  proof (cases "contains_str ''release'' data")
    case (Inl e)
    with ch d0 show ?thesis by (simp add: main_def Let_def)
  next
    case (Inr present)
    note pr = this
    show ?thesis
    proof (cases present)
      case False
      with ch d0 pr show ?thesis by (simp add: main_def Let_def logger_error_def logger_log_def)
    next
      case True
      note t = this
      show ?thesis
      proof (cases "getitem data ''release''")
        case (Inl e)
        with ch d0 pr t show ?thesis by (simp add: main_def Let_def)
      next
        case (Inr reldata)
        note rd = this
        obtain r1 st1 where c1: "check_release_fields [''plan'', ''name'', ''start_date'', ''end_date''] reldata ?st = (r1, st1)"
          by (cases "check_release_fields [''plan'', ''name'', ''start_date'', ''end_date''] reldata ?st")
        have d1: "db st1 = db st"
          using check_release_fields_db [of "[''plan'', ''name'', ''start_date'', ''end_date'']" reldata ?st] c1 d0
          by simp
        have main1: "main ev a data st =
           (case r1 of Inl e \<Rightarrow> (e, st1)
            | Inr u \<Rightarrow>
              (case get_default reldata ''milestones'' (YSeq []) of
                 Inl e \<Rightarrow> (e, st1)
               | Inr milestones' \<Rightarrow>
                  (case py_iter milestones' of
                     Inl e \<Rightarrow> (e, st1)
                   | Inr mss \<Rightarrow>
                      (case check_milestones 0 mss st1 of
                         (Inl e, st2) \<Rightarrow> (e, st2)
                       | (Inr u, st2) \<Rightarrow> import_release ev a reldata mss st2))))"
          using pr t rd c1 by (simp add: main_def Let_def del: check_release_fields.simps)
        show ?thesis
        proof (cases r1)
          case (Inl e)
          with ch main1 d1 show ?thesis by simp
        next
          case r1: (Inr u)
          show ?thesis
          proof (cases "get_default reldata ''milestones'' (YSeq [])")
            case (Inl e)
            with ch main1 r1 d1 show ?thesis by simp
          next
            case (Inr ms')
            note g = this
            show ?thesis
            proof (cases "py_iter ms'")
              case (Inl e)
              with ch main1 r1 g d1 show ?thesis by simp
            next
              case (Inr mss)
              obtain r2 st2 where c2: "check_milestones 0 mss st1 = (r2, st2)"
                by (cases "check_milestones 0 mss st1")
              have d2: "db st2 = db st"
                using check_milestones_db [of 0 mss st1] c2 d1 by simp
              show ?thesis
              proof (cases r2)
                case (Inl e)
                with ch main1 r1 g Inr c2 d2 show ?thesis by simp
              next
                case r2: (Inr u2)
                have "main ev a data st = import_release ev a reldata mss st2"
                  using main1 r1 g Inr c2 r2 by simp
                with ch d2 import_release_db [of ev a reldata mss st2] show ?thesis by simp
              qed
            qed
          qed
        qed
      qed
    qed
  qed
qed


lemma has_fields3:
  assumes "has_fields [''name'', ''start_date'', ''end_date''] ms"
  shows "getitem ms ''name'' = Inr (field_val ''name'' ms)"
    and "getitem ms ''start_date'' = Inr (field_val ''start_date'' ms)"
    and "getitem ms ''end_date'' = Inr (field_val ''end_date'' ms)"
    and "py_str ev (field_val ''name'' ms) = field_str ev ''name'' ms"
  using assms
  by (auto simp: has_fields_def field_val_def field_str_def doc_field_getitem)

lemma has_fields4:
  assumes "has_fields [''plan'', ''name'', ''start_date'', ''end_date''] reldata"
  shows "getitem reldata ''plan'' = Inr (field_val ''plan'' reldata)"
    and "getitem reldata ''name'' = Inr (field_val ''name'' reldata)"
    and "getitem reldata ''start_date'' = Inr (field_val ''start_date'' reldata)"
    and "getitem reldata ''end_date'' = Inr (field_val ''end_date'' reldata)"
    and "py_str ev (field_val ''plan'' reldata) = field_str ev ''plan'' reldata"
    and "py_str ev (field_val ''name'' reldata) = field_str ev ''name'' reldata"
  using assms
  by (auto simp: has_fields_def field_val_def field_str_def doc_field_getitem)


lemma date_columns_ok:
  "date_ok ev sd \<Longrightarrow> date_ok ev ed \<Longrightarrow>
   date_columns ev sd ed = Inr (stored_date ev sd, stored_date ev ed)"
  by (auto simp: date_ok_def date_columns_def stored_date_def split: sum.splits)

lemma date_columns_Inr:
  "date_columns ev sd ed = Inr p \<Longrightarrow>
   date_ok ev sd \<and> date_ok ev ed \<and> p = (stored_date ev sd, stored_date ev ed)"
  by (auto simp: date_ok_def date_columns_def stored_date_def split: sum.splits if_splits)

lemma DateField_to_python_raises:
  "DateField_to_python ev v = Inl e \<Longrightarrow> e = TypeError \<or> e = ValidationError"
  by (auto simp: DateField_to_python_def split: yaml.splits option.splits)

lemma date_columns_raises:
  "date_columns ev sd ed = Inl e \<Longrightarrow> e = TypeError \<or> e = ValidationError \<or> e = IntegrityError"
  by (auto simp: date_columns_def split: sum.splits if_splits dest: DateField_to_python_raises)

lemma Release_create_ok:
  "date_ok ev sd \<Longrightarrow> date_ok ev ed \<Longrightarrow>
   Release_create ev mp n sd ed s =
     Inr (new_release mp n sd ed s,
          s\<lparr>releases := releases s @ [release_row ev (new_release mp n sd ed s)]\<rparr>)"
  by (simp add: Release_create_def date_columns_ok new_release_def release_row_def)

lemma Release_create_Inr:
  "Release_create ev mp n sd ed s = Inr (r, s') \<Longrightarrow>
   date_ok ev sd \<and> date_ok ev ed \<and> r = new_release mp n sd ed s \<and>
   s' = s\<lparr>releases := releases s @ [release_row ev (new_release mp n sd ed s)]\<rparr>"
  by (auto simp: Release_create_def new_release_def release_row_def Let_def
      split: sum.splits dest!: date_columns_Inr)

lemma Release_create_raises:
  "Release_create ev mp n sd ed s = Inl e \<Longrightarrow>
   e = TypeError \<or> e = ValidationError \<or> e = IntegrityError"
  by (auto simp: Release_create_def Let_def split: sum.splits dest: date_columns_raises)

lemma Release_save_ok:
  "date_ok ev (rel_start_date r) \<Longrightarrow> date_ok ev (rel_end_date r) \<Longrightarrow>
   Release_save ev r s =
     Inr (if rel_id r \<in> set (map rel_id (releases s))
          then s\<lparr>releases := map (\<lambda>x. if rel_id x = rel_id r then release_row ev r else x) (releases s)\<rparr>
          else s\<lparr>releases := releases s @ [release_row ev r]\<rparr>)"
  by (simp add: Release_save_def date_columns_ok release_row_def)

lemma Release_save_Inr:
  "Release_save ev r s = Inr s' \<Longrightarrow>
   date_ok ev (rel_start_date r) \<and> date_ok ev (rel_end_date r)"
  by (auto simp: Release_save_def Let_def split: sum.splits dest!: date_columns_Inr)

lemma Release_save_raises:
  "Release_save ev r s = Inl e \<Longrightarrow> e = TypeError \<or> e = ValidationError \<or> e = IntegrityError"
  by (auto simp: Release_save_def Let_def split: sum.splits dest: date_columns_raises)

lemma Milestone_create_ok:
  "date_ok ev sd \<Longrightarrow> date_ok ev ed \<Longrightarrow>
   Milestone_create ev rel n sd ed s =
     Inr (new_milestone rel n sd ed s,
          s\<lparr>milestones := milestones s @ [milestone_row ev (new_milestone rel n sd ed s)]\<rparr>)"
  by (simp add: Milestone_create_def date_columns_ok new_milestone_def milestone_row_def)

lemma Milestone_create_Inr:
  "Milestone_create ev rel n sd ed s = Inr (m, s') \<Longrightarrow>
   date_ok ev sd \<and> date_ok ev ed \<and> m = new_milestone rel n sd ed s \<and>
   s' = s\<lparr>milestones := milestones s @ [milestone_row ev (new_milestone rel n sd ed s)]\<rparr>"
  by (auto simp: Milestone_create_def new_milestone_def milestone_row_def Let_def
      split: sum.splits dest!: date_columns_Inr)

lemma Milestone_create_raises:
  "Milestone_create ev rel n sd ed s = Inl e \<Longrightarrow>
   e = TypeError \<or> e = ValidationError \<or> e = IntegrityError"
  by (auto simp: Milestone_create_def Let_def split: sum.splits dest: date_columns_raises)

lemma Milestone_save_ok:
  "date_ok ev (ms_start_date m) \<Longrightarrow> date_ok ev (ms_end_date m) \<Longrightarrow>
   Milestone_save ev m s =
     Inr (if ms_id m \<in> set (map ms_id (milestones s))
          then s\<lparr>milestones := map (\<lambda>x. if ms_id x = ms_id m then milestone_row ev m else x) (milestones s)\<rparr>
          else s\<lparr>milestones := milestones s @ [milestone_row ev m]\<rparr>)"
  by (simp add: Milestone_save_def date_columns_ok milestone_row_def)

lemma Milestone_save_Inr:
  "Milestone_save ev m s = Inr s' \<Longrightarrow>
   date_ok ev (ms_start_date m) \<and> date_ok ev (ms_end_date m)"
  by (auto simp: Milestone_save_def Let_def split: sum.splits dest!: date_columns_Inr)

lemma Milestone_save_raises:
  "Milestone_save ev m s = Inl e \<Longrightarrow> e = TypeError \<or> e = ValidationError \<or> e = IntegrityError"
  by (auto simp: Milestone_save_def Let_def split: sum.splits dest: date_columns_raises)

lemma upsert_milestones_step:
  assumes "has_fields [''name'', ''start_date'', ''end_date''] ms"
  shows "upsert_milestones ev a rel (ms # rest) st =
     (case Milestone_filter_first rel (field_str ev ''name'' ms) (db st) of
        Some existing_ms \<Rightarrow>
          if \<not> update a
          then (Inl (SystemExit 1),
                logger_error (''Milestone '' @ quoted (field_str ev ''name'' ms)
                              @ '' already exists for release ''
                              @ quoted (Release_str ev (db st) rel)
                              @ '' (use --update to update it)'') st)
          else (case Milestone_save ev
                       (existing_ms\<lparr>ms_start_date := field_val ''start_date'' ms,
                                    ms_end_date := field_val ''end_date'' ms\<rparr>) (db st) of
                  Inl e \<Rightarrow> (Inl e, st)
                | Inr s1 \<Rightarrow>
                    upsert_milestones ev a rel rest
                      (logger_info (''Updated milestone ''
                          @ quoted (Milestone_str ev s1
                              (existing_ms\<lparr>ms_start_date := field_val ''start_date'' ms,
                                           ms_end_date := field_val ''end_date'' ms\<rparr>)))
                        (st\<lparr>db := s1\<rparr>)))
      | None \<Rightarrow>
          (case Milestone_create ev rel (field_str ev ''name'' ms)
                  (field_val ''start_date'' ms) (field_val ''end_date'' ms) (db st) of
             Inl e \<Rightarrow> (Inl e, st)
           | Inr (m, s1) \<Rightarrow>
               upsert_milestones ev a rel rest
                 (logger_info (''Created milestone '' @ quoted (Milestone_str ev s1 m))
                    (st\<lparr>db := s1\<rparr>))))"
  by (simp add: has_fields3 [OF assms] Let_def split: option.splits sum.splits prod.splits
      del: getitem.simps)

lemma upsert_release_cases:
  assumes "has_fields [''plan'', ''name'', ''start_date'', ''end_date''] reldata"
  shows "upsert_release ev a mp pn rn reldata st =
     (case Release_filter_first mp rn (db st) of
        Some existing \<Rightarrow>
          if \<not> update a
          then (Inl (SystemExit 1),
                logger_error (''Release '' @ quoted rn @ '' already exists for plan ''
                              @ quoted pn @ '' (use --update to update it)'') st)
          else (case Release_save ev
                       (existing\<lparr>rel_start_date := field_val ''start_date'' reldata,
                                 rel_end_date := field_val ''end_date'' reldata\<rparr>) (db st) of
                  Inl e \<Rightarrow> (Inl e, st)
                | Inr s1 \<Rightarrow>
                   (Inr (existing\<lparr>rel_start_date := field_val ''start_date'' reldata,
                                  rel_end_date := field_val ''end_date'' reldata\<rparr>),
                    logger_info (''Updated release ''
                        @ quoted (Release_str ev s1
                            (existing\<lparr>rel_start_date := field_val ''start_date'' reldata,
                                      rel_end_date := field_val ''end_date'' reldata\<rparr>)))
                      (st\<lparr>db := s1\<rparr>)))
      | None \<Rightarrow>
          (case Release_create ev mp rn (field_val ''start_date'' reldata)
                  (field_val ''end_date'' reldata) (db st) of
             Inl e \<Rightarrow> (Inl e, st)
           | Inr (r, s1) \<Rightarrow>
               (Inr r, logger_info (''Created release '' @ quoted (Release_str ev s1 r))
                         (st\<lparr>db := s1\<rparr>))))"
  by (simp add: upsert_release_def has_fields4 [OF assms] Let_def
      split: option.splits sum.splits prod.splits del: getitem.simps)

lemma getitem_raises: "getitem v f = Inl e \<Longrightarrow> e = TypeError \<or> e = KeyError"
  by (cases v) (auto split: option.splits)

lemma upsert_release_raises:
  "upsert_release ev a mp pn rn rd st = (Inl e, st') \<Longrightarrow>
     e \<noteq> DryRunRollbackException \<and> exit_status e = 1"
  by (auto simp: upsert_release_def Let_def
      split: option.splits if_splits sum.splits prod.splits
      dest!: getitem_raises Release_save_raises Release_create_raises)

lemma upsert_milestones_raises:
  "upsert_milestones ev a rel mss st = (Inl e, st') \<Longrightarrow>
     e \<noteq> DryRunRollbackException \<and> exit_status e = 1"
proof (induction mss arbitrary: st)
  case Nil
  then show ?case by simp
next
  case (Cons ms mss)
  from Cons.prems have
    "(e \<noteq> DryRunRollbackException \<and> exit_status e = 1) \<or>
     (\<exists>st1. upsert_milestones ev a rel mss st1 = (Inl e, st'))"
    by (auto simp: Let_def
        split: option.splits if_splits sum.splits prod.splits
        dest!: getitem_raises Milestone_save_raises Milestone_create_raises)
  with Cons.IH show ?case by blast
qed


lemma Milestone_filter_first_None:
  "Milestone_filter_first rel n s = None \<longleftrightarrow>
     (\<forall>m\<in>set (milestones s). \<not> (ms_release m = rel_id rel \<and> ms_name m = n))"
  by (auto simp: Milestone_filter_first_def find_None_iff)

lemma Milestone_filter_first_Some:
  "Milestone_filter_first rel n s = Some m \<Longrightarrow>
     m \<in> set (milestones s) \<and> ms_release m = rel_id rel \<and> ms_name m = n"
  by (auto simp: Milestone_filter_first_def find_Some_iff)

lemma Release_filter_first_None:
  "Release_filter_first mp n s = None \<longleftrightarrow>
     (\<forall>r\<in>set (releases s). \<not> (rel_plan r = plan_id mp \<and> rel_name r = n))"
  by (auto simp: Release_filter_first_def find_None_iff)

lemma Release_filter_first_Some:
  "Release_filter_first mp n s = Some r \<Longrightarrow>
     r \<in> set (releases s) \<and> rel_plan r = plan_id mp \<and> rel_name r = n"
  by (auto simp: Release_filter_first_def find_Some_iff)

lemma Release_filter_first_exists:
  "\<exists>r\<in>set (releases s). rel_plan r = plan_id mp \<and> rel_name r = n \<Longrightarrow>
   \<exists>existing. Release_filter_first mp n s = Some existing"
  using Release_filter_first_None [of mp n s] by (cases "Release_filter_first mp n s") auto

lemma row_facts [simp]:
  "ms_id (milestone_row ev m) = ms_id m" "ms_release (milestone_row ev m) = ms_release m"
  "ms_name (milestone_row ev m) = ms_name m"
  "ms_start_date (milestone_row ev m) = stored_date ev (ms_start_date m)"
  "ms_end_date (milestone_row ev m) = stored_date ev (ms_end_date m)"
  "rel_id (release_row ev r) = rel_id r" "rel_plan (release_row ev r) = rel_plan r"
  "rel_name (release_row ev r) = rel_name r"
  "rel_start_date (release_row ev r) = stored_date ev (rel_start_date r)"
  "rel_end_date (release_row ev r) = stored_date ev (rel_end_date r)"
  by (simp_all add: milestone_row_def release_row_def)

lemma new_facts [simp]:
  "ms_id (new_milestone rel n sd ed s) = next_id (map ms_id (milestones s))"
  "ms_release (new_milestone rel n sd ed s) = rel_id rel"
  "ms_name (new_milestone rel n sd ed s) = n"
  "ms_start_date (new_milestone rel n sd ed s) = sd"
  "ms_end_date (new_milestone rel n sd ed s) = ed"
  "rel_id (new_release mp n sd ed s) = next_id (map rel_id (releases s))"
  "rel_plan (new_release mp n sd ed s) = plan_id mp"
  "rel_name (new_release mp n sd ed s) = n"
  "rel_start_date (new_release mp n sd ed s) = sd"
  "rel_end_date (new_release mp n sd ed s) = ed"
  by (simp_all add: new_milestone_def new_release_def)

lemma upsert_milestones_create_step:
  assumes "has_fields [''name'', ''start_date'', ''end_date''] ms" and "dates_ok ev ms"
    and "Milestone_filter_first rel (field_str ev ''name'' ms) (db st) = None"
  shows "upsert_milestones ev a rel (ms # rest) st =
     upsert_milestones ev a rel rest
       (logger_info (''Created milestone ''
           @ quoted (Milestone_str ev
               ((db st)\<lparr>milestones := milestones (db st) @
                  [milestone_row ev (new_milestone rel (field_str ev ''name'' ms)
                     (field_val ''start_date'' ms) (field_val ''end_date'' ms) (db st))]\<rparr>)
               (new_milestone rel (field_str ev ''name'' ms)
                  (field_val ''start_date'' ms) (field_val ''end_date'' ms) (db st))))
          (st\<lparr>db := (db st)\<lparr>milestones := milestones (db st) @
                  [milestone_row ev (new_milestone rel (field_str ev ''name'' ms)
                     (field_val ''start_date'' ms) (field_val ''end_date'' ms) (db st))]\<rparr>\<rparr>))"
  using assms(2,3)
  by (simp add: upsert_milestones_step [OF assms(1)] dates_ok_def Milestone_create_ok
      del: upsert_milestones.simps)

lemma upsert_milestones_update_step:
  assumes "has_fields [''name'', ''start_date'', ''end_date''] ms" and "dates_ok ev ms"
    and "Milestone_filter_first rel (field_str ev ''name'' ms) (db st) = Some ex"
    and "update a"
  shows "upsert_milestones ev a rel (ms # rest) st =
     upsert_milestones ev a rel rest
       (logger_info (''Updated milestone ''
           @ quoted (Milestone_str ev
               ((db st)\<lparr>milestones :=
                   map (\<lambda>x. if ms_id x = ms_id ex
                        then milestone_row ev (ex\<lparr>ms_start_date := field_val ''start_date'' ms,
                                                  ms_end_date := field_val ''end_date'' ms\<rparr>)
                        else x) (milestones (db st))\<rparr>)
               (ex\<lparr>ms_start_date := field_val ''start_date'' ms,
                   ms_end_date := field_val ''end_date'' ms\<rparr>)))
          (st\<lparr>db := (db st)\<lparr>milestones :=
                   map (\<lambda>x. if ms_id x = ms_id ex
                        then milestone_row ev (ex\<lparr>ms_start_date := field_val ''start_date'' ms,
                                                  ms_end_date := field_val ''end_date'' ms\<rparr>)
                        else x) (milestones (db st))\<rparr>\<rparr>))"
proof -
  have "ex \<in> set (milestones (db st))"
    using Milestone_filter_first_Some [OF assms(3)] by simp
  then have "ms_id ex \<in> ms_id ` set (milestones (db st))" by (rule imageI)
  then show ?thesis
    using assms(2,3,4)
    by (simp add: upsert_milestones_step [OF assms(1)] dates_ok_def Milestone_save_ok
        del: upsert_milestones.simps)
qed

lemma upsert_milestones_update_ok:
  assumes "list_all (has_fields [''name'', ''start_date'', ''end_date'']) mss"
    and "list_all (dates_ok ev) mss" and "update a"
  shows "\<exists>st'. upsert_milestones ev a rel mss st = (Inr (), st')"
  using assms(1,2)
proof (induction mss arbitrary: st)
  case Nil
  then show ?case by simp
next
  case (Cons ms mss)
  then have h: "has_fields [''name'', ''start_date'', ''end_date''] ms" and d: "dates_ok ev ms"
    and hs: "list_all (has_fields [''name'', ''start_date'', ''end_date'']) mss"
    and ds: "list_all (dates_ok ev) mss" by simp_all
  show ?case
  proof (cases "Milestone_filter_first rel (field_str ev ''name'' ms) (db st)")
    case None
    show ?thesis
      unfolding upsert_milestones_create_step [OF h d None] by (rule Cons.IH [OF hs ds])
  next
    case (Some ex)
    show ?thesis
      unfolding upsert_milestones_update_step [OF h d Some assms(3)] by (rule Cons.IH [OF hs ds])
  qed
qed

lemma upsert_milestones_Inl:
  assumes "list_all (has_fields [''name'', ''start_date'', ''end_date'']) mss"
    and "list_all (dates_ok ev) mss"
    and "upsert_milestones ev a rel mss st = (Inl e, st')"
  shows "e = SystemExit 1 \<and> \<not> update a"
  using assms
proof (induction mss arbitrary: st)
  case Nil
  then show ?case by simp
next
  case (Cons ms mss)
  then have h: "has_fields [''name'', ''start_date'', ''end_date''] ms" and d: "dates_ok ev ms"
    and hs: "list_all (has_fields [''name'', ''start_date'', ''end_date'']) mss"
    and ds: "list_all (dates_ok ev) mss" by simp_all
  show ?case
  proof (cases "Milestone_filter_first rel (field_str ev ''name'' ms) (db st)")
    case None
    from Cons.prems(3) [unfolded upsert_milestones_create_step [OF h d None]]
    show ?thesis by (rule Cons.IH [OF hs ds])
  next
    case (Some ex)
    show ?thesis
    proof (cases "update a")
      case True
      from Cons.prems(3) [unfolded upsert_milestones_update_step [OF h d Some True]]
      show ?thesis by (rule Cons.IH [OF hs ds])
    next
      case False
      with Some Cons.prems(3) show ?thesis
        by (simp add: upsert_milestones_step [OF h] del: upsert_milestones.simps)
    qed
  qed
qed

lemma upsert_milestones_no_update_Inr:
  assumes "\<not> update a"
    and "list_all (has_fields [''name'', ''start_date'', ''end_date'']) mss"
    and "upsert_milestones ev a rel mss st = (Inr u, st')"
  shows "distinct (ms_names ev mss) \<and>
         (\<forall>n\<in>set (ms_names ev mss). Milestone_filter_first rel n (db st) = None)"
  using assms(2,3)
proof (induction mss arbitrary: st)
  case Nil
  then show ?case by (simp add: ms_names_def)
next
  case (Cons ms mss)
  then have h: "has_fields [''name'', ''start_date'', ''end_date''] ms"
    and hs: "list_all (has_fields [''name'', ''start_date'', ''end_date'']) mss" by simp_all
  let ?n = "field_str ev ''name'' ms"
  let ?sd = "field_val ''start_date'' ms" and ?ed = "field_val ''end_date'' ms"
  have none: "Milestone_filter_first rel ?n (db st) = None"
  proof (cases "Milestone_filter_first rel ?n (db st)")
    case None
    then show ?thesis .
  next
    case (Some x)
    with Cons.prems(2) assms(1) show ?thesis
      by (simp add: upsert_milestones_step [OF h] del: upsert_milestones.simps)
  qed
  obtain m s1 where c: "Milestone_create ev rel ?n ?sd ?ed (db st) = Inr (m, s1)"
    using Cons.prems(2) none
    by (cases "Milestone_create ev rel ?n ?sd ?ed (db st)")
       (auto simp: upsert_milestones_step [OF h] simp del: upsert_milestones.simps)
  let ?st2 = "logger_info (''Created milestone '' @ quoted (Milestone_str ev s1 m)) (st\<lparr>db := s1\<rparr>)"
  have rec: "upsert_milestones ev a rel mss ?st2 = (Inr u, st')"
    using Cons.prems(2) none c
    by (simp add: upsert_milestones_step [OF h] del: upsert_milestones.simps)
  have rows2: "milestones (db ?st2) = milestones (db st) @ [milestone_row ev (new_milestone rel ?n ?sd ?ed (db st))]"
    using Milestone_create_Inr [OF c] by simp
  from Cons.IH [OF hs rec] have d: "distinct (ms_names ev mss)"
    and nn: "\<forall>n\<in>set (ms_names ev mss). Milestone_filter_first rel n (db ?st2) = None"
    by simp_all
  have notin: "?n \<notin> set (ms_names ev mss)"
  proof
    assume "?n \<in> set (ms_names ev mss)"
    with nn have "Milestone_filter_first rel ?n (db ?st2) = None" by blast
    then show False
      unfolding Milestone_filter_first_None rows2 by simp
  qed
  have old: "\<forall>n\<in>set (ms_names ev mss). Milestone_filter_first rel n (db st) = None"
    using nn unfolding Milestone_filter_first_None rows2 by simp
  show ?case
    using d notin none old by (auto simp: ms_names_def)
qed

lemma upsert_milestones_creates:
  assumes "list_all (has_fields [''name'', ''start_date'', ''end_date'']) mss"
    and "list_all (dates_ok ev) mss"
    and "distinct (ms_names ev mss)"
    and "\<forall>n\<in>set (ms_names ev mss). Milestone_filter_first rel n (db st) = None"
  shows "\<exists>st' rows. upsert_milestones ev a rel mss st = (Inr (), st') \<and>
           plans (db st') = plans (db st) \<and> releases (db st') = releases (db st) \<and>
           milestones (db st') = milestones (db st) @ rows \<and>
           map ms_name rows = ms_names ev mss \<and>
           (\<forall>m\<in>set rows. ms_release m = rel_id rel)"
  using assms
proof (induction mss arbitrary: st)
  case Nil
  then show ?case by (simp add: ms_names_def)
next
  case (Cons ms mss)
  then have h: "has_fields [''name'', ''start_date'', ''end_date''] ms" and dk: "dates_ok ev ms"
    and hs: "list_all (has_fields [''name'', ''start_date'', ''end_date'']) mss"
    and ds: "list_all (dates_ok ev) mss" by simp_all
  let ?n = "field_str ev ''name'' ms"
  let ?m = "new_milestone rel ?n (field_val ''start_date'' ms) (field_val ''end_date'' ms) (db st)"
  let ?s1 = "(db st)\<lparr>milestones := milestones (db st) @ [milestone_row ev ?m]\<rparr>"
  let ?st2 = "logger_info (''Created milestone '' @ quoted (Milestone_str ev ?s1 ?m)) (st\<lparr>db := ?s1\<rparr>)"
  have none: "Milestone_filter_first rel ?n (db st) = None"
    using Cons.prems(4) by (simp add: ms_names_def)
  have d: "distinct (ms_names ev mss)" and notin: "?n \<notin> set (ms_names ev mss)"
    using Cons.prems(3) by (simp_all add: ms_names_def)
  have step: "upsert_milestones ev a rel (ms # mss) st = upsert_milestones ev a rel mss ?st2"
    by (rule upsert_milestones_create_step [OF h dk none])
  have db2: "db ?st2 = ?s1" by simp
  have "\<forall>n\<in>set (ms_names ev mss). Milestone_filter_first rel n (db ?st2) = None"
    using Cons.prems(4) notin unfolding Milestone_filter_first_None db2
    by (auto simp: ms_names_def)
  from Cons.IH [OF hs ds d this] obtain st' rows where
    r: "upsert_milestones ev a rel mss ?st2 = (Inr (), st')"
    and p: "plans (db st') = plans (db ?st2)" "releases (db st') = releases (db ?st2)"
    and m: "milestones (db st') = milestones (db ?st2) @ rows"
    and nm: "map ms_name rows = ms_names ev mss"
    and fk: "\<forall>m\<in>set rows. ms_release m = rel_id rel"
    by blast
  show ?case
  proof (intro exI [of _ st'] exI [of _ "milestone_row ev ?m # rows"] conjI)
    show "upsert_milestones ev a rel (ms # mss) st = (Inr (), st')" using step r by simp
    show "plans (db st') = plans (db st)" using p by simp
    show "releases (db st') = releases (db st)" using p by simp
    show "milestones (db st') = milestones (db st) @ milestone_row ev ?m # rows" using m by simp
    show "map ms_name (milestone_row ev ?m # rows) = ms_names ev (ms # mss)"
      using nm by (simp add: ms_names_def)
    show "\<forall>m\<in>set (milestone_row ev ?m # rows). ms_release m = rel_id rel" using fk by simp
  qed
qed

lemma upsert_milestones_append:
  "upsert_milestones ev a rel (xs @ ys) st =
     (case upsert_milestones ev a rel xs st of
        (Inl e, st') \<Rightarrow> (Inl e, st')
      | (Inr u, st') \<Rightarrow> upsert_milestones ev a rel ys st')"
proof (induction xs arbitrary: st)
  case Nil
  then show ?case by simp
next
  case (Cons x xs)
  show ?case
    by (simp add: Cons.IH Let_def split: sum.splits option.splits prod.splits)
qed

lemma main_transaction:
  assumes "well_formed data" and "doc_field ''release'' data = Some reldata"
    and "doc_milestones reldata = Some mss"
    and "MaintenancePlan_filter_first (field_str ev ''plan'' reldata) (db st) = Some mp"
  shows "main ev a data st =
     (case atomic (transaction_body ev a mp (field_str ev ''plan'' reldata)
                     (field_str ev ''name'' reldata) reldata mss)
                  (logger_setLevel (loglevel a) st) of
        (Inl e, st') \<Rightarrow>
          if e = DryRunRollbackException
          then (SystemExit 0, logger_info ''Dry run; changes not saved'' st')
          else (e, st')
      | (Inr u, st') \<Rightarrow> (SystemExit 0, st'))"
proof -
  have h: "has_fields [''plan'', ''name'', ''start_date'', ''end_date''] reldata"
    using assms(1,2) by (simp add: well_formed_def)
  show ?thesis
    using assms(4)
    by (simp add: main_well_formed [OF assms(1,2,3)] import_release_def has_fields4 [OF h] Let_def
        del: getitem.simps)
qed

lemma main_release_exists:
  assumes "well_formed data" and "doc_field ''release'' data = Some reldata"
    and "MaintenancePlan_filter_first (field_str ev ''plan'' reldata) (db st) = Some mp"
    and "\<exists>r\<in>set (releases (db st)). rel_plan r = plan_id mp \<and> rel_name r = field_str ev ''name'' reldata"
    and "\<not> update a"
  shows "main ev a data st =
           (SystemExit 1,
            st\<lparr>logger_level := loglevel a,
               log_out := log_out st @
                 [(ERROR, ''Release '' @ quoted (field_str ev ''name'' reldata)
                          @ '' already exists for plan '' @ quoted (field_str ev ''plan'' reldata)
                          @ '' (use --update to update it)'')]\<rparr>)"
proof -
  have h: "has_fields [''plan'', ''name'', ''start_date'', ''end_date''] reldata"
    using assms(1,2) by (simp add: well_formed_def)
  obtain mss where mss: "doc_milestones reldata = Some mss"
    using assms(1,2) by (auto simp: well_formed_def split: option.splits)
  let ?st0 = "logger_setLevel (loglevel a) st"
  obtain existing where ex:
    "Release_filter_first mp (field_str ev ''name'' reldata) (db ?st0) = Some existing"
    using Release_filter_first_exists [OF assms(4)] by (auto simp: logger_setLevel_def)
  let ?msg = "''Release '' @ quoted (field_str ev ''name'' reldata)
                @ '' already exists for plan '' @ quoted (field_str ev ''plan'' reldata)
                @ '' (use --update to update it)''"
  have "transaction_body ev a mp (field_str ev ''plan'' reldata) (field_str ev ''name'' reldata)
          reldata mss ?st0 = (Inl (SystemExit 1), logger_error ?msg ?st0)"
    using ex assms(5) by (simp add: transaction_body_def upsert_release_cases [OF h])
  then have "atomic (transaction_body ev a mp (field_str ev ''plan'' reldata)
                 (field_str ev ''name'' reldata) reldata mss) ?st0
               = (Inl (SystemExit 1), (logger_error ?msg ?st0)\<lparr>db := db ?st0\<rparr>)"
    by (rule atomic_cases)
  then show ?thesis
    by (simp add: main_transaction [OF assms(1,2) mss assms(3)] logger_error_emits
        logger_setLevel_def)
qed

lemma fold_max_ge: "x \<in> set ids \<Longrightarrow> x \<le> fold max ids (a::nat)"
proof (induction ids arbitrary: a)
  case Nil
  then show ?case by simp
next
  case (Cons i ids)
  have mono: "b \<le> fold max ids b" for b :: nat
    by (induction ids arbitrary: b) (auto intro: order_trans [OF max.cobounded2])
  show ?case
  proof (cases "x = i")
    case True
    have "i \<le> max i a" by simp
    also have "\<dots> \<le> fold max ids (max i a)" by (rule mono)
    finally show ?thesis using True by simp
  next
    case False
    with Cons show ?thesis by simp
  qed
qed

lemma next_id_fresh: "next_id ids \<notin> set ids"
  using fold_max_ge [of "next_id ids" ids 0] by (auto simp: next_id_def)

lemma import_release_propagates:
  assumes "getitem reldata ''plan'' = Inr p"
    and "MaintenancePlan_filter_first (py_str ev p) (db st0) = Some mp"
    and "getitem reldata ''name'' = Inr n"
    and "transaction_body ev a mp (py_str ev p) (py_str ev n) reldata mss st0 = (Inl e, st')"
    and "e \<noteq> DryRunRollbackException"
  shows "import_release ev a reldata mss st0 = (e, st'\<lparr>db := db st0\<rparr>)"
proof -
  have "atomic (transaction_body ev a mp (py_str ev p) (py_str ev n) reldata mss) st0
          = (Inl e, st'\<lparr>db := db st0\<rparr>)"
    using assms(4) by (rule atomic_cases)
  with assms(1,2,3,5) show ?thesis
    by (simp add: import_release_def Let_def)
qed

lemma logger_error_last:
  "log_out (logger_error m st) \<noteq> [] \<and> last (log_out (logger_error m st)) = (ERROR, m)"
  by (simp add: logger_error_emits)


lemma upsert_release_create:
  assumes "has_fields [''plan'', ''name'', ''start_date'', ''end_date''] reldata"
    and "dates_ok ev reldata" and "Release_filter_first mp rn (db st) = None"
  shows "upsert_release ev a mp pn rn reldata st =
     (Inr (new_release mp rn (field_val ''start_date'' reldata) (field_val ''end_date'' reldata) (db st)),
      logger_info (''Created release ''
          @ quoted (Release_str ev
              ((db st)\<lparr>releases := releases (db st) @
                 [release_row ev (new_release mp rn (field_val ''start_date'' reldata)
                    (field_val ''end_date'' reldata) (db st))]\<rparr>)
              (new_release mp rn (field_val ''start_date'' reldata)
                 (field_val ''end_date'' reldata) (db st))))
        (st\<lparr>db := (db st)\<lparr>releases := releases (db st) @
                 [release_row ev (new_release mp rn (field_val ''start_date'' reldata)
                    (field_val ''end_date'' reldata) (db st))]\<rparr>\<rparr>))"
  using assms(2,3)
  by (simp add: upsert_release_cases [OF assms(1)] dates_ok_def Release_create_ok)

lemma upsert_release_update:
  assumes "has_fields [''plan'', ''name'', ''start_date'', ''end_date''] reldata"
    and "dates_ok ev reldata" and "Release_filter_first mp rn (db st) = Some ex" and "update a"
  shows "upsert_release ev a mp pn rn reldata st =
     (Inr (ex\<lparr>rel_start_date := field_val ''start_date'' reldata,
              rel_end_date := field_val ''end_date'' reldata\<rparr>),
      logger_info (''Updated release ''
          @ quoted (Release_str ev
              ((db st)\<lparr>releases :=
                  map (\<lambda>x. if rel_id x = rel_id ex
                       then release_row ev (ex\<lparr>rel_start_date := field_val ''start_date'' reldata,
                                               rel_end_date := field_val ''end_date'' reldata\<rparr>)
                       else x) (releases (db st))\<rparr>)
              (ex\<lparr>rel_start_date := field_val ''start_date'' reldata,
                  rel_end_date := field_val ''end_date'' reldata\<rparr>)))
        (st\<lparr>db := (db st)\<lparr>releases :=
                  map (\<lambda>x. if rel_id x = rel_id ex
                       then release_row ev (ex\<lparr>rel_start_date := field_val ''start_date'' reldata,
                                               rel_end_date := field_val ''end_date'' reldata\<rparr>)
                       else x) (releases (db st))\<rparr>\<rparr>))"
proof -
  have "ex \<in> set (releases (db st))"
    using Release_filter_first_Some [OF assms(3)] by simp
  then have "rel_id ex \<in> rel_id ` set (releases (db st))" by (rule imageI)
  then show ?thesis
    using assms(2,3,4)
    by (simp add: upsert_release_cases [OF assms(1)] dates_ok_def Release_save_ok)
qed

lemma upsert_release_Inr:
  assumes "has_fields [''plan'', ''name'', ''start_date'', ''end_date''] reldata"
    and "dates_ok ev reldata"
    and "update a \<or> Release_filter_first mp rn (db st) = None"
  shows "\<exists>rel st1. upsert_release ev a mp pn rn reldata st = (Inr rel, st1)"
proof (cases "Release_filter_first mp rn (db st)")
  case None
  show ?thesis unfolding upsert_release_create [OF assms(1,2) None] by blast
next
  case (Some ex)
  with assms(3) have "update a" by simp
  show ?thesis unfolding upsert_release_update [OF assms(1,2) Some \<open>update a\<close>] by blast
qed

lemma fresh_release_has_no_milestone:
  assumes "store_ok s"
  shows "\<forall>m\<in>set (milestones s). ms_release m \<noteq> next_id (map rel_id (releases s))"
proof -
  have fk: "\<forall>m\<in>set (milestones s). ms_release m \<in> set (map rel_id (releases s))"
    using assms by (simp add: store_ok_def list_all_iff)
  show ?thesis
    using fk next_id_fresh [of "map rel_id (releases s)"] by metis
qed


lemma main_milestone_conflict:
  assumes "well_formed data" and "doc_field ''release'' data = Some reldata"
    and "doc_milestones reldata = Some (pre @ ms # post)"
    and "MaintenancePlan_filter_first (field_str ev ''plan'' reldata) (db st) = Some mp"
    and "\<not> (\<exists>r\<in>set (releases (db st)). rel_plan r = plan_id mp \<and>
              rel_name r = field_str ev ''name'' reldata)"
    and "\<not> update a"
    and "store_ok (db st)" and "dates_ok ev reldata" and "list_all (dates_ok ev) pre"
    and "distinct (ms_names ev pre)" and "field_str ev ''name'' ms \<in> set (ms_names ev pre)"
  shows "\<exists>st' rows. main ev a data st = (SystemExit 1, st') \<and> db st' = db st \<and>
           map ms_name rows = ms_names ev pre \<and>
           (\<forall>m\<in>set rows. ms_release m = next_id (map rel_id (releases (db st)))) \<and>
           log_out st' \<noteq> [] \<and>
           last (log_out st') =
             (ERROR, ''Milestone '' @ quoted (field_str ev ''name'' ms)
                     @ '' already exists for release ''
                     @ quoted (Release_str ev
                         ((db st)\<lparr>releases := releases (db st) @
                              [release_row ev (new_release mp (field_str ev ''name'' reldata)
                                 (field_val ''start_date'' reldata)
                                 (field_val ''end_date'' reldata) (db st))],
                            milestones := milestones (db st) @ rows\<rparr>)
                         (new_release mp (field_str ev ''name'' reldata)
                            (field_val ''start_date'' reldata)
                            (field_val ''end_date'' reldata) (db st)))
                     @ '' (use --update to update it)'')"
proof -
  have h: "has_fields [''plan'', ''name'', ''start_date'', ''end_date''] reldata"
    and hall: "list_all (has_fields [''name'', ''start_date'', ''end_date'']) (pre @ ms # post)"
    using assms(1,2,3) by (simp_all add: well_formed_def)
  from hall have hpre: "list_all (has_fields [''name'', ''start_date'', ''end_date'']) pre"
    and hms: "has_fields [''name'', ''start_date'', ''end_date''] ms" by simp_all
  let ?st0 = "logger_setLevel (loglevel a) st"
  let ?pn = "field_str ev ''plan'' reldata"
  let ?rn = "field_str ev ''name'' reldata"
  let ?rel = "new_release mp ?rn (field_val ''start_date'' reldata)
                (field_val ''end_date'' reldata) (db st)"
  let ?s1 = "(db st)\<lparr>releases := releases (db st) @ [release_row ev ?rel]\<rparr>"
  let ?st1 = "logger_info (''Created release '' @ quoted (Release_str ev ?s1 ?rel)) (?st0\<lparr>db := ?s1\<rparr>)"
  have d0: "db ?st0 = db st" by simp
  have none: "Release_filter_first mp ?rn (db ?st0) = None"
    using assms(5) by (simp add: Release_filter_first_None)
  have ur: "upsert_release ev a mp ?pn ?rn reldata ?st0 = (Inr ?rel, ?st1)"
    using upsert_release_create [OF h assms(8) none, of a ?pn] by (simp add: d0)
  have db1: "db ?st1 = ?s1" by simp
  have fresh: "\<forall>m\<in>set (milestones (db st)). ms_release m \<noteq> rel_id ?rel"
    using fresh_release_has_no_milestone [OF assms(7)] by simp
  have "\<forall>n\<in>set (ms_names ev pre). Milestone_filter_first ?rel n (db ?st1) = None"
    unfolding Milestone_filter_first_None db1 using fresh by simp
  from upsert_milestones_creates [OF hpre assms(9,10) this, of a]
  obtain st2 rows where
    um: "upsert_milestones ev a ?rel pre ?st1 = (Inr (), st2)"
    and p2: "plans (db st2) = plans (db ?st1)" and r2: "releases (db st2) = releases (db ?st1)"
    and m2: "milestones (db st2) = milestones (db ?st1) @ rows"
    and nm: "map ms_name rows = ms_names ev pre"
    and fk: "\<forall>m\<in>set rows. ms_release m = rel_id ?rel"
    by blast
  have db2: "db st2 = (db st)\<lparr>releases := releases (db st) @ [release_row ev ?rel],
                            milestones := milestones (db st) @ rows\<rparr>"
    using p2 r2 m2 by (intro store.equality) simp_all
  let ?n = "field_str ev ''name'' ms"
  have "?n \<in> set (map ms_name rows)" using assms(11) nm by simp
  then obtain row where "row \<in> set rows" "ms_name row = ?n" by auto
  then have "\<exists>m\<in>set (milestones (db st2)). ms_release m = rel_id ?rel \<and> ms_name m = ?n"
    using fk m2 by auto
  then have "Milestone_filter_first ?rel ?n (db st2) \<noteq> None"
    unfolding Milestone_filter_first_None by blast
  then obtain ex where ex: "Milestone_filter_first ?rel ?n (db st2) = Some ex" by blast
  let ?msg = "''Milestone '' @ quoted ?n @ '' already exists for release ''
                @ quoted (Release_str ev (db st2) ?rel) @ '' (use --update to update it)''"
  have stp: "upsert_milestones ev a ?rel (ms # post) st2 = (Inl (SystemExit 1), logger_error ?msg st2)"
    using ex assms(6) by (simp add: upsert_milestones_step [OF hms] del: upsert_milestones.simps)
  have all: "upsert_milestones ev a ?rel (pre @ ms # post) ?st1 = (Inl (SystemExit 1), logger_error ?msg st2)"
    unfolding upsert_milestones_append um using stp by simp
  have tb: "transaction_body ev a mp ?pn ?rn reldata (pre @ ms # post) ?st0
              = (Inl (SystemExit 1), logger_error ?msg st2)"
    using ur all by (simp add: transaction_body_def)
  have "atomic (transaction_body ev a mp ?pn ?rn reldata (pre @ ms # post)) ?st0
          = (Inl (SystemExit 1), (logger_error ?msg st2)\<lparr>db := db ?st0\<rparr>)"
    using tb by (rule atomic_cases)
  then have m: "main ev a data st = (SystemExit 1, (logger_error ?msg st2)\<lparr>db := db ?st0\<rparr>)"
    by (simp add: main_transaction [OF assms(1,2,3,4)])
  show ?thesis
  proof (intro exI [of _ "(logger_error ?msg st2)\<lparr>db := db ?st0\<rparr>"] exI [of _ rows] conjI)
    show "main ev a data st = (SystemExit 1, (logger_error ?msg st2)\<lparr>db := db ?st0\<rparr>)" by (rule m)
    show "db ((logger_error ?msg st2)\<lparr>db := db ?st0\<rparr>) = db st" by simp
    show "map ms_name rows = ms_names ev pre" by (rule nm)
    show "\<forall>m\<in>set rows. ms_release m = next_id (map rel_id (releases (db st)))"
      using fk by simp
    show "log_out ((logger_error ?msg st2)\<lparr>db := db ?st0\<rparr>) \<noteq> []"
      using logger_error_last [of ?msg st2] by simp
    show "last (log_out ((logger_error ?msg st2)\<lparr>db := db ?st0\<rparr>)) =
             (ERROR, ''Milestone '' @ quoted ?n @ '' already exists for release ''
                     @ quoted (Release_str ev
                         ((db st)\<lparr>releases := releases (db st) @ [release_row ev ?rel],
                            milestones := milestones (db st) @ rows\<rparr>) ?rel)
                     @ '' (use --update to update it)'')"
      using logger_error_last [of ?msg st2] unfolding db2 by simp
  qed
qed

lemma main_dry_run_exit_0:
  assumes "well_formed data" and "doc_field ''release'' data = Some reldata"
    and "doc_milestones reldata = Some mss"
    and "MaintenancePlan_filter_first (field_str ev ''plan'' reldata) (db st) = Some mp"
    and "dry_run a"
    and "dates_ok ev reldata" and "list_all (dates_ok ev) mss"
    and "update a \<or>
         (\<not> (\<exists>r\<in>set (releases (db st)). rel_plan r = plan_id mp \<and>
                 rel_name r = field_str ev ''name'' reldata) \<and>
          distinct (ms_names ev mss) \<and> store_ok (db st))"
  shows "fst (main ev a data st) = SystemExit 0"
proof -
  have h: "has_fields [''plan'', ''name'', ''start_date'', ''end_date''] reldata"
    and hs: "list_all (has_fields [''name'', ''start_date'', ''end_date'']) mss"
    using assms(1,2,3) by (simp_all add: well_formed_def)
  let ?st0 = "logger_setLevel (loglevel a) st"
  let ?pn = "field_str ev ''plan'' reldata"
  let ?rn = "field_str ev ''name'' reldata"
  have "\<exists>rel st1 st2. upsert_release ev a mp ?pn ?rn reldata ?st0 = (Inr rel, st1) \<and>
          upsert_milestones ev a rel mss st1 = (Inr (), st2)"
  proof (cases "update a")
    case True
    then obtain rel st1 where "upsert_release ev a mp ?pn ?rn reldata ?st0 = (Inr rel, st1)"
      using upsert_release_Inr [OF h assms(6)] by blast
    with upsert_milestones_update_ok [OF hs assms(7) True] show ?thesis by blast
  next
    case False
    with assms(8) have nr: "\<not> (\<exists>r\<in>set (releases (db st)). rel_plan r = plan_id mp \<and> rel_name r = ?rn)"
      and d: "distinct (ms_names ev mss)" and ok: "store_ok (db st)" by blast+
    let ?rel = "new_release mp ?rn (field_val ''start_date'' reldata)
                  (field_val ''end_date'' reldata) (db st)"
    let ?s1 = "(db st)\<lparr>releases := releases (db st) @ [release_row ev ?rel]\<rparr>"
    let ?st1 = "logger_info (''Created release '' @ quoted (Release_str ev ?s1 ?rel)) (?st0\<lparr>db := ?s1\<rparr>)"
    have d0: "db ?st0 = db st" by simp
    have none: "Release_filter_first mp ?rn (db ?st0) = None"
      using nr by (simp add: Release_filter_first_None)
    have ur: "upsert_release ev a mp ?pn ?rn reldata ?st0 = (Inr ?rel, ?st1)"
      using upsert_release_create [OF h assms(6) none, of a ?pn] by (simp add: d0)
    have db1: "db ?st1 = ?s1" by simp
    have fresh: "\<forall>m\<in>set (milestones (db st)). ms_release m \<noteq> rel_id ?rel"
      using fresh_release_has_no_milestone [OF ok] by simp
    have "\<forall>n\<in>set (ms_names ev mss). Milestone_filter_first ?rel n (db ?st1) = None"
      unfolding Milestone_filter_first_None db1 using fresh by simp
    from upsert_milestones_creates [OF hs assms(7) d this, of a] ur show ?thesis by blast
  qed
  then obtain rel st1 st2 where "upsert_release ev a mp ?pn ?rn reldata ?st0 = (Inr rel, st1)"
    "upsert_milestones ev a rel mss st1 = (Inr (), st2)" by blast
  then have tb: "transaction_body ev a mp ?pn ?rn reldata mss ?st0 = (Inl DryRunRollbackException, st2)"
    using assms(5) by (simp add: transaction_body_def)
  have "atomic (transaction_body ev a mp ?pn ?rn reldata mss) ?st0
          = (Inl DryRunRollbackException, st2\<lparr>db := db ?st0\<rparr>)"
    using tb by (rule atomic_cases)
  then show ?thesis
    by (simp add: main_transaction [OF assms(1,2,3,4)])
qed

lemma transaction_body_sentinel:
  assumes "transaction_body ev a mp pn rn rd mss st = (Inl DryRunRollbackException, st')"
  shows "\<exists>rel st1. upsert_release ev a mp pn rn rd st = (Inr rel, st1) \<and>
           upsert_milestones ev a rel mss st1 = (Inr (), st')"
proof -
  obtain r1 st1 where u: "upsert_release ev a mp pn rn rd st = (r1, st1)"
    by (cases "upsert_release ev a mp pn rn rd st")
  show ?thesis
  proof (cases r1)
    case (Inl e)
    with u assms upsert_release_raises [of ev a mp pn rn rd st e st1] show ?thesis
      by (simp add: transaction_body_def)
  next
    case (Inr rel)
    obtain r2 st2 where m: "upsert_milestones ev a rel mss st1 = (r2, st2)"
      by (cases "upsert_milestones ev a rel mss st1")
    show ?thesis
    proof (cases r2)
      case (Inl e)
      with u Inr m assms upsert_milestones_raises [of ev a rel mss st1 e st2] show ?thesis
        by (simp add: transaction_body_def)
    next
      case r2: (Inr x)
      with u Inr m assms show ?thesis
        by (simp add: transaction_body_def split: if_splits)
    qed
  qed
qed

lemma main_duplicate_names:
  assumes "well_formed data" and "doc_field ''release'' data = Some reldata"
    and "doc_milestones reldata = Some mss"
    and "MaintenancePlan_filter_first (field_str ev ''plan'' reldata) (db st) = Some mp"
    and "\<not> update a" and "\<not> distinct (ms_names ev mss)"
  shows "exit_status (fst (main ev a data st)) = 1 \<and>
         (dates_ok ev reldata \<and> list_all (dates_ok ev) mss
            \<longrightarrow> fst (main ev a data st) = SystemExit 1)"
proof -
  have h: "has_fields [''plan'', ''name'', ''start_date'', ''end_date''] reldata"
    and hs: "list_all (has_fields [''name'', ''start_date'', ''end_date'']) mss"
    using assms(1,2,3) by (simp_all add: well_formed_def)
  let ?st0 = "logger_setLevel (loglevel a) st"
  let ?pn = "field_str ev ''plan'' reldata"
  let ?rn = "field_str ev ''name'' reldata"
  have "\<exists>e st2. transaction_body ev a mp ?pn ?rn reldata mss ?st0 = (Inl e, st2) \<and>
          e \<noteq> DryRunRollbackException \<and> exit_status e = 1 \<and>
          (dates_ok ev reldata \<and> list_all (dates_ok ev) mss \<longrightarrow> e = SystemExit 1)"
  proof -
    obtain r1 st1 where u: "upsert_release ev a mp ?pn ?rn reldata ?st0 = (r1, st1)"
      by (cases "upsert_release ev a mp ?pn ?rn reldata ?st0")
    show ?thesis
    proof (cases r1)
      case (Inl e)
      have "dates_ok ev reldata \<longrightarrow> e = SystemExit 1"
      proof
        assume dk: "dates_ok ev reldata"
        show "e = SystemExit 1"
        proof (cases "Release_filter_first mp ?rn (db ?st0)")
          case None
          with u Inl upsert_release_create [OF h dk None, of a ?pn] show ?thesis by simp
        next
          case (Some ex)
          with u Inl assms(5) show ?thesis by (simp add: upsert_release_cases [OF h])
        qed
      qed
      with u Inl upsert_release_raises [of ev a mp ?pn ?rn reldata ?st0 e st1] show ?thesis
        by (simp add: transaction_body_def)
    next
      case (Inr rel)
      obtain r2 st2 where m: "upsert_milestones ev a rel mss st1 = (r2, st2)"
        by (cases "upsert_milestones ev a rel mss st1")
      show ?thesis
      proof (cases r2)
        case (Inl e)
        have "list_all (dates_ok ev) mss \<longrightarrow> e = SystemExit 1"
          using upsert_milestones_Inl [OF hs _ m [unfolded Inl]] by blast
        with u Inr m Inl upsert_milestones_raises [of ev a rel mss st1 e st2] show ?thesis
          by (simp add: transaction_body_def)
      next
        case r2: (Inr x)
        with m upsert_milestones_no_update_Inr [OF assms(5) hs, of ev rel st1 x st2] assms(6)
        show ?thesis by simp
      qed
    qed
  qed
  then obtain e st2 where tb: "transaction_body ev a mp ?pn ?rn reldata mss ?st0 = (Inl e, st2)"
    and e: "e \<noteq> DryRunRollbackException" "exit_status e = 1"
      "dates_ok ev reldata \<and> list_all (dates_ok ev) mss \<longrightarrow> e = SystemExit 1"
    by blast
  have "atomic (transaction_body ev a mp ?pn ?rn reldata mss) ?st0 = (Inl e, st2\<lparr>db := db ?st0\<rparr>)"
    using tb by (rule atomic_cases)
  then have "main ev a data st = (e, st2\<lparr>db := db ?st0\<rparr>)"
    using e(1) by (simp add: main_transaction [OF assms(1,2,3,4)])
  with e show ?thesis by simp
qed


text \<open>
  Claim C1. Under the dry-run flag the store after the run is the store before it,
  whatever the input. For a well-formed document with valid dates whose plan exists and
  that meets no conflict (the update flag is set, or the release is not in the store,
  the milestone names differ and the store keeps its integrity constraints) the run
  ends with exit code 0. The \<open>except\<close> clause handles \<open>DryRunRollbackException\<close>
  only: any other exception that leaves the transaction block ends the run, with the
  store rolled back.
\<close>

theorem main_dry_run:
  assumes "dry_run a"
  shows "db (snd (main ev a data st)) = db st \<and>
         (well_formed data \<and> doc_field ''release'' data = Some reldata \<and>
          doc_milestones reldata = Some mss \<and>
          dates_ok ev reldata \<and> list_all (dates_ok ev) mss \<and>
          MaintenancePlan_filter_first (field_str ev ''plan'' reldata) (db st) = Some mp \<and>
          (update a \<or>
           (\<not> (\<exists>r\<in>set (releases (db st)). rel_plan r = plan_id mp \<and>
                   rel_name r = field_str ev ''name'' reldata) \<and>
            distinct (ms_names ev mss) \<and> store_ok (db st)))
          \<longrightarrow> fst (main ev a data st) = SystemExit 0) \<and>
         (\<forall>rd ms0 st0 p n mp0 e st'.
            getitem rd ''plan'' = Inr p \<and>
            MaintenancePlan_filter_first (py_str ev p) (db st0) = Some mp0 \<and>
            getitem rd ''name'' = Inr n \<and>
            transaction_body ev a mp0 (py_str ev p) (py_str ev n) rd ms0 st0 = (Inl e, st') \<and>
            e \<noteq> DryRunRollbackException
            \<longrightarrow> import_release ev a rd ms0 st0 = (e, st'\<lparr>db := db st0\<rparr>))"
proof (intro conjI)
  show "db (snd (main ev a data st)) = db st"
    using main_db [of ev a data st] assms by blast
  show "well_formed data \<and> doc_field ''release'' data = Some reldata \<and>
          doc_milestones reldata = Some mss \<and>
          dates_ok ev reldata \<and> list_all (dates_ok ev) mss \<and>
          MaintenancePlan_filter_first (field_str ev ''plan'' reldata) (db st) = Some mp \<and>
          (update a \<or>
           (\<not> (\<exists>r\<in>set (releases (db st)). rel_plan r = plan_id mp \<and>
                   rel_name r = field_str ev ''name'' reldata) \<and>
            distinct (ms_names ev mss) \<and> store_ok (db st)))
          \<longrightarrow> fst (main ev a data st) = SystemExit 0"
    using main_dry_run_exit_0 [of data reldata mss ev st mp a] assms by blast
  show "\<forall>rd ms0 st0 p n mp0 e st'.
            getitem rd ''plan'' = Inr p \<and>
            MaintenancePlan_filter_first (py_str ev p) (db st0) = Some mp0 \<and>
            getitem rd ''name'' = Inr n \<and>
            transaction_body ev a mp0 (py_str ev p) (py_str ev n) rd ms0 st0 = (Inl e, st') \<and>
            e \<noteq> DryRunRollbackException
            \<longrightarrow> import_release ev a rd ms0 st0 = (e, st'\<lparr>db := db st0\<rparr>)"
    using import_release_propagates by blast
qed

text \<open>
  The example document under \<open>--dry-run\<close> against the store that has the plan and
  nothing else: exit code 0, the store as before. The document whose start date is the
  text \<open>soon\<close> ends with the \<open>ValidationError\<close> of the insert, and the document
  whose milestone entry is a list with the \<open>TypeError\<close> of \<open>ms['name']\<close>: neither is
  caught, and the store is as before.
\<close>

theorem main_dry_run_witness:
  "dry_run (example_args\<lparr>dry_run := True\<rparr>) \<and>
   well_formed example_doc \<and>
   doc_field ''release'' example_doc = Some example_release \<and>
   doc_milestones example_release = Some example_milestones \<and>
   dates_ok example_env example_release \<and> list_all (dates_ok example_env) example_milestones \<and>
   MaintenancePlan_filter_first (field_str example_env ''plan'' example_release) (db example_state)
     = Some \<lparr>plan_id = 1, plan_name = ''OE-Core''\<rparr> \<and>
   distinct (ms_names example_env example_milestones) \<and> store_ok (db example_state) \<and>
   fst (main example_env (example_args\<lparr>dry_run := True\<rparr>) example_doc example_state) = SystemExit 0 \<and>
   db (snd (main example_env (example_args\<lparr>dry_run := True\<rparr>) example_doc example_state))
     = db example_state \<and>
   main example_env (example_args\<lparr>dry_run := True\<rparr>) example_doc_bad_date example_state
     = (ValidationError, example_state\<lparr>logger_level := INFO\<rparr>) \<and>
   fst (main example_env (example_args\<lparr>dry_run := True\<rparr>) example_doc_list_entry example_state)
     = TypeError"
proof -
  have d: "dry_run (example_args\<lparr>dry_run := True\<rparr>)" by (simp add: example_args_def)
  note t = main_dry_run [OF d, of example_env example_doc example_state example_release
      example_milestones "\<lparr>plan_id = 1, plan_name = ''OE-Core''\<rparr>"]
  have hyp: "well_formed example_doc \<and>
     doc_field ''release'' example_doc = Some example_release \<and>
     doc_milestones example_release = Some example_milestones \<and>
     dates_ok example_env example_release \<and> list_all (dates_ok example_env) example_milestones \<and>
     MaintenancePlan_filter_first (field_str example_env ''plan'' example_release) (db example_state)
       = Some \<lparr>plan_id = 1, plan_name = ''OE-Core''\<rparr> \<and>
     distinct (ms_names example_env example_milestones) \<and> store_ok (db example_state)"
    by (simp add: eval_defs)
  have nr: "\<not> (\<exists>r\<in>set (releases (db example_state)).
              rel_plan r = plan_id \<lparr>plan_id = 1, plan_name = ''OE-Core''\<rparr> \<and>
              rel_name r = field_str example_env ''name'' example_release)"
    by (simp add: example_defs)
  have 1: "db (snd (main example_env (example_args\<lparr>dry_run := True\<rparr>) example_doc example_state))
             = db example_state"
    using t by blast
  have 2: "fst (main example_env (example_args\<lparr>dry_run := True\<rparr>) example_doc example_state)
             = SystemExit 0"
    using t hyp nr by blast
  have 3: "main example_env (example_args\<lparr>dry_run := True\<rparr>) example_doc_bad_date example_state
             = (ValidationError, example_state\<lparr>logger_level := INFO\<rparr>)"
    by (simp add: eval_defs)
  have 4: "fst (main example_env (example_args\<lparr>dry_run := True\<rparr>) example_doc_list_entry example_state)
             = TypeError"
    by (simp add: eval_defs)
  show ?thesis using d hyp 1 2 3 4 by blast
qed


text \<open>
  Claim C2. Without the update flag, for a well-formed document whose plan exists:
  when the store holds the release (plan, name) of the document (as it does whenever it
  holds a milestone of that release), the run ends with exit code 1, its one new log
  record is the error that names the release and the plan, and the final state differs
  from the initial one in the logger only, the store being the same. When the release is
  new and has valid dates, the milestone entries \<open>pre\<close> have valid dates and names that
  differ, and the next entry \<open>ms\<close> repeats one of these names, then the lookup for
  \<open>ms\<close> finds the milestone created for that earlier entry: the run ends with exit
  code 1, the store is the one before the run, and the last log record is the error that
  names \<open>ms\<close> and the release just created, printed against the store that holds the
  new release and one new milestone of that release for each entry of \<open>pre\<close>.
\<close>

theorem main_conflict_without_update:
  assumes "well_formed data" and "doc_field ''release'' data = Some reldata"
    and "doc_milestones reldata = Some mss"
    and "MaintenancePlan_filter_first (field_str ev ''plan'' reldata) (db st) = Some mp"
    and "\<not> update a"
  shows "((\<exists>r\<in>set (releases (db st)). rel_plan r = plan_id mp \<and>
              rel_name r = field_str ev ''name'' reldata)
          \<longrightarrow> main ev a data st =
                (SystemExit 1,
                 st\<lparr>logger_level := loglevel a,
                    log_out := log_out st @
                      [(ERROR, ''Release '' @ quoted (field_str ev ''name'' reldata)
                               @ '' already exists for plan ''
                               @ quoted (field_str ev ''plan'' reldata)
                               @ '' (use --update to update it)'')]\<rparr>)) \<and>
         (\<not> (\<exists>r\<in>set (releases (db st)). rel_plan r = plan_id mp \<and>
                 rel_name r = field_str ev ''name'' reldata) \<and>
          store_ok (db st) \<and> dates_ok ev reldata \<and>
          mss = pre @ ms # post \<and> list_all (dates_ok ev) pre \<and>
          distinct (ms_names ev pre) \<and> field_str ev ''name'' ms \<in> set (ms_names ev pre)
          \<longrightarrow> (\<exists>st' rows.
                 main ev a data st = (SystemExit 1, st') \<and> db st' = db st \<and>
                 map ms_name rows = ms_names ev pre \<and>
                 (\<forall>m\<in>set rows. ms_release m = next_id (map rel_id (releases (db st)))) \<and>
                 log_out st' \<noteq> [] \<and>
                 last (log_out st') =
                   (ERROR, ''Milestone '' @ quoted (field_str ev ''name'' ms)
                           @ '' already exists for release ''
                           @ quoted (Release_str ev
                               ((db st)\<lparr>releases := releases (db st) @
                                    [release_row ev (new_release mp (field_str ev ''name'' reldata)
                                       (field_val ''start_date'' reldata)
                                       (field_val ''end_date'' reldata) (db st))],
                                  milestones := milestones (db st) @ rows\<rparr>)
                               (new_release mp (field_str ev ''name'' reldata)
                                  (field_val ''start_date'' reldata)
                                  (field_val ''end_date'' reldata) (db st)))
                           @ '' (use --update to update it)'')))"
proof (intro conjI impI)
  assume "\<exists>r\<in>set (releases (db st)). rel_plan r = plan_id mp \<and>
             rel_name r = field_str ev ''name'' reldata"
  from main_release_exists [OF assms(1,2,4) this assms(5)]
  show "main ev a data st =
          (SystemExit 1,
           st\<lparr>logger_level := loglevel a,
              log_out := log_out st @
                [(ERROR, ''Release '' @ quoted (field_str ev ''name'' reldata)
                         @ '' already exists for plan ''
                         @ quoted (field_str ev ''plan'' reldata)
                         @ '' (use --update to update it)'')]\<rparr>)" .
next
  assume c: "\<not> (\<exists>r\<in>set (releases (db st)). rel_plan r = plan_id mp \<and>
                 rel_name r = field_str ev ''name'' reldata) \<and>
          store_ok (db st) \<and> dates_ok ev reldata \<and>
          mss = pre @ ms # post \<and> list_all (dates_ok ev) pre \<and>
          distinct (ms_names ev pre) \<and> field_str ev ''name'' ms \<in> set (ms_names ev pre)"
  then have m: "doc_milestones reldata = Some (pre @ ms # post)" using assms(3) by simp
  from c have c1: "\<not> (\<exists>r\<in>set (releases (db st)). rel_plan r = plan_id mp \<and>
                 rel_name r = field_str ev ''name'' reldata)"
    and c2: "store_ok (db st)" and c3: "dates_ok ev reldata" and c4: "list_all (dates_ok ev) pre"
    and c5: "distinct (ms_names ev pre)" and c6: "field_str ev ''name'' ms \<in> set (ms_names ev pre)"
    by simp_all
  from main_milestone_conflict [OF assms(1,2) m assms(4) c1 assms(5) c2 c3 c4 c5 c6]
  show "\<exists>st' rows.
                 main ev a data st = (SystemExit 1, st') \<and> db st' = db st \<and>
                 map ms_name rows = ms_names ev pre \<and>
                 (\<forall>m\<in>set rows. ms_release m = next_id (map rel_id (releases (db st)))) \<and>
                 log_out st' \<noteq> [] \<and>
                 last (log_out st') =
                   (ERROR, ''Milestone '' @ quoted (field_str ev ''name'' ms)
                           @ '' already exists for release ''
                           @ quoted (Release_str ev
                               ((db st)\<lparr>releases := releases (db st) @
                                    [release_row ev (new_release mp (field_str ev ''name'' reldata)
                                       (field_val ''start_date'' reldata)
                                       (field_val ''end_date'' reldata) (db st))],
                                  milestones := milestones (db st) @ rows\<rparr>)
                               (new_release mp (field_str ev ''name'' reldata)
                                  (field_val ''start_date'' reldata)
                                  (field_val ''end_date'' reldata) (db st)))
                           @ '' (use --update to update it)'')" .
qed

text \<open>
  Importing the example a second time without \<open>--update\<close>: the error names the
  release. Importing the document whose third milestone entry repeats the name M1 into
  the store that has the plan only: the release and the milestones M1 and M2 are
  created, the error names the milestone M1 and the release 5.1, and nothing is kept.
\<close>

theorem main_conflict_without_update_witness:
  "well_formed example_doc \<and>
   doc_field ''release'' example_doc = Some example_release \<and>
   doc_milestones example_release = Some example_milestones \<and>
   MaintenancePlan_filter_first (field_str example_env ''plan'' example_release)
       (db (example_state\<lparr>db := example_store_imported\<rparr>))
     = Some \<lparr>plan_id = 1, plan_name = ''OE-Core''\<rparr> \<and>
   \<not> update example_args \<and>
   (\<exists>r\<in>set (releases (db (example_state\<lparr>db := example_store_imported\<rparr>))).
       rel_plan r = plan_id \<lparr>plan_id = 1, plan_name = ''OE-Core''\<rparr> \<and>
       rel_name r = field_str example_env ''name'' example_release) \<and>
   main example_env example_args example_doc (example_state\<lparr>db := example_store_imported\<rparr>) =
     (SystemExit 1,
      example_state\<lparr>db := example_store_imported, logger_level := INFO,
         log_out := [(ERROR, ''Release '' @ quoted ''5.1'' @ '' already exists for plan ''
                             @ quoted ''OE-Core'' @ '' (use --update to update it)'')]\<rparr>) \<and>
   well_formed example_doc_repeated \<and>
   store_ok (db example_state) \<and>
   last (log_out (snd (main example_env example_args example_doc_repeated example_state))) =
     (ERROR, ''Milestone '' @ quoted ''M1'' @ '' already exists for release '' @ quoted ''5.1''
             @ '' (use --update to update it)'') \<and>
   main example_env example_args example_doc_repeated example_state =
     (SystemExit 1,
      example_state\<lparr>logger_level := INFO,
         log_out := [(INFO, ''Created release '' @ quoted ''5.1''),
                     (INFO, ''Created milestone '' @ quoted ''M1''),
                     (INFO, ''Created milestone '' @ quoted ''M2''),
                     (ERROR, ''Milestone '' @ quoted ''M1'' @ '' already exists for release ''
                             @ quoted ''5.1'' @ '' (use --update to update it)'')]\<rparr>)"
proof -
  have hyp: "well_formed example_doc \<and>
     doc_field ''release'' example_doc = Some example_release \<and>
     doc_milestones example_release = Some example_milestones \<and>
     MaintenancePlan_filter_first (field_str example_env ''plan'' example_release)
         (db (example_state\<lparr>db := example_store_imported\<rparr>))
       = Some \<lparr>plan_id = 1, plan_name = ''OE-Core''\<rparr> \<and>
     \<not> update example_args"
    by (simp add: eval_defs)
  have ex: "\<exists>r\<in>set (releases (db (example_state\<lparr>db := example_store_imported\<rparr>))).
       rel_plan r = plan_id \<lparr>plan_id = 1, plan_name = ''OE-Core''\<rparr> \<and>
       rel_name r = field_str example_env ''name'' example_release"
    by (simp add: example_defs field_str_def doc_field_def)
  note t = main_conflict_without_update [of example_doc example_release example_milestones
      example_env "example_state\<lparr>db := example_store_imported\<rparr>"
      "\<lparr>plan_id = 1, plan_name = ''OE-Core''\<rparr>" example_args]
  have "main example_env example_args example_doc (example_state\<lparr>db := example_store_imported\<rparr>) =
     (SystemExit 1,
      (example_state\<lparr>db := example_store_imported\<rparr>)\<lparr>logger_level := loglevel example_args,
         log_out := log_out (example_state\<lparr>db := example_store_imported\<rparr>) @
           [(ERROR, ''Release '' @ quoted (field_str example_env ''name'' example_release)
                    @ '' already exists for plan ''
                    @ quoted (field_str example_env ''plan'' example_release)
                    @ '' (use --update to update it)'')]\<rparr>)"
    using t hyp ex by blast
  then have 1: "main example_env example_args example_doc (example_state\<lparr>db := example_store_imported\<rparr>) =
     (SystemExit 1,
      example_state\<lparr>db := example_store_imported, logger_level := INFO,
         log_out := [(ERROR, ''Release '' @ quoted ''5.1'' @ '' already exists for plan ''
                             @ quoted ''OE-Core'' @ '' (use --update to update it)'')]\<rparr>)"
    by (simp add: example_defs field_str_def doc_field_def loglevel_def)
  let ?rd = "YMap [(YStr ''plan'', YStr ''OE-Core''), (YStr ''name'', YStr ''5.1''),
                  (YStr ''start_date'', YDate 2024 4 30), (YStr ''end_date'', YDate 2024 10 25),
                  (YStr ''milestones'',
                   YSeq [example_milestone ''M1'' (YDate 2024 4 30) (YDate 2024 5 31),
                         example_milestone ''M2'' (YDate 2024 6 3) (YDate 2024 7 19),
                         example_milestone ''M1'' (YDate 2024 7 22) (YDate 2024 8 30)])]"
  let ?pre = "[example_milestone ''M1'' (YDate 2024 4 30) (YDate 2024 5 31),
               example_milestone ''M2'' (YDate 2024 6 3) (YDate 2024 7 19)]"
  let ?ms = "example_milestone ''M1'' (YDate 2024 7 22) (YDate 2024 8 30)"
  have hyp2: "well_formed example_doc_repeated \<and>
     doc_field ''release'' example_doc_repeated = Some ?rd \<and>
     doc_milestones ?rd = Some (?pre @ ?ms # []) \<and>
     MaintenancePlan_filter_first (field_str example_env ''plan'' ?rd) (db example_state)
       = Some \<lparr>plan_id = 1, plan_name = ''OE-Core''\<rparr> \<and>
     \<not> update example_args \<and>
     \<not> (\<exists>r\<in>set (releases (db example_state)).
          rel_plan r = plan_id \<lparr>plan_id = 1, plan_name = ''OE-Core''\<rparr> \<and>
          rel_name r = field_str example_env ''name'' ?rd) \<and>
     store_ok (db example_state) \<and> dates_ok example_env ?rd \<and>
     list_all (dates_ok example_env) ?pre \<and> distinct (ms_names example_env ?pre) \<and>
     field_str example_env ''name'' ?ms \<in> set (ms_names example_env ?pre)"
    by (simp add: eval_defs)
  note t2 = main_conflict_without_update [of example_doc_repeated ?rd "?pre @ ?ms # []"
      example_env example_state "\<lparr>plan_id = 1, plan_name = ''OE-Core''\<rparr>" example_args
      ?pre ?ms "[]"]
  from t2 hyp2 obtain st' rows where
    r: "main example_env example_args example_doc_repeated example_state = (SystemExit 1, st')"
    and l: "last (log_out st') =
       (ERROR, ''Milestone '' @ quoted (field_str example_env ''name'' ?ms)
               @ '' already exists for release ''
               @ quoted (Release_str example_env
                   ((db example_state)\<lparr>releases := releases (db example_state) @
                        [release_row example_env
                           (new_release \<lparr>plan_id = 1, plan_name = ''OE-Core''\<rparr>
                              (field_str example_env ''name'' ?rd)
                              (field_val ''start_date'' ?rd) (field_val ''end_date'' ?rd)
                              (db example_state))],
                      milestones := milestones (db example_state) @ rows\<rparr>)
                   (new_release \<lparr>plan_id = 1, plan_name = ''OE-Core''\<rparr>
                      (field_str example_env ''name'' ?rd)
                      (field_val ''start_date'' ?rd) (field_val ''end_date'' ?rd)
                      (db example_state)))
               @ '' (use --update to update it)'')"
    by blast
  have 2: "last (log_out (snd (main example_env example_args example_doc_repeated example_state))) =
     (ERROR, ''Milestone '' @ quoted ''M1'' @ '' already exists for release '' @ quoted ''5.1''
             @ '' (use --update to update it)'')"
    unfolding r using l
    by (simp add: example_env_def example_milestone_def field_str_def doc_field_def new_release_def)
  have 3: "main example_env example_args example_doc_repeated example_state =
     (SystemExit 1,
      example_state\<lparr>logger_level := INFO,
         log_out := [(INFO, ''Created release '' @ quoted ''5.1''),
                     (INFO, ''Created milestone '' @ quoted ''M1''),
                     (INFO, ''Created milestone '' @ quoted ''M2''),
                     (ERROR, ''Milestone '' @ quoted ''M1'' @ '' already exists for release ''
                             @ quoted ''5.1'' @ '' (use --update to update it)'')]\<rparr>)"
    by (simp add: eval_defs)
  from hyp ex 1 hyp2 2 3 show ?thesis by blast
qed

text \<open>
  Claim C10. With the dry-run flag and without the update flag, a well-formed document
  whose release is in the store already, or two of whose milestones have one name, ends
  the run with exit status 1, not 0, and the store is unchanged. The run ends by
  \<open>sys.exit(1)\<close> when the release is in the store or the dates of the document are
  valid; with a value that is no date the exception of the write ends it before the
  conflict is met, with status 1 as well. The transaction block raises
  \<open>DryRunRollbackException\<close> only after the release and every milestone have been
  created or updated without an exception.
\<close>

theorem dry_run_does_not_mask_conflicts:
  assumes "well_formed data" and "doc_field ''release'' data = Some reldata"
    and "doc_milestones reldata = Some mss"
    and "MaintenancePlan_filter_first (field_str ev ''plan'' reldata) (db st) = Some mp"
    and "dry_run a" and "\<not> update a"
    and "(\<exists>r\<in>set (releases (db st)). rel_plan r = plan_id mp \<and>
             rel_name r = field_str ev ''name'' reldata) \<or>
         \<not> distinct (ms_names ev mss)"
  shows "exit_status (fst (main ev a data st)) = 1 \<and>
         ((\<exists>r\<in>set (releases (db st)). rel_plan r = plan_id mp \<and>
              rel_name r = field_str ev ''name'' reldata) \<or>
          (dates_ok ev reldata \<and> list_all (dates_ok ev) mss)
          \<longrightarrow> fst (main ev a data st) = SystemExit 1) \<and>
         db (snd (main ev a data st)) = db st \<and>
         (\<forall>mp0 pn rn rd ms0 st0 st'.
            transaction_body ev a mp0 pn rn rd ms0 st0 = (Inl DryRunRollbackException, st')
            \<longrightarrow> (\<exists>rel st1. upsert_release ev a mp0 pn rn rd st0 = (Inr rel, st1) \<and>
                    upsert_milestones ev a rel ms0 st1 = (Inr (), st')))"
proof -
  have a: "exit_status (fst (main ev a data st)) = 1 \<and>
         ((\<exists>r\<in>set (releases (db st)). rel_plan r = plan_id mp \<and>
              rel_name r = field_str ev ''name'' reldata) \<or>
          (dates_ok ev reldata \<and> list_all (dates_ok ev) mss)
          \<longrightarrow> fst (main ev a data st) = SystemExit 1)"
  proof (cases "\<exists>r\<in>set (releases (db st)). rel_plan r = plan_id mp \<and>
                  rel_name r = field_str ev ''name'' reldata")
    case True
    from main_release_exists [OF assms(1,2,4) True assms(6)] show ?thesis by simp
  next
    case False
    with assms(7) have "\<not> distinct (ms_names ev mss)" by blast
    from main_duplicate_names [OF assms(1,2,3,4,6) this] False show ?thesis by blast
  qed
  have b: "db (snd (main ev a data st)) = db st"
    using main_db [of ev a data st] assms(5) by blast
  have c: "\<forall>mp0 pn rn rd ms0 st0 st'.
            transaction_body ev a mp0 pn rn rd ms0 st0 = (Inl DryRunRollbackException, st')
            \<longrightarrow> (\<exists>rel st1. upsert_release ev a mp0 pn rn rd st0 = (Inr rel, st1) \<and>
                    upsert_milestones ev a rel ms0 st1 = (Inr (), st'))"
    using transaction_body_sentinel by blast
  from a b c show ?thesis by blast
qed

text \<open>
  Importing the example a second time with \<open>--dry-run\<close> and without \<open>--update\<close>.
\<close>

theorem dry_run_does_not_mask_conflicts_witness:
  "well_formed example_doc \<and>
   doc_field ''release'' example_doc = Some example_release \<and>
   doc_milestones example_release = Some example_milestones \<and>
   MaintenancePlan_filter_first (field_str example_env ''plan'' example_release)
       (db (example_state\<lparr>db := example_store_imported\<rparr>))
     = Some \<lparr>plan_id = 1, plan_name = ''OE-Core''\<rparr> \<and>
   dry_run (example_args\<lparr>dry_run := True\<rparr>) \<and> \<not> update (example_args\<lparr>dry_run := True\<rparr>) \<and>
   (\<exists>r\<in>set (releases (db (example_state\<lparr>db := example_store_imported\<rparr>))).
       rel_plan r = plan_id \<lparr>plan_id = 1, plan_name = ''OE-Core''\<rparr> \<and>
       rel_name r = field_str example_env ''name'' example_release) \<and>
   fst (main example_env (example_args\<lparr>dry_run := True\<rparr>) example_doc
          (example_state\<lparr>db := example_store_imported\<rparr>)) = SystemExit 1 \<and>
   db (snd (main example_env (example_args\<lparr>dry_run := True\<rparr>) example_doc
          (example_state\<lparr>db := example_store_imported\<rparr>))) = example_store_imported"
proof -
  have hyp: "well_formed example_doc \<and>
     doc_field ''release'' example_doc = Some example_release \<and>
     doc_milestones example_release = Some example_milestones \<and>
     MaintenancePlan_filter_first (field_str example_env ''plan'' example_release)
         (db (example_state\<lparr>db := example_store_imported\<rparr>))
       = Some \<lparr>plan_id = 1, plan_name = ''OE-Core''\<rparr> \<and>
     dry_run (example_args\<lparr>dry_run := True\<rparr>) \<and> \<not> update (example_args\<lparr>dry_run := True\<rparr>)"
    by (simp add: eval_defs)
  have ex: "\<exists>r\<in>set (releases (db (example_state\<lparr>db := example_store_imported\<rparr>))).
       rel_plan r = plan_id \<lparr>plan_id = 1, plan_name = ''OE-Core''\<rparr> \<and>
       rel_name r = field_str example_env ''name'' example_release"
    by (simp add: example_defs field_str_def doc_field_def)
  note t = dry_run_does_not_mask_conflicts [of example_doc example_release example_milestones
      example_env "example_state\<lparr>db := example_store_imported\<rparr>"
      "\<lparr>plan_id = 1, plan_name = ''OE-Core''\<rparr>" "example_args\<lparr>dry_run := True\<rparr>"]
  have "fst (main example_env (example_args\<lparr>dry_run := True\<rparr>) example_doc
          (example_state\<lparr>db := example_store_imported\<rparr>)) = SystemExit 1 \<and>
        db (snd (main example_env (example_args\<lparr>dry_run := True\<rparr>) example_doc
          (example_state\<lparr>db := example_store_imported\<rparr>)))
          = db (example_state\<lparr>db := example_store_imported\<rparr>)"
    using t hyp ex by blast
  with hyp ex show ?thesis by simp
qed

section \<open>Properties of the importer: importing again with the update flag\<close>

text \<open>
  A run that ends normally leaves in the store the fold of \<open>upsert_row\<close> over the
  milestone entries. Three facts about that fold carry the result: it keeps the keys of
  the milestone table distinct; after it the milestone found under each name has the
  dates of the last entry of that name; and on a table that has every name already it is
  a map over the rows.
\<close>

lemma find_map_same:
  "(\<And>x. x \<in> set xs \<Longrightarrow> P (h x) = P x) \<Longrightarrow> find P (map h xs) = map_option h (find P xs)"
  by (induction xs) auto

lemma find_append_if:
  "find P (xs @ ys) = (case find P xs of None \<Rightarrow> find P ys | Some x \<Rightarrow> Some x)"
  by (induction xs) auto

lemma distinct_map_eq:
  "distinct (map f xs) \<Longrightarrow> x \<in> set xs \<Longrightarrow> y \<in> set xs \<Longrightarrow> f x = f y \<Longrightarrow> x = y"
  by (meson distinct_map inj_onD)

lemma with_dates_facts [simp]:
  "ms_id (with_dates ev ms x) = ms_id x" "ms_release (with_dates ev ms x) = ms_release x"
  "ms_name (with_dates ev ms x) = ms_name x"
  "ms_start_date (with_dates ev ms x) = stored_date ev (field_val ''start_date'' ms)"
  "ms_end_date (with_dates ev ms x) = stored_date ev (field_val ''end_date'' ms)"
  "with_dates ev ms (with_dates ev ms' x) = with_dates ev ms x"
  by (simp_all add: with_dates_def)

lemma milestone_row_with_dates:
  "milestone_row ev (x\<lparr>ms_start_date := field_val ''start_date'' ms,
                       ms_end_date := field_val ''end_date'' ms\<rparr>) = with_dates ev ms x"
  by (simp add: milestone_row_def with_dates_def)

lemma milestone_row_new:
  "milestone_row ev (new_milestone rel n (field_val ''start_date'' ms) (field_val ''end_date'' ms) s)
     = with_dates ev ms (new_milestone rel n (field_val ''start_date'' ms) (field_val ''end_date'' ms) s)"
  by (simp add: milestone_row_def with_dates_def new_milestone_def)

lemma upsert_row_tables [simp]:
  "plans (upsert_row ev rel ms s) = plans s" "releases (upsert_row ev rel ms s) = releases s"
  by (simp_all add: upsert_row_def split: option.splits)

lemma fold_upsert_row_tables [simp]:
  "plans (fold (upsert_row ev rel) mss s) = plans s"
  "releases (fold (upsert_row ev rel) mss s) = releases s"
  by (induction mss arbitrary: s) simp_all

lemma upsert_row_cong:
  "rel_id rel = rel_id rel' \<Longrightarrow> upsert_row ev rel ms s = upsert_row ev rel' ms s"
  by (simp add: upsert_row_def Milestone_filter_first_def new_milestone_def
      cong: option.case_cong)

lemma fold_upsert_row_cong:
  "rel_id rel = rel_id rel' \<Longrightarrow>
   fold (upsert_row ev rel) mss s = fold (upsert_row ev rel') mss s"
  using upsert_row_cong [of rel rel' ev] by (induction mss arbitrary: s) simp_all

text \<open>The loop, when it ends normally, is the fold of \<open>upsert_row\<close>, and every entry had
  valid dates.\<close>

lemma upsert_milestones_Inr:
  assumes "list_all (has_fields [''name'', ''start_date'', ''end_date'']) mss"
    and "upsert_milestones ev a rel mss st = (Inr u, st')"
  shows "list_all (dates_ok ev) mss \<and> db st' = fold (upsert_row ev rel) mss (db st)"
  using assms
proof (induction mss arbitrary: st)
  case Nil
  then show ?case by simp
next
  case (Cons ms mss)
  then have h: "has_fields [''name'', ''start_date'', ''end_date''] ms"
    and hs: "list_all (has_fields [''name'', ''start_date'', ''end_date'']) mss" by simp_all
  let ?n = "field_str ev ''name'' ms"
  let ?sd = "field_val ''start_date'' ms" and ?ed = "field_val ''end_date'' ms"
  show ?case
  proof (cases "Milestone_filter_first rel ?n (db st)")
    case None
    obtain m s1 where c: "Milestone_create ev rel ?n ?sd ?ed (db st) = Inr (m, s1)"
      using Cons.prems(2) None
      by (cases "Milestone_create ev rel ?n ?sd ?ed (db st)")
         (auto simp: upsert_milestones_step [OF h] simp del: upsert_milestones.simps)
    from Milestone_create_Inr [OF c] have dk: "dates_ok ev ms"
      and s1: "s1 = upsert_row ev rel ms (db st)"
      using None by (simp_all add: dates_ok_def upsert_row_def milestone_row_new)
    have "upsert_milestones ev a rel mss
            (logger_info (''Created milestone '' @ quoted (Milestone_str ev s1 m)) (st\<lparr>db := s1\<rparr>))
          = (Inr u, st')"
      using Cons.prems(2) None c
      by (simp add: upsert_milestones_step [OF h] del: upsert_milestones.simps)
    from Cons.IH [OF hs this] dk s1 show ?thesis by simp
  next
    case (Some ex)
    let ?m = "ex\<lparr>ms_start_date := ?sd, ms_end_date := ?ed\<rparr>"
    have up: "update a"
      using Cons.prems(2) Some
      by (auto simp: upsert_milestones_step [OF h] simp del: upsert_milestones.simps split: if_splits)
    obtain s1 where c: "Milestone_save ev ?m (db st) = Inr s1"
      using Cons.prems(2) Some up
      by (cases "Milestone_save ev ?m (db st)")
         (auto simp: upsert_milestones_step [OF h] simp del: upsert_milestones.simps)
    from Milestone_save_Inr [OF c] have dk: "dates_ok ev ms" by (simp add: dates_ok_def)
    have "ex \<in> set (milestones (db st))"
      using Milestone_filter_first_Some [OF Some] by simp
    then have "ms_id ex \<in> ms_id ` set (milestones (db st))" by (rule imageI)
    then have s1: "s1 = upsert_row ev rel ms (db st)"
      using c dk Some
      by (simp add: Milestone_save_ok dates_ok_def upsert_row_def milestone_row_with_dates
          cong: if_cong)
    have "upsert_milestones ev a rel mss
            (logger_info (''Updated milestone '' @ quoted (Milestone_str ev s1 ?m)) (st\<lparr>db := s1\<rparr>))
          = (Inr u, st')"
      using Cons.prems(2) Some up c
      by (simp add: upsert_milestones_step [OF h] del: upsert_milestones.simps)
    from Cons.IH [OF hs this] dk s1 show ?thesis by simp
  qed
qed


lemma upsert_row_ids:
  assumes "distinct (map ms_id (milestones s))"
  shows "distinct (map ms_id (milestones (upsert_row ev rel ms s)))"
proof (cases "Milestone_filter_first rel (field_str ev ''name'' ms) s")
  case None
  then show ?thesis
    using assms next_id_fresh [of "map ms_id (milestones s)"]
    by (simp add: upsert_row_def)
next
  case (Some ex)
  have "map ms_id (map (\<lambda>x. if ms_id x = ms_id ex then with_dates ev ms ex else x) (milestones s))
          = map ms_id (milestones s)"
    by (induction "milestones s") auto
  with Some assms show ?thesis by (simp add: upsert_row_def del: map_map)
qed

lemma fold_upsert_row_ids:
  "distinct (map ms_id (milestones s)) \<Longrightarrow>
   distinct (map ms_id (milestones (fold (upsert_row ev rel) mss s)))"
  by (induction mss arbitrary: s) (simp_all add: upsert_row_ids)

lemma upsert_row_finds_same:
  assumes "distinct (map ms_id (milestones s))"
  shows "\<exists>x. Milestone_filter_first rel (field_str ev ''name'' ms) (upsert_row ev rel ms s) = Some x \<and>
        with_dates ev ms x = x"
proof (cases "Milestone_filter_first rel (field_str ev ''name'' ms) s")
  case None
  then show ?thesis
    by (simp add: upsert_row_def Milestone_filter_first_def find_append_if)
next
  case (Some ex)
  let ?P = "\<lambda>m. ms_release m = rel_id rel \<and> ms_name m = field_str ev ''name'' ms"
  let ?h = "\<lambda>x. if ms_id x = ms_id ex then with_dates ev ms ex else x"
  have ex: "ex \<in> set (milestones s)" "?P ex"
    using Milestone_filter_first_Some [OF Some] by simp_all
  have "find ?P (map ?h (milestones s)) = map_option ?h (find ?P (milestones s))"
  proof (rule find_map_same)
    fix x assume "x \<in> set (milestones s)"
    from distinct_map_eq [OF assms this ex(1)]
    show "?P (?h x) = ?P x" using ex(2) by auto
  qed
  then have "find ?P (map ?h (milestones s)) = Some (with_dates ev ms ex)"
    using Some by (simp add: Milestone_filter_first_def)
  with Some show ?thesis
    by (simp add: upsert_row_def Milestone_filter_first_def)
qed

lemma upsert_row_finds_other:
  assumes "distinct (map ms_id (milestones s))" and "n \<noteq> field_str ev ''name'' ms"
  shows "Milestone_filter_first rel n (upsert_row ev rel ms s) = Milestone_filter_first rel n s"
proof (cases "Milestone_filter_first rel (field_str ev ''name'' ms) s")
  case None
  then show ?thesis
    using assms(2)
    by (simp add: upsert_row_def Milestone_filter_first_def find_append_if split: option.splits)
next
  case (Some ex)
  let ?P = "\<lambda>m. ms_release m = rel_id rel \<and> ms_name m = n"
  let ?h = "\<lambda>x. if ms_id x = ms_id ex then with_dates ev ms ex else x"
  have ex: "ex \<in> set (milestones s)" "ms_name ex = field_str ev ''name'' ms"
    using Milestone_filter_first_Some [OF Some] by simp_all
  have same: "?P (?h x) = ?P x" if "x \<in> set (milestones s)" for x
    using distinct_map_eq [OF assms(1) that ex(1)] by auto
  have f: "find ?P (map ?h (milestones s)) = map_option ?h (find ?P (milestones s))"
    using same by (rule find_map_same)
  have "map_option ?h (find ?P (milestones s)) = find ?P (milestones s)"
  proof (cases "find ?P (milestones s)")
    case None
    then show ?thesis by simp
  next
    case (Some x)
    then have "x \<in> set (milestones s)" "ms_name x = n"
      by (auto simp: find_Some_iff)
    then have "ms_id x \<noteq> ms_id ex"
      using distinct_map_eq [OF assms(1) _ ex(1), of x] ex(2) assms(2) by auto
    with Some show ?thesis by simp
  qed
  with f Some show ?thesis
    by (simp add: upsert_row_def Milestone_filter_first_def)
qed

lemma last_entry_snoc:
  "last_entry ev n (mss @ [ms]) =
     (if field_str ev ''name'' ms = n then Some ms else last_entry ev n mss)"
  by (simp add: last_entry_def)

lemma last_entry_None: "last_entry ev n mss = None \<longleftrightarrow> n \<notin> set (ms_names ev mss)"
  by (auto simp: last_entry_def find_None_iff ms_names_def)

lemma fold_upsert_row_last:
  assumes "distinct (map ms_id (milestones s))"
  shows "\<forall>n\<in>set (ms_names ev mss). \<exists>x ms.
           Milestone_filter_first rel n (fold (upsert_row ev rel) mss s) = Some x \<and>
           last_entry ev n mss = Some ms \<and> with_dates ev ms x = x"
proof (induction mss rule: rev_induct)
  case Nil
  then show ?case by (simp add: ms_names_def)
next
  case (snoc ms mss)
  let ?B = "fold (upsert_row ev rel) mss s"
  have d: "distinct (map ms_id (milestones ?B))"
    using assms by (rule fold_upsert_row_ids)
  show ?case
  proof
    fix n assume n: "n \<in> set (ms_names ev (mss @ [ms]))"
    show "\<exists>x ms'. Milestone_filter_first rel n (fold (upsert_row ev rel) (mss @ [ms]) s) = Some x \<and>
            last_entry ev n (mss @ [ms]) = Some ms' \<and> with_dates ev ms' x = x"
    proof (cases "n = field_str ev ''name'' ms")
      case True
      with upsert_row_finds_same [OF d, of rel ev ms] show ?thesis
        by (auto simp: last_entry_snoc)
    next
      case False
      with n have "n \<in> set (ms_names ev mss)" by (auto simp: ms_names_def)
      with snoc.IH obtain x ms' where
        "Milestone_filter_first rel n ?B = Some x" "last_entry ev n mss = Some ms'"
        "with_dates ev ms' x = x" by blast
      with upsert_row_finds_other [OF d False, of rel] False show ?thesis
        by (auto simp: last_entry_snoc)
    qed
  qed
qed

lemma fold_upsert_row_existing:
  assumes "distinct (map ms_id (milestones s))"
    and "\<forall>n\<in>set (ms_names ev mss). Milestone_filter_first rel n s \<noteq> None"
  shows "fold (upsert_row ev rel) mss s =
     s\<lparr>milestones :=
         map (\<lambda>x. if Milestone_filter_first rel (ms_name x) s = Some x
                  then (case last_entry ev (ms_name x) mss of
                          None \<Rightarrow> x | Some ms \<Rightarrow> with_dates ev ms x)
                  else x) (milestones s)\<rparr>"
  using assms(2)
proof (induction mss rule: rev_induct)
  case Nil
  then show ?case by (simp add: last_entry_def cong: if_cong)
next
  case (snoc ms mss)
  define g where "g = (\<lambda>mss x. if Milestone_filter_first rel (ms_name x) s = Some x
                  then (case last_entry ev (ms_name x) mss of
                          None \<Rightarrow> x | Some ms \<Rightarrow> with_dates ev ms x)
                  else x)"
  let ?n = "field_str ev ''name'' ms"
  let ?P = "\<lambda>m. ms_release m = rel_id rel \<and> ms_name m = ?n"
  let ?L = "milestones s"
  have keys: "ms_id (g l x) = ms_id x" "ms_release (g l x) = ms_release x"
    "ms_name (g l x) = ms_name x" "with_dates ev ms (g l x) = with_dates ev ms x" for l x
    by (auto simp: g_def split: option.splits)
  from snoc.prems have "\<forall>n\<in>set (ms_names ev mss). Milestone_filter_first rel n s \<noteq> None"
    by (simp add: ms_names_def)
  from snoc.IH [OF this] have ih: "fold (upsert_row ev rel) mss s = s\<lparr>milestones := map (g mss) ?L\<rparr>"
    by (simp add: g_def)
  from snoc.prems obtain x0 where x0: "Milestone_filter_first rel ?n s = Some x0"
    by (auto simp: ms_names_def)
  then have x0in: "x0 \<in> set ?L" and x0n: "ms_name x0 = ?n"
    using Milestone_filter_first_Some [OF x0] by simp_all
  have "find ?P (map (g mss) ?L) = map_option (g mss) (find ?P ?L)"
    by (rule find_map_same) (simp add: keys)
  then have f: "Milestone_filter_first rel ?n (s\<lparr>milestones := map (g mss) ?L\<rparr>) = Some (g mss x0)"
    using x0 by (simp add: Milestone_filter_first_def)
  have step: "upsert_row ev rel ms (s\<lparr>milestones := map (g mss) ?L\<rparr>) =
     s\<lparr>milestones := map (\<lambda>x. if ms_id x = ms_id x0 then with_dates ev ms x0 else g mss x) ?L\<rparr>"
    using f by (simp add: upsert_row_def keys comp_def cong: if_cong)
  have "(if ms_id x = ms_id x0 then with_dates ev ms x0 else g mss x) = g (mss @ [ms]) x"
    if "x \<in> set ?L" for x
  proof (cases "ms_id x = ms_id x0")
    case True
    then have "x = x0" using distinct_map_eq [OF assms(1) that x0in] by simp
    then show ?thesis using x0 x0n by (simp add: g_def last_entry_snoc)
  next
    case False
    then have "x \<noteq> x0" by auto
    then have "Milestone_filter_first rel (ms_name x) s = Some x \<Longrightarrow> ms_name x \<noteq> ?n"
      using x0 by auto
    then show ?thesis using False by (auto simp: g_def last_entry_snoc)
  qed
  then have "map (\<lambda>x. if ms_id x = ms_id x0 then with_dates ev ms x0 else g mss x) ?L
               = map (g (mss @ [ms])) ?L"
    by (rule map_cong [OF refl])
  with step ih show ?case by (simp add: g_def)
qed

lemma fold_upsert_row_idem:
  assumes "distinct (map ms_id (milestones s))"
  shows "fold (upsert_row ev rel) mss (fold (upsert_row ev rel) mss s)
           = fold (upsert_row ev rel) mss s"
proof -
  let ?A = "fold (upsert_row ev rel) mss s"
  have d: "distinct (map ms_id (milestones ?A))" using assms by (rule fold_upsert_row_ids)
  have q: "\<forall>n\<in>set (ms_names ev mss). \<exists>x ms.
             Milestone_filter_first rel n ?A = Some x \<and>
             last_entry ev n mss = Some ms \<and> with_dates ev ms x = x"
    using assms by (rule fold_upsert_row_last)
  then have ex: "\<forall>n\<in>set (ms_names ev mss). Milestone_filter_first rel n ?A \<noteq> None" by auto
  have "(if Milestone_filter_first rel (ms_name x) ?A = Some x
         then (case last_entry ev (ms_name x) mss of None \<Rightarrow> x | Some ms \<Rightarrow> with_dates ev ms x)
         else x) = x" for x
  proof (cases "Milestone_filter_first rel (ms_name x) ?A = Some x")
    case False
    then show ?thesis by simp
  next
    case True
    show ?thesis
    proof (cases "last_entry ev (ms_name x) mss")
      case None
      then show ?thesis by simp
    next
      case (Some ms)
      then have "ms_name x \<in> set (ms_names ev mss)"
        using last_entry_None [of ev "ms_name x" mss] by auto
      with q True Some have "with_dates ev ms x = x" by fastforce
      with True Some show ?thesis by simp
    qed
  qed
  then show ?thesis
    unfolding fold_upsert_row_existing [OF d ex] by simp
qed


lemma Milestone_filter_first_cong:
  "rel_id rel = rel_id rel' \<Longrightarrow> milestones s = milestones s' \<Longrightarrow>
   Milestone_filter_first rel n s = Milestone_filter_first rel' n s'"
  by (simp add: Milestone_filter_first_def)

lemma map_replace_same:
  assumes "distinct (map f xs)" and "r \<in> set xs"
  shows "map (\<lambda>x. if f x = f r then r else x) xs = xs"
proof -
  have "(if f x = f r then r else x) = x" if "x \<in> set xs" for x
    using distinct_map_eq [OF assms(1) that assms(2)] by auto
  then show ?thesis by (simp add: map_idI)
qed

text \<open>What a run that ends with exit code 0 did, when it was no dry run.\<close>

lemma main_success:
  assumes "well_formed data" and "doc_field ''release'' data = Some reldata"
    and "doc_milestones reldata = Some mss"
    and "MaintenancePlan_filter_first (field_str ev ''plan'' reldata) (db st) = Some mp"
    and "\<not> dry_run a" and "main ev a data st = (SystemExit 0, st1)"
  shows "\<exists>rel sta.
           upsert_release ev a mp (field_str ev ''plan'' reldata) (field_str ev ''name'' reldata)
             reldata (logger_setLevel (loglevel a) st) = (Inr rel, sta) \<and>
           upsert_milestones ev a rel mss sta = (Inr (), st1)"
proof -
  let ?st0 = "logger_setLevel (loglevel a) st"
  let ?pn = "field_str ev ''plan'' reldata"
  let ?rn = "field_str ev ''name'' reldata"
  note mt = main_transaction [OF assms(1,2,3,4), of a]
  obtain r1 sta where u: "upsert_release ev a mp ?pn ?rn reldata ?st0 = (r1, sta)"
    by (cases "upsert_release ev a mp ?pn ?rn reldata ?st0")
  show ?thesis
  proof (cases r1)
    case (Inl e)
    from upsert_release_raises [OF u [unfolded Inl]]
    have e: "e \<noteq> DryRunRollbackException" "exit_status e = 1" by simp_all
    have "transaction_body ev a mp ?pn ?rn reldata mss ?st0 = (Inl e, sta)"
      using u Inl by (simp add: transaction_body_def)
    then have "atomic (transaction_body ev a mp ?pn ?rn reldata mss) ?st0
                 = (Inl e, sta\<lparr>db := db ?st0\<rparr>)"
      by (rule atomic_cases)
    with mt e(1) assms(6) have "e = SystemExit 0" by simp
    with e(2) show ?thesis by simp
  next
    case (Inr rel)
    obtain r2 stb where m: "upsert_milestones ev a rel mss sta = (r2, stb)"
      by (cases "upsert_milestones ev a rel mss sta")
    show ?thesis
    proof (cases r2)
      case (Inl e)
      from upsert_milestones_raises [OF m [unfolded Inl]]
      have e: "e \<noteq> DryRunRollbackException" "exit_status e = 1" by simp_all
      have "transaction_body ev a mp ?pn ?rn reldata mss ?st0 = (Inl e, stb)"
        using u Inr m Inl by (simp add: transaction_body_def)
      then have "atomic (transaction_body ev a mp ?pn ?rn reldata mss) ?st0
                   = (Inl e, stb\<lparr>db := db ?st0\<rparr>)"
        by (rule atomic_cases)
      with mt e(1) assms(6) have "e = SystemExit 0" by simp
      with e(2) show ?thesis by simp
    next
      case r2: (Inr x)
      have "transaction_body ev a mp ?pn ?rn reldata mss ?st0 = (Inr (), stb)"
        using u Inr m r2 assms(5) by (simp add: transaction_body_def)
      then have "atomic (transaction_body ev a mp ?pn ?rn reldata mss) ?st0 = (Inr (), stb)"
        by (rule atomic_cases)
      with mt assms(6) have "stb = st1" by simp
      with u Inr m r2 show ?thesis by simp
    qed
  qed
qed

lemma release_row_update:
  "release_row ev (r\<lparr>rel_start_date := sd, rel_end_date := ed\<rparr>) =
     r\<lparr>rel_start_date := stored_date ev sd, rel_end_date := stored_date ev ed\<rparr>"
  by (simp add: release_row_def)

text \<open>The release after \<open>upsert_release\<close> has returned: the row found under the plan
  and the name is the row of the object returned, and it has the dates of the file.\<close>

lemma upsert_release_Inr_facts:
  assumes "has_fields [''plan'', ''name'', ''start_date'', ''end_date''] reldata"
    and "distinct (map rel_id (releases (db st)))"
    and "upsert_release ev a mp pn rn reldata st = (Inr rel, sta)"
  shows "dates_ok ev reldata \<and> plans (db sta) = plans (db st) \<and>
         milestones (db sta) = milestones (db st) \<and>
         distinct (map rel_id (releases (db sta))) \<and>
         (\<exists>row. Release_filter_first mp rn (db sta) = Some row \<and> rel_id row = rel_id rel \<and>
            rel_start_date row = stored_date ev (field_val ''start_date'' reldata) \<and>
            rel_end_date row = stored_date ev (field_val ''end_date'' reldata))"
proof (cases "Release_filter_first mp rn (db st)")
  case None
  let ?sd = "field_val ''start_date'' reldata" and ?ed = "field_val ''end_date'' reldata"
  obtain r s1 where c: "Release_create ev mp rn ?sd ?ed (db st) = Inr (r, s1)"
    using assms(3) None
    by (cases "Release_create ev mp rn ?sd ?ed (db st)")
       (auto simp: upsert_release_cases [OF assms(1)])
  from Release_create_Inr [OF c] have dk: "dates_ok ev reldata"
    and r: "r = new_release mp rn ?sd ?ed (db st)"
    and s1: "s1 = (db st)\<lparr>releases := releases (db st) @ [release_row ev r]\<rparr>"
    by (simp_all add: dates_ok_def)
  have res: "rel = r" "db sta = s1"
    using assms(3) None c by (auto simp: upsert_release_cases [OF assms(1)])
  have f: "Release_filter_first mp rn s1 = Some (release_row ev r)"
    using None unfolding s1 r
    by (simp add: Release_filter_first_def find_append_if)
  have d: "distinct (map rel_id (releases s1))"
    using assms(2) next_id_fresh [of "map rel_id (releases (db st))"] unfolding s1 r by simp
  show ?thesis
    unfolding res using dk f d by (simp add: s1 r)
next
  case (Some ex)
  let ?sd = "field_val ''start_date'' reldata" and ?ed = "field_val ''end_date'' reldata"
  let ?rel = "ex\<lparr>rel_start_date := ?sd, rel_end_date := ?ed\<rparr>"
  let ?P = "\<lambda>r. rel_plan r = plan_id mp \<and> rel_name r = rn"
  let ?h = "\<lambda>x. if rel_id x = rel_id ex then release_row ev ?rel else x"
  have up: "update a"
    using assms(3) Some by (auto simp: upsert_release_cases [OF assms(1)] split: if_splits)
  obtain s1 where c: "Release_save ev ?rel (db st) = Inr s1"
    using assms(3) Some up
    by (cases "Release_save ev ?rel (db st)") (auto simp: upsert_release_cases [OF assms(1)])
  from Release_save_Inr [OF c] have dk: "dates_ok ev reldata" by (simp add: dates_ok_def)
  have ex: "ex \<in> set (releases (db st))" "?P ex"
    using Release_filter_first_Some [OF Some] by simp_all
  then have "rel_id ex \<in> rel_id ` set (releases (db st))" by simp
  then have s1: "s1 = (db st)\<lparr>releases := map ?h (releases (db st))\<rparr>"
    using c dk by (simp add: Release_save_ok dates_ok_def)
  have res: "rel = ?rel" "db sta = s1"
    using assms(3) Some up c by (auto simp: upsert_release_cases [OF assms(1)])
  have same: "?P (?h x) = ?P x" if "x \<in> set (releases (db st))" for x
    using distinct_map_eq [OF assms(2) that ex(1)] ex(2) by auto
  have "find ?P (map ?h (releases (db st))) = map_option ?h (find ?P (releases (db st)))"
    using same by (rule find_map_same)
  then have f: "Release_filter_first mp rn s1 = Some (release_row ev ?rel)"
    using Some unfolding s1 by (simp add: Release_filter_first_def)
  have "map rel_id (map ?h (releases (db st))) = map rel_id (releases (db st))"
    by (induction "releases (db st)") auto
  then have d: "distinct (map rel_id (releases s1))"
    using assms(2) unfolding s1 by (simp del: map_map)
  show ?thesis
    unfolding res using dk f d by (simp add: s1)
qed


text \<open>
  Claim C6. Let a run that was no dry run have imported a well-formed document into a
  store that keeps its integrity constraints, with exit code 0. Then the store holds the
  release of the document, and a run with the update flag on a document for the same
  plan and release name, whose milestone names are among those of the first document
  (the same document, or one that has valid dates), ends with exit code 0 and changes
  the store in place: the table of plans is the same; in the table of releases the
  release found has the dates of the second document and every other row is as before;
  in the table of milestones each row that is the milestone found under its name for
  that release has the dates of the last entry of that name, and every other row is as
  before. No row is added and none is removed, and the keys and names of the rows are
  the same. When the second document is the first one, the store after the run is the
  store before it.
\<close>

theorem reimport_with_update:
  assumes "well_formed data" and "doc_field ''release'' data = Some reldata"
    and "doc_milestones reldata = Some mss"
    and "MaintenancePlan_filter_first (field_str ev ''plan'' reldata) (db st0) = Some mp"
    and "store_ok (db st0)" and "\<not> dry_run a0"
    and "main ev a0 data st0 = (SystemExit 0, st1)"
    and "well_formed data2" and "doc_field ''release'' data2 = Some reldata2"
    and "doc_milestones reldata2 = Some mss2"
    and "field_str ev ''plan'' reldata2 = field_str ev ''plan'' reldata"
    and "field_str ev ''name'' reldata2 = field_str ev ''name'' reldata"
    and "set (ms_names ev mss2) \<subseteq> set (ms_names ev mss)"
    and "data2 = data \<or> (dates_ok ev reldata2 \<and> list_all (dates_ok ev) mss2)"
    and "update a" and "\<not> dry_run a" and "db st = db st1"
  shows "\<exists>row st2.
           Release_filter_first mp (field_str ev ''name'' reldata) (db st1) = Some row \<and>
           main ev a data2 st = (SystemExit 0, st2) \<and>
           plans (db st2) = plans (db st1) \<and>
           releases (db st2) =
             map (\<lambda>x. if rel_id x = rel_id row
                      then row\<lparr>rel_start_date := stored_date ev (field_val ''start_date'' reldata2),
                               rel_end_date := stored_date ev (field_val ''end_date'' reldata2)\<rparr>
                      else x) (releases (db st1)) \<and>
           milestones (db st2) =
             map (\<lambda>x. if Milestone_filter_first row (ms_name x) (db st1) = Some x
                      then (case last_entry ev (ms_name x) mss2 of
                              None \<Rightarrow> x | Some ms \<Rightarrow> with_dates ev ms x)
                      else x) (milestones (db st1)) \<and>
           (data2 = data \<longrightarrow> db st2 = db st1)"
proof -
  have h: "has_fields [''plan'', ''name'', ''start_date'', ''end_date''] reldata"
    and hs: "list_all (has_fields [''name'', ''start_date'', ''end_date'']) mss"
    using assms(1,2,3) by (simp_all add: well_formed_def)
  have h2: "has_fields [''plan'', ''name'', ''start_date'', ''end_date''] reldata2"
    and hs2: "list_all (has_fields [''name'', ''start_date'', ''end_date'']) mss2"
    using assms(8,9,10) by (simp_all add: well_formed_def)
  let ?pn = "field_str ev ''plan'' reldata"
  let ?rn = "field_str ev ''name'' reldata"
  let ?sd2 = "field_val ''start_date'' reldata2" and ?ed2 = "field_val ''end_date'' reldata2"
  from main_success [OF assms(1,2,3,4,6,7)] obtain rel sta where
    ur1: "upsert_release ev a0 mp ?pn ?rn reldata (logger_setLevel (loglevel a0) st0) = (Inr rel, sta)"
    and um1: "upsert_milestones ev a0 rel mss sta = (Inr (), st1)"
    by blast
  have d0: "distinct (map rel_id (releases (db (logger_setLevel (loglevel a0) st0))))"
    and dm0: "distinct (map ms_id (milestones (db st0)))"
    using assms(5) by (simp_all add: store_ok_def)
  from upsert_release_Inr_facts [OF h d0 ur1] obtain row where
    dk: "dates_ok ev reldata" and pa: "plans (db sta) = plans (db st0)"
    and ma: "milestones (db sta) = milestones (db st0)"
    and da: "distinct (map rel_id (releases (db sta)))"
    and fa: "Release_filter_first mp ?rn (db sta) = Some row" and rid: "rel_id row = rel_id rel"
    and rdates: "rel_start_date row = stored_date ev (field_val ''start_date'' reldata)"
      "rel_end_date row = stored_date ev (field_val ''end_date'' reldata)"
    by auto
  from upsert_milestones_Inr [OF hs um1] have dks: "list_all (dates_ok ev) mss"
    and db1: "db st1 = fold (upsert_row ev rel) mss (db sta)" by simp_all
  have db1': "db st1 = fold (upsert_row ev row) mss (db sta)"
    unfolding db1 using rid by (intro fold_upsert_row_cong) simp
  have p1: "plans (db st1) = plans (db st0)" and r1: "releases (db st1) = releases (db sta)"
    unfolding db1 using pa by simp_all
  have dma: "distinct (map ms_id (milestones (db sta)))" using dm0 ma by simp
  have dm1: "distinct (map ms_id (milestones (db st1)))"
    unfolding db1' using dma by (rule fold_upsert_row_ids)
  have d1: "distinct (map rel_id (releases (db st1)))" using da r1 by simp
  have f1: "Release_filter_first mp ?rn (db st1) = Some row"
    using fa r1 by (simp add: Release_filter_first_def)
  have last1: "\<forall>n\<in>set (ms_names ev mss). \<exists>x ms.
                 Milestone_filter_first row n (db st1) = Some x \<and>
                 last_entry ev n mss = Some ms \<and> with_dates ev ms x = x"
    unfolding db1' using dma by (rule fold_upsert_row_last)
  have same: "reldata2 = reldata \<and> mss2 = mss" if "data2 = data"
    using that assms(2,3,9,10) by simp
  have dk2: "dates_ok ev reldata2" and dks2: "list_all (dates_ok ev) mss2"
    using assms(14) same dk dks by auto
  let ?st = "logger_setLevel (loglevel a) st"
  have dst: "db ?st = db st1" using assms(17) by simp
  have plan2: "MaintenancePlan_filter_first (field_str ev ''plan'' reldata2) (db st) = Some mp"
    using assms(4,11,17) p1 by (simp add: MaintenancePlan_filter_first_def)
  have f2: "Release_filter_first mp (field_str ev ''name'' reldata2) (db ?st) = Some row"
    using f1 assms(12) dst by simp
  let ?row2 = "row\<lparr>rel_start_date := stored_date ev ?sd2, rel_end_date := stored_date ev ?ed2\<rparr>"
  let ?rel2 = "row\<lparr>rel_start_date := ?sd2, rel_end_date := ?ed2\<rparr>"
  let ?sb = "(db st1)\<lparr>releases := map (\<lambda>x. if rel_id x = rel_id row then ?row2 else x)
                                       (releases (db st1))\<rparr>"
  note uru = upsert_release_update [OF h2 dk2 f2 assms(15), of "field_str ev ''plan'' reldata2"]
  define stb where "stb = snd (upsert_release ev a mp (field_str ev ''plan'' reldata2)
                                 (field_str ev ''name'' reldata2) reldata2 ?st)"
  have ur2: "upsert_release ev a mp (field_str ev ''plan'' reldata2) (field_str ev ''name'' reldata2)
            reldata2 ?st = (Inr ?rel2, stb)"
    unfolding stb_def uru by simp
  have dbb: "db stb = ?sb"
    unfolding stb_def uru by (simp add: release_row_update assms(17) cong: if_cong)
  from upsert_milestones_update_ok [OF hs2 dks2 assms(15), of ?rel2 stb] obtain st2 where
    um2: "upsert_milestones ev a ?rel2 mss2 stb = (Inr (), st2)" by blast
  from upsert_milestones_Inr [OF hs2 um2]
  have "db st2 = fold (upsert_row ev ?rel2) mss2 (db stb)" by simp
  then have db2: "db st2 = fold (upsert_row ev row) mss2 ?sb"
    unfolding dbb using fold_upsert_row_cong [of ?rel2 row ev mss2 ?sb] by simp
  have mf: "Milestone_filter_first row n ?sb = Milestone_filter_first row n (db st1)" for n
    by (rule Milestone_filter_first_cong) simp_all
  have dmb: "distinct (map ms_id (milestones ?sb))" using dm1 by simp
  have exb: "\<forall>n\<in>set (ms_names ev mss2). Milestone_filter_first row n ?sb \<noteq> None"
    unfolding mf using last1 assms(13) by fastforce
  note form = fold_upsert_row_existing [OF dmb exb]
  have tb: "transaction_body ev a mp (field_str ev ''plan'' reldata2)
              (field_str ev ''name'' reldata2) reldata2 mss2 ?st = (Inr (), st2)"
    using ur2 um2 assms(16) by (simp add: transaction_body_def)
  have "atomic (transaction_body ev a mp (field_str ev ''plan'' reldata2)
              (field_str ev ''name'' reldata2) reldata2 mss2) ?st = (Inr (), st2)"
    using tb by (rule atomic_cases)
  then have m2: "main ev a data2 st = (SystemExit 0, st2)"
    by (simp add: main_transaction [OF assms(8,9,10) plan2])
  have c1: "plans (db st2) = plans (db st1)" unfolding db2 by simp
  have c2: "releases (db st2) =
              map (\<lambda>x. if rel_id x = rel_id row then ?row2 else x) (releases (db st1))"
    unfolding db2 by simp
  have c3: "milestones (db st2) =
             map (\<lambda>x. if Milestone_filter_first row (ms_name x) (db st1) = Some x
                      then (case last_entry ev (ms_name x) mss2 of
                              None \<Rightarrow> x | Some ms \<Rightarrow> with_dates ev ms x)
                      else x) (milestones (db st1))"
    unfolding db2 form mf by simp
  have c4: "db st2 = db st1" if eq: "data2 = data"
  proof -
    from same [OF eq] have e: "reldata2 = reldata" "mss2 = mss" by simp_all
    have r2: "?row2 = row" using rdates e by simp
    have "row \<in> set (releases (db st1))"
      using Release_filter_first_Some [OF f1] by simp
    then have "map (\<lambda>x. if rel_id x = rel_id row then ?row2 else x) (releases (db st1))
                 = releases (db st1)"
      unfolding r2 by (rule map_replace_same [OF d1])
    then have sb: "?sb = db st1" by simp
    have "db st2 = fold (upsert_row ev row) mss (db st1)"
      using db2 sb e by simp
    also have "\<dots> = db st1"
      unfolding db1' using dma by (rule fold_upsert_row_idem)
    finally show ?thesis .
  qed
  from f1 m2 c1 c2 c3 c4 show ?thesis by blast
qed


text \<open>
  The example document imported a second time with \<open>--update\<close>: exit code 0 and the
  store as it was. Then the document that moves the end of the release and the milestone
  M2: the release and M2 have the new dates, the end of the release read from its ISO
  form, and M1 and the keys of all rows are as before.
\<close>

theorem reimport_with_update_witness:
  "well_formed example_doc \<and> store_ok (db example_state) \<and> \<not> dry_run example_args \<and>
   main example_env example_args example_doc example_state = (SystemExit 0, example_state_imported) \<and>
   well_formed example_doc_moved \<and>
   set (ms_names example_env [example_milestone ''M2'' (YDate 2024 6 10) (YDate 2024 7 26)])
     \<subseteq> set (ms_names example_env example_milestones) \<and>
   dates_ok example_env example_release_moved \<and>
   update (example_args\<lparr>update := True\<rparr>) \<and> \<not> dry_run (example_args\<lparr>update := True\<rparr>) \<and>
   fst (main example_env (example_args\<lparr>update := True\<rparr>) example_doc example_state_imported)
     = SystemExit 0 \<and>
   db (snd (main example_env (example_args\<lparr>update := True\<rparr>) example_doc example_state_imported))
     = example_store_imported \<and>
   fst (main example_env (example_args\<lparr>update := True\<rparr>) example_doc_moved example_state_imported)
     = SystemExit 0 \<and>
   db (snd (main example_env (example_args\<lparr>update := True\<rparr>) example_doc_moved
              example_state_imported)) =
     \<lparr>plans = [\<lparr>plan_id = 1, plan_name = ''OE-Core''\<rparr>],
      releases = [\<lparr>rel_id = 1, rel_plan = 1, rel_name = ''5.1'',
                   rel_start_date = YDate 2024 4 30, rel_end_date = YDate 2024 11 8\<rparr>],
      milestones = [\<lparr>ms_id = 1, ms_release = 1, ms_name = ''M1'',
                     ms_start_date = YDate 2024 4 30, ms_end_date = YDate 2024 5 31\<rparr>,
                    \<lparr>ms_id = 2, ms_release = 1, ms_name = ''M2'',
                     ms_start_date = YDate 2024 6 10, ms_end_date = YDate 2024 7 26\<rparr>]\<rparr>"
proof -
  let ?mp = "\<lparr>plan_id = 1, plan_name = ''OE-Core''\<rparr>"
  let ?up = "example_args\<lparr>update := True\<rparr>"
  let ?ms2 = "[example_milestone ''M2'' (YDate 2024 6 10) (YDate 2024 7 26)]"
  have h1: "well_formed example_doc" by (simp add: eval_defs)
  have h2: "doc_field ''release'' example_doc = Some example_release" by (simp add: eval_defs)
  have h3: "doc_milestones example_release = Some example_milestones" by (simp add: eval_defs)
  have h4: "MaintenancePlan_filter_first (field_str example_env ''plan'' example_release)
              (db example_state) = Some ?mp" by (simp add: eval_defs)
  have h5: "store_ok (db example_state)" by (simp add: eval_defs)
  have h6: "\<not> dry_run example_args" by (simp add: eval_defs)
  have h7: "main example_env example_args example_doc example_state
              = (SystemExit 0, example_state_imported)" by (simp add: eval_defs)
  have k1: "well_formed example_doc_moved" by (simp add: eval_defs)
  have k2: "doc_field ''release'' example_doc_moved = Some example_release_moved"
    by (simp add: eval_defs)
  have k3: "doc_milestones example_release_moved = Some ?ms2" by (simp add: eval_defs)
  have k4: "field_str example_env ''plan'' example_release_moved
              = field_str example_env ''plan'' example_release" by (simp add: eval_defs)
  have k5: "field_str example_env ''name'' example_release_moved
              = field_str example_env ''name'' example_release" by (simp add: eval_defs)
  have k6: "set (ms_names example_env ?ms2) \<subseteq> set (ms_names example_env example_milestones)"
    by (simp add: eval_defs)
  have dk: "dates_ok example_env example_release_moved" by (simp add: eval_defs)
  have k7: "example_doc_moved = example_doc \<or>
            (dates_ok example_env example_release_moved \<and> list_all (dates_ok example_env) ?ms2)"
    by (simp add: eval_defs)
  have u: "update ?up" "\<not> dry_run ?up" by (simp_all add: eval_defs)
  from reimport_with_update [OF h1 h2 h3 h4 h5 h6 h7 h1 h2 h3 refl refl subset_refl disjI1 [OF refl]
      u refl]
  obtain row st2 where
    "main example_env ?up example_doc example_state_imported = (SystemExit 0, st2)"
    "db st2 = db example_state_imported"
    by blast
  then have 1: "fst (main example_env ?up example_doc example_state_imported) = SystemExit 0"
    and 2: "db (snd (main example_env ?up example_doc example_state_imported))
              = example_store_imported"
    by (simp_all add: example_state_imported_def)
  from reimport_with_update [OF h1 h2 h3 h4 h5 h6 h7 k1 k2 k3 k4 k5 k6 k7 u refl]
  obtain row st3 where
    r: "Release_filter_first ?mp (field_str example_env ''name'' example_release)
          (db example_state_imported) = Some row"
    and m: "main example_env ?up example_doc_moved example_state_imported = (SystemExit 0, st3)"
    and p: "plans (db st3) = plans (db example_state_imported)"
    and rs: "releases (db st3) =
             map (\<lambda>x. if rel_id x = rel_id row
                      then row\<lparr>rel_start_date := stored_date example_env
                                   (field_val ''start_date'' example_release_moved),
                               rel_end_date := stored_date example_env
                                   (field_val ''end_date'' example_release_moved)\<rparr>
                      else x) (releases (db example_state_imported))"
    and mr: "milestones (db st3) =
             map (\<lambda>x. if Milestone_filter_first row (ms_name x) (db example_state_imported) = Some x
                      then (case last_entry example_env (ms_name x) ?ms2 of
                              None \<Rightarrow> x | Some ms \<Rightarrow> with_dates example_env ms x)
                      else x) (milestones (db example_state_imported))"
    by blast
  have row: "row = \<lparr>rel_id = 1, rel_plan = 1, rel_name = ''5.1'',
                   rel_start_date = YDate 2024 4 30, rel_end_date = YDate 2024 10 25\<rparr>"
    using r by (simp add: eval_defs)
  have 3: "fst (main example_env ?up example_doc_moved example_state_imported) = SystemExit 0"
    using m by simp
  have "db st3 =
     \<lparr>plans = [\<lparr>plan_id = 1, plan_name = ''OE-Core''\<rparr>],
      releases = [\<lparr>rel_id = 1, rel_plan = 1, rel_name = ''5.1'',
                   rel_start_date = YDate 2024 4 30, rel_end_date = YDate 2024 11 8\<rparr>],
      milestones = [\<lparr>ms_id = 1, ms_release = 1, ms_name = ''M1'',
                     ms_start_date = YDate 2024 4 30, ms_end_date = YDate 2024 5 31\<rparr>,
                    \<lparr>ms_id = 2, ms_release = 1, ms_name = ''M2'',
                     ms_start_date = YDate 2024 6 10, ms_end_date = YDate 2024 7 26\<rparr>]\<rparr>"
    using p rs mr unfolding row
    by (intro store.equality) (simp_all add: eval_defs)
  then have 4: "db (snd (main example_env ?up example_doc_moved example_state_imported)) =
     \<lparr>plans = [\<lparr>plan_id = 1, plan_name = ''OE-Core''\<rparr>],
      releases = [\<lparr>rel_id = 1, rel_plan = 1, rel_name = ''5.1'',
                   rel_start_date = YDate 2024 4 30, rel_end_date = YDate 2024 11 8\<rparr>],
      milestones = [\<lparr>ms_id = 1, ms_release = 1, ms_name = ''M1'',
                     ms_start_date = YDate 2024 4 30, ms_end_date = YDate 2024 5 31\<rparr>,
                    \<lparr>ms_id = 2, ms_release = 1, ms_name = ''M2'',
                     ms_start_date = YDate 2024 6 10, ms_end_date = YDate 2024 7 26\<rparr>]\<rparr>"
    using m by simp
  from h1 h5 h6 h7 k1 k6 dk u 1 2 3 4 show ?thesis by blast
qed

section \<open>Properties of elided\_page\_range\<close>

lemma page_numbers_Nil: "page_numbers a b = [] \<longleftrightarrow> \<not> a < b"
  by (auto simp: page_numbers_def)

lemma ELLIPSIS_notin_page_numbers: "ELLIPSIS \<notin> set (page_numbers a b)"
  by (auto simp: page_numbers_def)

lemma ellipsis_count_page_numbers: "ellipsis_count (page_numbers a b) = 0"
  by (simp add: ellipsis_count_def page_numbers_def filter_empty_conv)

lemma ellipsis_count_append: "ellipsis_count (xs @ ys) = ellipsis_count xs + ellipsis_count ys"
  by (simp add: ellipsis_count_def)

lemma ellipsis_count_Cons:
  "ellipsis_count (x # xs) = (if x = ELLIPSIS then 1 else 0) + ellipsis_count xs"
  by (simp add: ellipsis_count_def)

lemma ellipsis_count_Nil: "ellipsis_count [] = 0"
  by (simp add: ellipsis_count_def)

lemma hd_page_numbers: "a < b \<Longrightarrow> hd (page_numbers a b) = PageNumber a"
  by (simp add: page_numbers_def upto.simps hd_map)

lemma last_page_numbers: "a < b \<Longrightarrow> last (page_numbers a b) = PageNumber (b - 1)"
proof -
  assume "a < b"
  then have "[a..b - 1] = [a..b - 1 - 1] @ [b - 1]"
    by (intro upto_rec2) simp
  then show ?thesis
    by (simp add: page_numbers_def del: upto.simps)
qed

lemma adjacent_ellipsis_Cons:
  "adjacent_ellipsis (x # xs) \<longleftrightarrow>
     (x = ELLIPSIS \<and> xs \<noteq> [] \<and> hd xs = ELLIPSIS) \<or> adjacent_ellipsis xs"
  by (cases xs) auto

lemma adjacent_ellipsis_append:
  "adjacent_ellipsis (xs @ ys) \<longleftrightarrow>
     adjacent_ellipsis xs \<or> adjacent_ellipsis ys \<or>
     (xs \<noteq> [] \<and> ys \<noteq> [] \<and> last xs = ELLIPSIS \<and> hd ys = ELLIPSIS)"
proof (induction xs rule: adjacent_ellipsis.induct)
  case (1 x y ys)
  then show ?case by auto
next
  case (2 x)
  then show ?case by (cases ys) auto
next
  case 3
  then show ?case by simp
qed

lemma no_adjacent_page_numbers: "\<not> adjacent_ellipsis (page_numbers a b)"
proof -
  have "ELLIPSIS \<notin> set xs \<Longrightarrow> \<not> adjacent_ellipsis xs" for xs
    by (induction xs rule: adjacent_ellipsis.induct) auto
  then show ?thesis using ELLIPSIS_notin_page_numbers by blast
qed

lemma get_elided_no_adjacent:
  assumes "1 \<le> n" "n \<le> num_pages pg"
  shows "get_elided_page_range pg n 3 1 = Inr xs \<Longrightarrow> \<not> adjacent_ellipsis xs"
  using assms
  by (auto simp: get_elided_page_range_def validate_number_def adjacent_ellipsis_append
      adjacent_ellipsis_Cons hd_append
      no_adjacent_page_numbers page_numbers_Nil hd_page_numbers last_page_numbers
      simp del: adjacent_ellipsis.simps split: if_splits)

text \<open>
  Claim C8, as the code has it. For a page object on a paginator of \<open>P\<close> pages whose
  current page \<open>n\<close> is one of them, the filter yields a sequence. When \<open>P \<le> 8\<close> (twice
  the 3 neighbours plus the 1 end page) the sequence is every page from 1 to \<open>P\<close> and
  holds no elision marker; when the current page lies in the middle
  (\<open>6 < n < P - 5\<close>) it holds exactly two markers; and it never holds two markers side
  by side.
\<close>

theorem elided_page_range_markers:
  assumes "attr_paginator page_obj = Some (PaginatorInstance pg)"
    and "attr_number page_obj = Some n"
    and "1 \<le> n" and "n \<le> num_pages pg"
  shows "\<exists>xs. elided_page_range page_obj = Inr xs \<and>
           (num_pages pg \<le> 8 \<longrightarrow> xs = map PageNumber [1..num_pages pg] \<and> ellipsis_count xs = 0) \<and>
           (6 < n \<and> n < num_pages pg - 5 \<longrightarrow> ellipsis_count xs = 2) \<and>
           \<not> adjacent_ellipsis xs"
proof -
  have "\<exists>xs. get_elided_page_range pg n 3 1 = Inr xs"
    using assms(3,4) by (simp add: get_elided_page_range_def validate_number_def)
  then obtain xs where xs: "get_elided_page_range pg n 3 1 = Inr xs" ..
  have run: "elided_page_range page_obj = Inr xs"
    using assms(1,2) xs by (simp add: elided_page_range_def)
  have small: "num_pages pg \<le> 8 \<Longrightarrow> xs = map PageNumber [1..num_pages pg]"
    using xs assms(3,4) by (auto simp: get_elided_page_range_def validate_number_def page_numbers_def)
  have small0: "num_pages pg \<le> 8 \<Longrightarrow> ellipsis_count xs = 0"
    using small by (simp add: ellipsis_count_def filter_empty_conv)
  have middle: "6 < n \<and> n < num_pages pg - 5 \<Longrightarrow> ellipsis_count xs = 2"
    using xs assms(3,4)
    by (auto simp: get_elided_page_range_def validate_number_def ellipsis_count_append
        ellipsis_count_page_numbers ellipsis_count_Cons ellipsis_count_Nil split: if_splits)
  have "\<not> adjacent_ellipsis xs"
    using get_elided_no_adjacent [OF assms(3,4) xs] .
  with run small small0 middle show ?thesis by blast
qed

text \<open>Page 7 of 13: the hypotheses hold and the sequence has its two markers.\<close>

theorem elided_page_range_markers_witness:
  "(1::int) \<le> 7 \<and> (7::int) \<le> num_pages \<lparr>num_pages = 13\<rparr> \<and>
   elided_page_range \<lparr>attr_paginator = Some (PaginatorInstance \<lparr>num_pages = 13\<rparr>), attr_number = Some 7\<rparr>
     = Inr [PageNumber 1, ELLIPSIS, PageNumber 4, PageNumber 5, PageNumber 6, PageNumber 7,
            PageNumber 8, PageNumber 9, PageNumber 10, ELLIPSIS, PageNumber 13]
   \<and> ellipsis_count [PageNumber 1, ELLIPSIS, PageNumber 4, PageNumber 5, PageNumber 6, PageNumber 7,
            PageNumber 8, PageNumber 9, PageNumber 10, ELLIPSIS, PageNumber 13] = 2"
  using elided_page_range_markers [of "\<lparr>attr_paginator = Some (PaginatorInstance \<lparr>num_pages = 13\<rparr>), attr_number = Some 7\<rparr>" "\<lparr>num_pages = 13\<rparr>" 7]
  by (simp add: elided_page_range_def get_elided_page_range_def validate_number_def page_numbers_def upto.simps ellipsis_count_def)

text \<open>With 9 pages and page 7 current, pages 2 and 3 are elided: the bound of claim C8
  as stated, \<open>P \<le> 9\<close>, is one too high.\<close>

theorem elided_nine_pages_counterexample:
  "num_pages \<lparr>num_pages = 9\<rparr> \<le> 9 \<and>
   elided_page_range \<lparr>attr_paginator = Some (PaginatorInstance \<lparr>num_pages = 9\<rparr>), attr_number = Some 7\<rparr>
     = Inr [PageNumber 1, ELLIPSIS, PageNumber 4, PageNumber 5, PageNumber 6, PageNumber 7,
            PageNumber 8, PageNumber 9]
   \<and> ellipsis_count [PageNumber 1, ELLIPSIS, PageNumber 4, PageNumber 5, PageNumber 6, PageNumber 7,
            PageNumber 8, PageNumber 9] = 1"
  by (simp add: elided_page_range_def get_elided_page_range_def validate_number_def page_numbers_def upto.simps ellipsis_count_def)

text \<open>
  Claim C9, as the code has it. For every object whose \<open>paginator\<close> attribute holds
  an instance of a class other than \<open>Paginator\<close>, the filter returns the empty sequence
  and raises nothing.
\<close>

theorem elided_page_range_not_paginator:
  "attr_paginator page_obj = Some OtherInstance \<Longrightarrow> elided_page_range page_obj = Inr []"
  by (simp add: elided_page_range_def)

theorem elided_page_range_not_paginator_witness:
  "attr_paginator \<lparr>attr_paginator = Some OtherInstance, attr_number = None\<rparr> = Some OtherInstance \<and>
   elided_page_range \<lparr>attr_paginator = Some OtherInstance, attr_number = None\<rparr> = Inr []"
  using elided_page_range_not_paginator [of "\<lparr>attr_paginator = Some OtherInstance, attr_number = None\<rparr>"]
  by simp

text \<open>An object with no \<open>paginator\<close> attribute is not backed by a paginator either, and
  on it the filter fails: line 21 reads the attribute before the type check.\<close>

theorem elided_page_range_no_attribute_counterexample:
  "elided_page_range \<lparr>attr_paginator = None, attr_number = None\<rparr> = Inl AttributeError"
  by (simp add: elided_page_range_def)

section \<open>Properties of page\_url\<close>

text \<open>
  The query string built by \<open>page_url\<close> is read back with \<open>parse_qsl\<close>. The proof goes
  through three facts: \<open>unquote_plus\<close> inverts \<open>quote_plus\<close>, an encoded key or value
  contains neither \<open>&\<close> nor \<open>=\<close>, and so splitting the joined string gives back the
  encoded fields one by one.
\<close>

lemma below_16_cases:
  "d < (16::nat) \<Longrightarrow>
   d = 0 \<or> d = 1 \<or> d = 2 \<or> d = 3 \<or> d = 4 \<or> d = 5 \<or> d = 6 \<or> d = 7 \<or>
   d = 8 \<or> d = 9 \<or> d = 10 \<or> d = 11 \<or> d = 12 \<or> d = 13 \<or> d = 14 \<or> d = 15"
  by arith

lemma hexdigit_facts:
  assumes "d < 16"
  shows "is_hex (hexdigit d)" and "hexval (hexdigit d) = d"
    and "hexdigit d \<noteq> CHR ''+''" and "hexdigit d \<noteq> CHR ''&''" and "hexdigit d \<noteq> CHR ''=''"
  using below_16_cases [OF assms]
  by (auto simp: hexdigit_def is_hex_def hexval_def)

lemma of_char_div_16: "of_char c div 16 < (16::nat)"
  by (rule less_mult_imp_div_less) simp

lemma char_from_hex: "char_of (16 * (of_char c div 16) + of_char c mod 16 :: nat) = c"
  by simp

lemma always_safe_not_special:
  "always_safe c \<Longrightarrow> c \<noteq> CHR ''+'' \<and> c \<noteq> CHR ''%'' \<and> c \<noteq> CHR ''&'' \<and> c \<noteq> CHR ''=''"
  by (auto simp: always_safe_def)

lemma unquote_Cons_other: "c \<noteq> CHR ''%'' \<Longrightarrow> unquote (c # rest) = c # unquote rest"
proof (cases rest)
  case Nil
  then show ?thesis by simp
next
  case (Cons a r)
  assume "c \<noteq> CHR ''%''"
  with Cons show ?thesis by (cases r) simp_all
qed

lemma unquote_percent:
  "is_hex a \<Longrightarrow> is_hex b \<Longrightarrow>
   unquote (CHR ''%'' # a # b # rest) = char_of (16 * hexval a + hexval b) # unquote rest"
  by simp

lemma unquote_plus_quote_char:
  "unquote (map (\<lambda>c. if c = CHR ''+'' then CHR '' '' else c) (quote_char c @ t)) =
     c # unquote (map (\<lambda>c. if c = CHR ''+'' then CHR '' '' else c) t)"
proof (cases "always_safe c")
  case True
  then show ?thesis
    using always_safe_not_special [OF True] by (simp add: quote_char_def unquote_Cons_other)
next
  case False
  show ?thesis
  proof (cases "c = CHR '' ''")
    case True
    with False show ?thesis by (simp add: quote_char_def unquote_Cons_other)
  next
    case sp: False
    have d1: "of_char c div 16 < (16::nat)" by (rule of_char_div_16)
    have d2: "of_char c mod 16 < (16::nat)" by simp
    show ?thesis
      using False sp hexdigit_facts [OF d1] hexdigit_facts [OF d2]
      by (simp add: quote_char_def unquote_percent del: unquote.simps)
  qed
qed

lemma unquote_plus_quote_plus: "unquote_plus (quote_plus s) = s"
proof (induction s)
  case Nil
  then show ?case by (simp add: unquote_plus_def quote_plus_def)
next
  case (Cons c s)
  then show ?case
    using unquote_plus_quote_char [of c "quote_plus s"]
    by (simp add: unquote_plus_def quote_plus_def del: unquote.simps)
qed

lemma quote_char_no_sep:
  "CHR ''&'' \<notin> set (quote_char c) \<and> CHR ''='' \<notin> set (quote_char c)"
proof -
  have d1: "of_char c div 16 < (16::nat)" by (rule of_char_div_16)
  have d2: "of_char c mod 16 < (16::nat)" by simp
  show ?thesis
    using hexdigit_facts [OF d1] hexdigit_facts [OF d2] always_safe_not_special [of c]
    by (auto simp: quote_char_def)
qed

lemma quote_plus_no_sep:
  "CHR ''&'' \<notin> set (quote_plus s) \<and> CHR ''='' \<notin> set (quote_plus s)"
  using quote_char_no_sep by (auto simp: quote_plus_def)


lemma split_on_no_sep: "sep \<notin> set f \<Longrightarrow> split_on sep f = [f]"
  by (induction f) auto

lemma split_on_append:
  "sep \<notin> set f \<Longrightarrow> split_on sep (f @ sep # rest) = f # split_on sep rest"
  by (induction f) auto

lemma split_on_join:
  "\<forall>f\<in>set fs. sep \<notin> set f \<Longrightarrow> fs \<noteq> [] \<Longrightarrow> split_on sep (join [sep] fs) = fs"
proof (induction "[sep]" fs rule: join.induct)
  case 1
  then show ?case by simp
next
  case (2 x)
  then show ?case by (simp add: split_on_no_sep)
next
  case (3 x y ys)
  then show ?case by (simp add: split_on_append)
qed

lemma parse_qsl_join:
  assumes "\<forall>f\<in>set fs. CHR ''&'' \<notin> set f \<and> f \<noteq> []"
  shows "parse_qsl (join ''&'' fs) = map parse_field fs"
proof (cases fs)
  case Nil
  then show ?thesis by (simp add: parse_qsl_def)
next
  case (Cons f fs')
  then have "split_on CHR ''&'' (join ''&'' fs) = fs"
    using assms split_on_join [of fs "CHR ''&''"] by auto
  moreover have "filter (\<lambda>f. f \<noteq> []) fs = fs"
    using assms by (simp add: filter_id_conv)
  ultimately show ?thesis by (simp add: parse_qsl_def)
qed

lemma parse_field_encoded:
  "parse_field (quote_plus k @ CHR ''='' # quote_plus v) = (k, v)"
proof -
  have k: "\<forall>x\<in>set (quote_plus k). x \<noteq> CHR ''=''"
    using quote_plus_no_sep [of k] by auto
  have "takeWhile (\<lambda>c. c \<noteq> CHR ''='') (quote_plus k @ CHR ''='' # quote_plus v) = quote_plus k"
    using k by (simp add: takeWhile_append2)
  moreover have "dropWhile (\<lambda>c. c \<noteq> CHR ''='') (quote_plus k @ CHR ''='' # quote_plus v)
                   = CHR ''='' # quote_plus v"
    using k by (simp add: dropWhile_append2)
  ultimately show ?thesis
    by (simp add: parse_field_def unquote_plus_quote_plus)
qed

lemma parse_qsl_urlencode: "parse_qsl (urlencode q) = lists_items q"
proof -
  let ?enc = "\<lambda>(k, v). quote_plus k @ ''='' @ quote_plus v"
  have "\<forall>f\<in>set (map ?enc (lists_items q)). CHR ''&'' \<notin> set f \<and> f \<noteq> []"
    using quote_plus_no_sep by (auto simp: split_beta)
  then have "parse_qsl (urlencode q) = map parse_field (map ?enc (lists_items q))"
    unfolding urlencode_def by (rule parse_qsl_join)
  also have "\<dots> = lists_items q"
    by (simp add: comp_def split_beta parse_field_encoded)
  finally show ?thesis .
qed

lemma page_url_unfold:
  assumes "GET request < length h"
  shows "page_url h request page =
           (CHR ''?'' # urlencode (setitem ''page'' (str_int page) (h ! GET request)),
            h @ [setitem ''page'' (str_int page) (h ! GET request)])"
  using assms
  by (simp add: page_url_def QueryDict_copy_def QueryDict_setitem_def QueryDict_urlencode_def
      nth_append)

lemma lists_items_Cons: "lists_items ((k, vs) # q) = map (Pair k) vs @ lists_items q"
  by (simp add: lists_items_def)

lemma lists_items_append: "lists_items (q @ q') = lists_items q @ lists_items q'"
  by (simp add: lists_items_def)

lemma getlist_append: "getlist k (xs @ ys) = getlist k xs @ getlist k ys"
  by (simp add: getlist_def)

lemma getlist_Nil: "getlist k [] = []"
  by (simp add: getlist_def)

lemma getlist_Cons:
  "getlist k ((k', v) # xs) = (if k' = k then v # getlist k xs else getlist k xs)"
  by (simp add: getlist_def)

lemma getlist_Pair: "getlist k (map (Pair k') vs) = (if k' = k then vs else [])"
  by (induction vs) (auto simp: getlist_def)

lemma lists_items_Nil: "lists_items [] = []"
  by (simp add: lists_items_def)

lemma getlist_lists_items_Cons:
  "getlist k (lists_items ((k', vs) # q)) =
     (if k' = k then vs @ getlist k (lists_items q) else getlist k (lists_items q))"
  unfolding lists_items_Cons getlist_append getlist_Pair by simp

lemma getlist_absent: "k \<notin> set (map fst q) \<Longrightarrow> getlist k (lists_items q) = []"
proof (induction q)
  case Nil
  then show ?case by (simp add: lists_items_Nil getlist_Nil)
next
  case (Cons kv q)
  obtain k' vs where kv: "kv = (k', vs)" by (cases kv)
  from Cons kv have "k' \<noteq> k" and "getlist k (lists_items q) = []" by auto
  then show ?case unfolding kv getlist_lists_items_Cons by simp
qed

lemma map_setitem_absent:
  "k \<notin> set (map fst q) \<Longrightarrow>
   map (\<lambda>(k', vs). if k' = k then (k', [v]) else (k', vs)) q = q"
  by (induction q) auto

lemma getlist_map_setitem:
  "distinct (map fst q) \<Longrightarrow> k \<in> set (map fst q) \<Longrightarrow>
   getlist k (lists_items (map (\<lambda>(k', vs). if k' = k then (k', [v]) else (k', vs)) q)) = [v]"
proof (induction q)
  case Nil
  then show ?case by simp
next
  case (Cons kv q)
  obtain k' vs where kv: "kv = (k', vs)" by (cases kv)
  let ?f = "\<lambda>(k', vs). if k' = k then (k', [v]) else (k', vs)"
  show ?case
  proof (cases "k' = k")
    case True
    with Cons.prems kv have notin: "k \<notin> set (map fst q)" by simp
    have "map ?f (kv # q) = (k, [v]) # q"
      using True kv map_setitem_absent [OF notin, of v] by simp
    then show ?thesis
      using getlist_absent [OF notin] by (simp only: getlist_lists_items_Cons) simp
  next
    case False
    with Cons.prems kv have "distinct (map fst q)" and "k \<in> set (map fst q)" by auto
    from Cons.IH [OF this] have ih: "getlist k (lists_items (map ?f q)) = [v]" .
    have "map ?f (kv # q) = (k', vs) # map ?f q"
      using False kv by simp
    then show ?thesis
      using ih False by (simp only: getlist_lists_items_Cons) simp
  qed
qed

lemma getlist_setitem_same:
  "distinct (map fst q) \<Longrightarrow> getlist k (lists_items (setitem k v q)) = [v]"
proof (cases "k \<in> set (map fst q)")
  case True
  assume "distinct (map fst q)"
  from getlist_map_setitem [OF this True] True show ?thesis
    by (simp add: setitem_def)
next
  case False
  have "getlist k (lists_items (q @ [(k, [v])])) = [v]"
    unfolding lists_items_append getlist_append getlist_lists_items_Cons
      getlist_absent [OF False] lists_items_Nil getlist_Nil by simp
  with False show ?thesis by (simp add: setitem_def)
qed

lemma getlist_setitem_other:
  "k \<noteq> k0 \<Longrightarrow> getlist k (lists_items (setitem k0 v q)) = getlist k (lists_items q)"
proof -
  assume ne: "k \<noteq> k0"
  let ?f = "\<lambda>(k', vs). if k' = k0 then (k', [v]) else (k', vs)"
  have m: "getlist k (lists_items (map ?f q)) = getlist k (lists_items q)"
  proof (induction q)
    case Nil
    then show ?case by simp
  next
    case (Cons kv q)
    obtain k' vs where kv: "kv = (k', vs)" by (cases kv)
    show ?case
    proof (cases "k' = k0")
      case True
      then have "map ?f (kv # q) = (k0, [v]) # map ?f q" using kv by simp
      then show ?thesis
        using Cons ne True kv by (simp only: getlist_lists_items_Cons) simp
    next
      case False
      then have "map ?f (kv # q) = (k', vs) # map ?f q" using kv by simp
      then show ?thesis
        using Cons kv by (simp add: getlist_lists_items_Cons)
    qed
  qed
  have a: "getlist k (lists_items (q @ [(k0, [v])])) = getlist k (lists_items q)"
    unfolding lists_items_append getlist_append getlist_lists_items_Cons
      lists_items_Nil getlist_Nil using ne by simp
  show ?thesis
    using m a by (simp add: setitem_def)
qed

text \<open>
  Claim C7. For every request whose \<open>GET\<close> dictionary \<open>Q\<close> is stored in the heap (a
  dictionary has each key once; a key may carry several values) and every page number
  \<open>N\<close>, \<open>page_url\<close> returns \<open>?\<close> followed by a query string that parses back to the
  pairs of \<open>Q\<close> with \<open>page\<close> set: the values of \<open>page\<close> are exactly \<open>[str(N)]\<close>, the
  values of every other key are those of \<open>Q\<close>, in the same order; and every object that
  was in the heap before the call, the request's own dictionary among them, is unchanged
  after it (the only write goes to the fresh copy).
\<close>

theorem page_url_round_trip:
  assumes "GET request < length h" and "distinct (map fst (h ! GET request))"
  shows "\<exists>qs. fst (page_url h request page) = CHR ''?'' # qs \<and>
           parse_qsl qs = lists_items (setitem ''page'' (str_int page) (h ! GET request)) \<and>
           getlist ''page'' (parse_qsl qs) = [str_int page] \<and>
           (\<forall>k. k \<noteq> ''page'' \<longrightarrow>
                getlist k (parse_qsl qs) = getlist k (lists_items (h ! GET request))) \<and>
           (\<forall>a. a < length h \<longrightarrow> snd (page_url h request page) ! a = h ! a)"
proof -
  let ?q = "setitem ''page'' (str_int page) (h ! GET request)"
  have u: "page_url h request page = (CHR ''?'' # urlencode ?q, h @ [?q])"
    using assms(1) by (rule page_url_unfold)
  have p: "parse_qsl (urlencode ?q) = lists_items ?q" by (rule parse_qsl_urlencode)
  have g1: "getlist ''page'' (lists_items ?q) = [str_int page]"
    using assms(2) by (rule getlist_setitem_same)
  have g2: "\<forall>k. k \<noteq> ''page'' \<longrightarrow>
              getlist k (lists_items ?q) = getlist k (lists_items (h ! GET request))"
    using getlist_setitem_other by blast
  have fr: "\<forall>a. a < length h \<longrightarrow> snd (page_url h request page) ! a = h ! a"
    by (simp add: u nth_append)
  show ?thesis
    using u p g1 g2 fr by (intro exI [of _ "urlencode ?q"]) simp
qed

text \<open>The theorem at a request with a two-valued key, characters that need encoding
  and an old \<open>page\<close> value.\<close>

theorem page_url_round_trip_witness:
  "GET \<lparr>GET = 0\<rparr> < length [[(''q'', [''a b'', ''c&d'']), (''page'', [''1''])]] \<and>
   distinct (map fst ([[(''q'', [''a b'', ''c&d'']), (''page'', [''1''])]] ! GET \<lparr>GET = 0\<rparr>)) \<and>
   page_url [[(''q'', [''a b'', ''c&d'']), (''page'', [''1''])]] \<lparr>GET = 0\<rparr> 12 =
     (''?q=a+b&q=c%26d&page=12'',
      [[(''q'', [''a b'', ''c&d'']), (''page'', [''1''])],
       [(''q'', [''a b'', ''c&d'']), (''page'', [''12''])]]) \<and>
   parse_qsl ''q=a+b&q=c%26d&page=12'' = [(''q'', ''a b''), (''q'', ''c&d''), (''page'', ''12'')]"
proof -
  have a: "GET \<lparr>GET = 0\<rparr> < length [[(''q'', [''a b'', ''c&d'']), (''page'', [''1''])]]"
    by simp
  have d: "distinct (map fst ([[(''q'', [''a b'', ''c&d'']), (''page'', [''1''])]] ! GET \<lparr>GET = 0\<rparr>))"
    by simp
  have e: "page_url [[(''q'', [''a b'', ''c&d'']), (''page'', [''1''])]] \<lparr>GET = 0\<rparr> 12 =
     (''?q=a+b&q=c%26d&page=12'',
      [[(''q'', [''a b'', ''c&d'']), (''page'', [''1''])],
       [(''q'', [''a b'', ''c&d'']), (''page'', [''12''])]])"
    by (simp add: page_url_def QueryDict_copy_def QueryDict_setitem_def QueryDict_urlencode_def
        setitem_def urlencode_def lists_items_def quote_plus_def quote_char_def always_safe_def
        hexdigit_def str_int_def str_nat.simps digit_def)
  from page_url_round_trip [OF a d, of 12] obtain qs where
    "fst (page_url [[(''q'', [''a b'', ''c&d'']), (''page'', [''1''])]] \<lparr>GET = 0\<rparr> 12) = CHR ''?'' # qs"
    and "parse_qsl qs = lists_items (setitem ''page'' (str_int 12)
           ([[(''q'', [''a b'', ''c&d'']), (''page'', [''1''])]] ! GET \<lparr>GET = 0\<rparr>))"
    by blast
  then have "parse_qsl ''q=a+b&q=c%26d&page=12''
       = [(''q'', ''a b''), (''q'', ''c&d''), (''page'', ''12'')]"
    unfolding e by (simp add: setitem_def lists_items_def str_int_def str_nat.simps digit_def)
  with a d e show ?thesis by blast
qed

end
